(* ===== verification/Prelude.thy ===== *)
theory Prelude
  imports Complex_Main "HOL-Library.Multiset" "HOL-Library.Sublist"
    "HOL-Library.List_Lexorder" "HOL-Library.Char_ord"
begin

text \<open>
  What every other theory of the development shares: the lemma collections, the values a
  JavaScript operation can throw, the stable sort behind \<^verbatim>\<open>Array.prototype.sort\<close>
  with its contract as a locale, and generic facts on lists and options.
\<close>

section \<open>Lemma collections\<close>

named_theorems handler_defs \<open>the definitions of event handlers and their continuations\<close>
named_theorems view_defs \<open>the definitions of values a component derives while rendering\<close>
named_theorems inv_intros \<open>preservation of component invariants\<close>

section \<open>Thrown values\<close>

text \<open>
  A \<^verbatim>\<open>catch\<close> clause sees either an instance of \<^verbatim>\<open>Error\<close>, which has a
  message, or some other thrown value. Fallible calls return \<open>js_error + 'a\<close>.
\<close>

datatype js_error = Error string | Thrown

text \<open>\<^verbatim>\<open>err instanceof Error ? err.message : dflt\<close>\<close>

fun error_message :: "js_error \<Rightarrow> string \<Rightarrow> string" where
  "error_message (Error m) dflt = m"
| "error_message Thrown dflt = dflt"

text \<open>\<^verbatim>\<open>err.message || dflt\<close> (an absent or empty message gives the default)\<close>

fun error_message_or :: "js_error \<Rightarrow> string \<Rightarrow> string" where
  "error_message_or (Error m) dflt = (if m = [] then dflt else m)"
| "error_message_or Thrown dflt = dflt"

text \<open>A property an error handler reads from the thrown value, as a text to show\<close>

fun error_text :: "js_error \<Rightarrow> string option" where
  "error_text (Error m) = Some m"
| "error_text Thrown = None"

text \<open>An optional text that is present and not empty\<close>

fun truthy :: "string option \<Rightarrow> bool" where
  "truthy (Some s) = (s \<noteq> [])"
| "truthy None = False"

section \<open>Persistent storage\<close>

text \<open>
  \<^verbatim>\<open>localStorage\<close> maps keys to texts. A component that keeps a value there relies on
  reading back what it wrote, and on leaving every other key alone.
\<close>

type_synonym storage = "string \<Rightarrow> string option"

locale persisted =
  fixes save :: "'v \<Rightarrow> storage \<Rightarrow> storage"
    and load :: "storage \<Rightarrow> 'v option"
    and valid :: "'v \<Rightarrow> bool"
    and key :: string
  assumes load_save: "valid v \<Longrightarrow> load (save v st) = Some v"
    and save_other: "k \<noteq> key \<Longrightarrow> save v st k = st k"
    and load_local: "st key = st' key \<Longrightarrow> load st = load st'"
begin

text \<open>The last write wins, whatever was stored before.\<close>

lemma load_last: "valid v \<Longrightarrow> load (save v (save w st)) = Some v"
  by (rule load_save)

text \<open>Writes to other keys are not seen.\<close>

lemma load_after_other:
  assumes "valid v" and "\<And>s. other s key = s key"
  shows "load (other (save v st)) = Some v"
  using load_local [of "other (save v st)" "save v st"] load_save [OF assms(1)] assms(2) by simp

end

section \<open>Asynchronous handlers\<close>

text \<open>
  A handler that calls the server: \<open>start\<close> runs up to the call and may refuse to make it,
  \<open>finish\<close> runs when the call settles, \<open>edit\<close> is what the user can do in between. The
  component counts on its busy flag being set exactly while the call is out.
\<close>

locale async_handler =
  fixes start :: "'st \<Rightarrow> 'st \<times> 'req option"
    and finish :: "'res \<Rightarrow> 'st \<Rightarrow> 'st"
    and edit :: "'ev \<Rightarrow> 'st \<Rightarrow> 'st"
    and busy :: "'st \<Rightarrow> bool"
  assumes start_busy: "start s = (s', Some r) \<Longrightarrow> busy s'"
    and start_refused: "start s = (s', None) \<Longrightarrow> busy s' \<Longrightarrow> busy s"
    and edit_busy: "busy (edit ev s) = busy s"
    and finish_idle: "\<not> busy (finish res s)"
begin

lemma edits_busy: "busy (fold edit evs s) = busy s"
  by (induction evs arbitrary: s) (auto simp: edit_busy)

lemma busy_while_pending: "start s = (s', Some r) \<Longrightarrow> busy (fold edit evs s')"
  by (simp add: edits_busy start_busy)

lemma idle_when_refused: "start s = (s', None) \<Longrightarrow> \<not> busy s \<Longrightarrow> \<not> busy (fold edit evs s')"
  using start_refused by (auto simp: edits_busy)

lemma idle_when_settled: "\<not> busy (fold edit evs' (finish res (fold edit evs s')))"
  by (simp add: edits_busy finish_idle)

end

section \<open>Stable sorting\<close>

text \<open>
  \<^verbatim>\<open>Array.prototype.sort\<close> is stable, and for a consistent comparator its result is
  determined: the sorted permutation that keeps the order of equal elements. \<open>gt x y\<close>
  stands for \<^verbatim>\<open>compare(x, y) > 0\<close>. For an inconsistent comparator the language
  leaves the order open and this model picks one.
\<close>

fun insert_by :: "('a \<Rightarrow> 'a \<Rightarrow> bool) \<Rightarrow> 'a \<Rightarrow> 'a list \<Rightarrow> 'a list" where
  "insert_by gt x [] = [x]"
| "insert_by gt x (y # ys) = (if gt x y then y # insert_by gt x ys else x # y # ys)"

fun sort_by :: "('a \<Rightarrow> 'a \<Rightarrow> bool) \<Rightarrow> 'a list \<Rightarrow> 'a list" where
  "sort_by gt [] = []"
| "sort_by gt (x # xs) = insert_by gt x (sort_by gt xs)"

lemma mset_insert_by [simp]: "mset (insert_by gt x ys) = add_mset x (mset ys)"
  by (induction ys) auto

lemma mset_sort_by [simp]: "mset (sort_by gt xs) = mset xs"
  by (induction xs) auto

lemma set_insert_by [simp]: "set (insert_by gt x ys) = insert x (set ys)"
  by (metis mset_insert_by set_mset_add_mset_insert set_mset_mset)

lemma set_sort_by [simp]: "set (sort_by gt xs) = set xs"
  by (metis mset_sort_by set_mset_mset)

lemma length_sort_by [simp]: "length (sort_by gt xs) = length xs"
  by (metis mset_sort_by size_mset)

lemma distinct_map_sort_by [simp]: "distinct (map f (sort_by gt xs)) = distinct (map f xs)"
proof -
  have "mset (map f (sort_by gt xs)) = mset (map f xs)" by simp
  then show ?thesis by (metis mset_eq_imp_distinct_iff)
qed

lemma filter_insert_by_neg: "\<not> P x \<Longrightarrow> filter P (insert_by gt x ys) = filter P ys"
  by (induction ys) auto

text \<open>
  The contract of a comparator: on the elements that satisfy \<open>valid\<close>, "not greater" is a
  total preorder. Everything the components need of sorting is proved once here.
\<close>

locale comparator =
  fixes gt :: "'a \<Rightarrow> 'a \<Rightarrow> bool" and valid :: "'a \<Rightarrow> bool"
  assumes asym: "valid x \<Longrightarrow> valid y \<Longrightarrow> gt x y \<Longrightarrow> \<not> gt y x"
    and le_trans: "valid x \<Longrightarrow> valid y \<Longrightarrow> valid z \<Longrightarrow> \<not> gt x y \<Longrightarrow> \<not> gt y z \<Longrightarrow> \<not> gt x z"
begin

lemma sorted_insert_by:
  assumes "\<forall>y\<in>set ys. valid y" and "valid x" and "sorted_wrt (\<lambda>a b. \<not> gt a b) ys"
  shows "sorted_wrt (\<lambda>a b. \<not> gt a b) (insert_by gt x ys)"
  using assms
proof (induction ys)
  case (Cons y ys)
  show ?case
  proof (cases "gt x y")
    case True
    with Cons asym [of x y] show ?thesis by simp
  next
    case False
    with Cons.prems have "\<forall>z\<in>set ys. \<not> gt x z"
      using le_trans [of x y] by auto
    with False Cons.prems show ?thesis by simp
  qed
qed simp

lemma sorted_sort_by:
  "\<forall>x\<in>set xs. valid x \<Longrightarrow> sorted_wrt (\<lambda>a b. \<not> gt a b) (sort_by gt xs)"
  by (induction xs) (auto intro!: sorted_insert_by)

lemma insert_by_front:
  "\<forall>y\<in>set ys. \<not> gt x y \<Longrightarrow> insert_by gt x ys = x # ys"
  by (cases ys) auto

lemma filter_insert_by_pos:
  assumes "\<forall>y\<in>set ys. valid y" and "valid x" and "sorted_wrt (\<lambda>a b. \<not> gt a b) ys"
    and "\<And>y. y \<in> set ys \<Longrightarrow> P y \<Longrightarrow> \<not> gt x y" and "P x"
  shows "filter P (insert_by gt x ys) = x # filter P ys"
  using assms
proof (induction ys)
  case (Cons y ys)
  then show ?case by (auto simp: list.pred_set)
qed simp

text \<open>Stability: elements that compare equal to \<open>k\<close> keep their order.\<close>

lemma stable_sort_by:
  assumes "\<forall>x\<in>set xs. valid x" and "valid k"
  shows "filter (\<lambda>y. \<not> gt k y \<and> \<not> gt y k) (sort_by gt xs)
       = filter (\<lambda>y. \<not> gt k y \<and> \<not> gt y k) xs"
  using assms(1)
proof (induction xs)
  case (Cons x xs)
  show ?case
  proof (cases "\<not> gt k x \<and> \<not> gt x k")
    case True
    then have "\<And>y. y \<in> set (sort_by gt xs) \<Longrightarrow> \<not> gt k y \<and> \<not> gt y k \<Longrightarrow> \<not> gt x y"
      using Cons.prems assms(2) le_trans [of x k] by auto
    then have "filter (\<lambda>y. \<not> gt k y \<and> \<not> gt y k) (insert_by gt x (sort_by gt xs))
        = x # filter (\<lambda>y. \<not> gt k y \<and> \<not> gt y k) (sort_by gt xs)"
      using True Cons.prems by (intro filter_insert_by_pos) (auto intro: sorted_sort_by)
    with True Cons show ?thesis by simp
  next
    case False
    with Cons show ?thesis by (simp add: filter_insert_by_neg)
  qed
qed simp

lemma sort_by_sorted_id:
  "sorted_wrt (\<lambda>a b. \<not> gt a b) xs \<Longrightarrow> sort_by gt xs = xs"
  by (induction xs) (auto intro!: insert_by_front)

lemma sort_by_idem:
  "\<forall>x\<in>set xs. valid x \<Longrightarrow> sort_by gt (sort_by gt xs) = sort_by gt xs"
  by (intro sort_by_sorted_id sorted_sort_by)

end

text \<open>Comparators that compare a key in a linear order satisfy the contract.\<close>

lemma key_comparator:
  fixes key :: "'a \<Rightarrow> 'k::linorder" and valid :: "'a \<Rightarrow> bool"
  assumes "\<And>x y. valid x \<Longrightarrow> valid y \<Longrightarrow> gt x y = (key x > key y)"
  shows "comparator gt valid"
  using assms by unfold_locales auto

section \<open>Generic facts\<close>

lemma find_Some_mem: "List.find P xs = Some x \<Longrightarrow> x \<in> set xs \<and> P x"
  by (auto simp: find_Some_iff)

lemma find_None_all: "List.find P xs = None \<longleftrightarrow> (\<forall>x\<in>set xs. \<not> P x)"
  by (auto simp: find_None_iff)

lemma distinct_map_filter_app:
  assumes "distinct (map f xs)" and "distinct (map f ys)"
  shows "distinct (map f (xs @ filter (\<lambda>y. f y \<notin> f ` set xs) ys))"
proof -
  have "distinct (map f (filter (\<lambda>y. f y \<notin> f ` set xs) ys))"
    using assms(2) by (rule distinct_map_filter)
  with assms(1) show ?thesis by (auto simp: image_iff)
qed

lemma subseq_distinct: "subseq xs ys \<Longrightarrow> distinct ys \<Longrightarrow> distinct xs"
  by (induction rule: list_emb.induct) (auto elim: list_emb_set)

end
