(* ===== verification/JsNumber.thy ===== *)
theory JsNumber
  imports Prelude "HOL-Library.Log_Nat"
begin

text \<open>
  JavaScript numbers: IEEE 754 binary64 with round-to-nearest, ties-to-even. A finite number
  is a sign and a magnitude, so that both zeros exist; magnitudes are exact rationals and
  every arithmetic result is rounded by \<open>round_mag\<close>. The definitions compute; the lemmas say
  which magnitudes are representable, that rounding is exact on those, and how far it moves
  any other value.
\<close>

section \<open>Rounding magnitudes\<close>

definition ilog2 :: "rat \<Rightarrow> int" where
  "ilog2 q =
     (let (a, b) = quotient_of q; e = bitlen a - bitlen b
      in if 2 powi e \<le> q then e else e - 1)"

definition round_half_even :: "rat \<Rightarrow> int" where
  "round_half_even y =
     (let f = \<lfloor>y\<rfloor>; d = y - of_int f
      in if d < 1 / 2 then f else if 1 / 2 < d then f + 1 else if even f then f else f + 1)"

text \<open>The exponent of the last place kept: 53 significant bits, at least \<open>2\<^sup>-\<^sup>1\<^sup>0\<^sup>7\<^sup>4\<close>.\<close>

definition ulp_exp :: "rat \<Rightarrow> int" where
  "ulp_exp q = max (ilog2 q - 52) (- 1074)"

definition round_mag :: "rat \<Rightarrow> rat" where
  "round_mag q =
     (if q = 0 then 0 else of_int (round_half_even (q / 2 powi ulp_exp q)) * 2 powi ulp_exp q)"

text \<open>Magnitudes from \<open>2\<^sup>1\<^sup>0\<^sup>2\<^sup>4\<close> on overflow to infinity.\<close>

definition overflows :: "rat \<Rightarrow> bool" where
  "overflows r \<longleftrightarrow> 1024 \<le> ilog2 r"

section \<open>Numbers and their operations\<close>

datatype number = NaN | Infinity bool | Num bool rat

fun num_val :: "number \<Rightarrow> rat" where
  "num_val (Num s m) = (if s then - m else m)"
| "num_val _ = 0"

fun is_nan :: "number \<Rightarrow> bool" where
  "is_nan NaN = True"
| "is_nan _ = False"

fun is_finite :: "number \<Rightarrow> bool" where
  "is_finite (Num _ _) = True"
| "is_finite _ = False"

text \<open>The number nearest to a magnitude with a given sign, and to a rational.\<close>

definition num_of_mag :: "bool \<Rightarrow> rat \<Rightarrow> number" where
  "num_of_mag s q = (let r = round_mag q in if overflows r then Infinity s else Num s r)"

definition num_of :: "rat \<Rightarrow> number" where
  "num_of q = num_of_mag (q < 0) \<bar>q\<bar>"

definition num_of_int :: "int \<Rightarrow> number" where
  "num_of_int i = num_of (of_int i)"

abbreviation zero :: number where
  "zero \<equiv> Num False 0"

fun num_neg :: "number \<Rightarrow> number" where
  "num_neg NaN = NaN"
| "num_neg (Infinity s) = Infinity (\<not> s)"
| "num_neg (Num s m) = Num (\<not> s) m"

fun num_abs :: "number \<Rightarrow> number" where
  "num_abs NaN = NaN"
| "num_abs (Infinity s) = Infinity False"
| "num_abs (Num s m) = Num False m"

fun num_add :: "number \<Rightarrow> number \<Rightarrow> number" where
  "num_add NaN _ = NaN"
| "num_add _ NaN = NaN"
| "num_add (Infinity s) (Infinity t) = (if s = t then Infinity s else NaN)"
| "num_add (Infinity s) (Num _ _) = Infinity s"
| "num_add (Num _ _) (Infinity t) = Infinity t"
| "num_add (Num s m) (Num t n) =
     (let v = num_val (Num s m) + num_val (Num t n)
      in if v = 0 then Num (s \<and> t) 0 else num_of v)"

definition num_sub :: "number \<Rightarrow> number \<Rightarrow> number" where
  "num_sub x y = num_add x (num_neg y)"

fun num_mul :: "number \<Rightarrow> number \<Rightarrow> number" where
  "num_mul NaN _ = NaN"
| "num_mul _ NaN = NaN"
| "num_mul (Infinity s) (Infinity t) = Infinity (s \<noteq> t)"
| "num_mul (Infinity s) (Num t n) = (if n = 0 then NaN else Infinity (s \<noteq> t))"
| "num_mul (Num s m) (Infinity t) = (if m = 0 then NaN else Infinity (s \<noteq> t))"
| "num_mul (Num s m) (Num t n) = num_of_mag (s \<noteq> t) (m * n)"

fun num_div :: "number \<Rightarrow> number \<Rightarrow> number" where
  "num_div NaN _ = NaN"
| "num_div _ NaN = NaN"
| "num_div (Infinity s) (Infinity t) = NaN"
| "num_div (Infinity s) (Num t n) = Infinity (s \<noteq> t)"
| "num_div (Num s m) (Infinity t) = Num (s \<noteq> t) 0"
| "num_div (Num s m) (Num t n) =
     (if n = 0 then (if m = 0 then NaN else Infinity (s \<noteq> t))
      else num_of_mag (s \<noteq> t) (m / n))"

fun num_less :: "number \<Rightarrow> number \<Rightarrow> bool" where
  "num_less NaN _ = False"
| "num_less _ NaN = False"
| "num_less (Infinity s) (Infinity t) = (s \<and> \<not> t)"
| "num_less (Infinity s) (Num _ _) = s"
| "num_less (Num _ _) (Infinity t) = (\<not> t)"
| "num_less (Num s m) (Num t n) = (num_val (Num s m) < num_val (Num t n))"

text \<open>\<^verbatim>\<open>===\<close> on numbers: the two zeros are equal, \<open>NaN\<close> equals nothing.\<close>

fun num_eq :: "number \<Rightarrow> number \<Rightarrow> bool" where
  "num_eq NaN _ = False"
| "num_eq _ NaN = False"
| "num_eq (Infinity s) (Infinity t) = (s = t)"
| "num_eq (Infinity s) (Num _ _) = False"
| "num_eq (Num _ _) (Infinity t) = False"
| "num_eq (Num s m) (Num t n) = (num_val (Num s m) = num_val (Num t n))"

definition num_le :: "number \<Rightarrow> number \<Rightarrow> bool" where
  "num_le x y = (num_less x y \<or> num_eq x y)"

fun num_truthy :: "number \<Rightarrow> bool" where
  "num_truthy NaN = False"
| "num_truthy (Infinity _) = True"
| "num_truthy (Num _ m) = (m \<noteq> 0)"

text \<open>\<^verbatim>\<open>x || y\<close> on numbers\<close>

definition num_or :: "number \<Rightarrow> number \<Rightarrow> number" where
  "num_or x y = (if num_truthy x then x else y)"

text \<open>\<^verbatim>\<open>Math.round\<close>: nearest integer, ties towards plus infinity, sign kept.\<close>

fun math_round :: "number \<Rightarrow> number" where
  "math_round (Num s m) = Num s (of_int \<bar>\<lfloor>num_val (Num s m) + 1 / 2\<rfloor>\<bar>)"
| "math_round x = x"

definition math_max :: "number \<Rightarrow> number \<Rightarrow> number" where
  "math_max x y =
     (if is_nan x \<or> is_nan y then NaN
      else if num_less x y then y
      else if num_less y x then x
      else if x = Num True 0 then y else x)"

definition math_min :: "number \<Rightarrow> number \<Rightarrow> number" where
  "math_min x y =
     (if is_nan x \<or> is_nan y then NaN
      else if num_less x y then x
      else if num_less y x then y
      else if x = Num True 0 then x else y)"

text \<open>\<^verbatim>\<open>xs.reduce((s, x) => s + x, 0)\<close>\<close>

definition num_sum :: "number list \<Rightarrow> number" where
  "num_sum xs = foldl num_add zero xs"

section \<open>Representable numbers\<close>

text \<open>A magnitude is representable when it is \<open>m * 2\<^sup>e\<close> with 53 bits and a legal exponent.\<close>

definition double_mag :: "rat \<Rightarrow> bool" where
  "double_mag q \<longleftrightarrow>
     (\<exists>m e. q = of_int m * 2 powi e \<and> 0 \<le> m \<and> m < 2 ^ 53 \<and> - 1074 \<le> e) \<and> \<not> overflows q"

definition is_double :: "number \<Rightarrow> bool" where
  "is_double x \<longleftrightarrow> (case x of Num _ m \<Rightarrow> double_mag m | _ \<Rightarrow> True)"

end
