(* ===== verification/JsString.thy ===== *)
theory JsString
  imports JsNumber
begin

text \<open>
  JavaScript strings whose code units are below 256, as Isabelle character lists, with the
  library operations the frontend uses on them: case folding, trimming, splitting, searching,
  replacing, and the conversions between numbers and text (\<^verbatim>\<open>parseFloat\<close>,
  \<^verbatim>\<open>parseInt\<close>, \<^verbatim>\<open>toString\<close>, \<^verbatim>\<open>toFixed\<close>). Ordering on
  strings is the library's lexicographic order on code units, as \<^verbatim>\<open><\<close> compares them.
\<close>

section \<open>Characters\<close>

definition code :: "char \<Rightarrow> int" where
  "code c = of_char c"

text \<open>White space and line terminators below 256\<close>

definition is_space :: "char \<Rightarrow> bool" where
  "is_space c \<longleftrightarrow> code c \<in> {9, 10, 11, 12, 13, 32, 160}"

definition is_digit :: "char \<Rightarrow> bool" where
  "is_digit c \<longleftrightarrow> 48 \<le> code c \<and> code c \<le> 57"

definition digit_val :: "char \<Rightarrow> int" where
  "digit_val c = code c - 48"

definition digit_char :: "int \<Rightarrow> char" where
  "digit_char d = char_of (48 + d)"

definition lower_char :: "char \<Rightarrow> char" where
  "lower_char c =
     (let n = code c
      in if 65 \<le> n \<and> n \<le> 90 \<or> 192 \<le> n \<and> n \<le> 222 \<and> n \<noteq> 215 then char_of (n + 32) else c)"

section \<open>Strings\<close>

definition to_lower :: "string \<Rightarrow> string" where
  "to_lower s = map lower_char s"

definition js_trim :: "string \<Rightarrow> string" where
  "js_trim s = rev (dropWhile is_space (rev (dropWhile is_space s)))"

fun str_includes :: "string \<Rightarrow> string \<Rightarrow> bool" where
  "str_includes [] n = (n = [])"
| "str_includes (c # h) n = (prefix n (c # h) \<or> str_includes h n)"

text \<open>\<^verbatim>\<open>s.split(c)[0]\<close> for a one-character separator\<close>

definition before_char :: "char \<Rightarrow> string \<Rightarrow> string" where
  "before_char c s = takeWhile (\<lambda>x. x \<noteq> c) s"

text \<open>\<^verbatim>\<open>s.split(/\s+/).filter(Boolean)\<close>\<close>

fun split_words :: "string \<Rightarrow> string \<Rightarrow> string list" where
  "split_words [] acc = (if acc = [] then [] else [acc])"
| "split_words (c # s) acc =
     (if is_space c then (if acc = [] then split_words s [] else acc # split_words s [])
      else split_words s (acc @ [c]))"

definition js_words :: "string \<Rightarrow> string list" where
  "js_words s = split_words s []"

fun js_join :: "string \<Rightarrow> string list \<Rightarrow> string" where
  "js_join sep [] = []"
| "js_join sep [x] = x"
| "js_join sep (x # y # zs) = x @ sep @ js_join sep (y # zs)"

definition pad_start :: "nat \<Rightarrow> char \<Rightarrow> string \<Rightarrow> string" where
  "pad_start n c s = replicate (n - length s) c @ s"

text \<open>\<^verbatim>\<open>s.replace(a, b)\<close> for one-character strings: the first occurrence only\<close>

fun replace_char :: "char \<Rightarrow> char \<Rightarrow> string \<Rightarrow> string" where
  "replace_char a b [] = []"
| "replace_char a b (c # s) = (if c = a then b # s else c # replace_char a b s)"

text \<open>
  \<^verbatim>\<open>s.replace(pat, rep)\<close> for a string pattern: the first occurrence only; in the
  replacement a dollar sign starts a substitution for itself, the match, the part before or
  the part after.
\<close>

fun expand_replacement :: "string \<Rightarrow> string \<Rightarrow> string \<Rightarrow> string \<Rightarrow> string" where
  "expand_replacement pre m post [] = []"
| "expand_replacement pre m post [c] = [c]"
| "expand_replacement pre m post (c # d # s) =
     (if c \<noteq> CHR ''$'' then c # expand_replacement pre m post (d # s)
      else if d = CHR ''$'' then CHR ''$'' # expand_replacement pre m post s
      else if d = CHR ''&'' then m @ expand_replacement pre m post s
      else if code d = 96 then pre @ expand_replacement pre m post s
      else if code d = 39 then post @ expand_replacement pre m post s
      else c # expand_replacement pre m post (d # s))"

fun replace_from :: "string \<Rightarrow> string \<Rightarrow> string \<Rightarrow> string \<Rightarrow> string" where
  "replace_from pat rep pre s =
     (if prefix pat s
      then pre @ expand_replacement pre pat (drop (length pat) s) rep @ drop (length pat) s
      else (case s of [] \<Rightarrow> pre | c # s' \<Rightarrow> replace_from pat rep (pre @ [c]) s'))"

declare replace_from.simps [simp del]

definition js_replace :: "string \<Rightarrow> string \<Rightarrow> string \<Rightarrow> string" where
  "js_replace pat rep s = replace_from pat rep [] s"

section \<open>Decimal text of integers\<close>

function dec_digits :: "int \<Rightarrow> string" where
  "dec_digits n = (if n < 10 then [digit_char n] else dec_digits (n div 10) @ [digit_char (n mod 10)])"
  by pat_completeness auto
termination
  by (relation "measure nat") auto

declare dec_digits.simps [simp del]

definition dec_int :: "int \<Rightarrow> string" where
  "dec_int i = (if i < 0 then ''-'' else '''') @ dec_digits \<bar>i\<bar>"

definition digits_val :: "string \<Rightarrow> int" where
  "digits_val s = foldl (\<lambda>a c. 10 * a + digit_val c) 0 s"

section \<open>Reading a decimal literal\<close>

definition take_digits :: "string \<Rightarrow> string \<times> string" where
  "take_digits s = (takeWhile is_digit s, dropWhile is_digit s)"

text \<open>An exponent part is consumed only when it is complete.\<close>

fun scan_exponent :: "string \<Rightarrow> int \<times> string" where
  "scan_exponent (c # s) =
     (if c = CHR ''e'' \<or> c = CHR ''E'' then
        (let (neg, s') = (case s of d # t \<Rightarrow> if d = CHR ''-'' then (True, t)
                                     else if d = CHR ''+'' then (False, t) else (False, s)
                          | [] \<Rightarrow> (False, s));
             (ds, r) = take_digits s'
         in if ds = [] then (0, c # s)
            else ((if neg then - digits_val ds else digits_val ds), r))
      else (0, c # s))"
| "scan_exponent [] = (0, [])"

text \<open>Digits with an optional point and exponent: the value and the rest of the text\<close>

definition scan_decimal :: "string \<Rightarrow> (rat \<times> string) option" where
  "scan_decimal s =
     (let (ip, r) = take_digits s;
          (fp, r') = (case r of c # t \<Rightarrow>
                        (if c = CHR ''.'' \<and> (ip \<noteq> [] \<or> takeWhile is_digit t \<noteq> [])
                         then take_digits t else ([], r))
                      | [] \<Rightarrow> ([], r))
      in if ip = [] \<and> fp = [] then None
         else (let (e, r'') = scan_exponent r'
               in Some (of_int (digits_val (ip @ fp)) * 10 powi (e - int (length fp)), r'')))"

definition parse_unsigned :: "bool \<Rightarrow> string \<Rightarrow> number" where
  "parse_unsigned neg s =
     (if prefix ''Infinity'' s then Infinity neg
      else case scan_decimal s of None \<Rightarrow> NaN | Some (q, _) \<Rightarrow> num_of_mag neg q)"

definition parse_float :: "string \<Rightarrow> number" where
  "parse_float s =
     (case dropWhile is_space s of
        c # t \<Rightarrow> if c = CHR ''-'' then parse_unsigned True t
                else if c = CHR ''+'' then parse_unsigned False t
                else parse_unsigned False (c # t)
      | [] \<Rightarrow> NaN)"

text \<open>\<^verbatim>\<open>parseInt(s)\<close> on text that is not hexadecimal\<close>

definition parse_int :: "string \<Rightarrow> number" where
  "parse_int s =
     (let t = dropWhile is_space s;
          (neg, u) = (case t of c # v \<Rightarrow> if c = CHR ''-'' then (True, v)
                                       else if c = CHR ''+'' then (False, v) else (False, t)
                      | [] \<Rightarrow> (False, []));
          ds = takeWhile is_digit u
      in if ds = [] then NaN else num_of_mag neg (of_int (digits_val ds)))"

section \<open>Text of a number\<close>

definition ndigits :: "int \<Rightarrow> int" where
  "ndigits n = int (length (dec_digits n))"

definition ilog10 :: "rat \<Rightarrow> int" where
  "ilog10 q = (if 1 \<le> q then ndigits \<lfloor>q\<rfloor> - 1 else - ndigits (\<lceil>1 / q\<rceil> - 1))"

text \<open>
  The digits of \<^verbatim>\<open>toString\<close>: the fewest that still read back as the number, and of
  those the nearest. \<open>d\<close> is the decimal exponent of the leading digit; a candidate of \<open>k\<close>
  digits is one of the two integers around the scaled value.
\<close>

definition candidate :: "rat \<Rightarrow> int \<Rightarrow> int \<Rightarrow> int option" where
  "candidate q d k =
     (let scale = 10 powi (d + 1 - k); y = q / scale; lo = \<lfloor>y\<rfloor>; hi = lo + 1;
          ok = (\<lambda>s. round_mag (of_int s * scale) = q)
      in if ok lo \<and> (\<not> ok hi \<or> y - of_int lo \<le> of_int hi - y) then Some lo
         else if ok hi then Some hi else None)"

fun shortest :: "rat \<Rightarrow> int \<Rightarrow> int \<Rightarrow> nat \<Rightarrow> int \<times> int" where
  "shortest q d k 0 = (\<lfloor>q / 10 powi (d + 1 - k)\<rfloor>, k)"
| "shortest q d k (Suc fuel) =
     (case candidate q d k of Some s \<Rightarrow> (s, k) | None \<Rightarrow> shortest q d (k + 1) fuel)"

text \<open>
  \<open>s * 10\<^sup>n\<^sup>-\<^sup>k\<close> with \<open>s\<close> of \<open>k\<close> digits; rounding up to a power of ten moves the
  point. The search runs over 1 to 17 digits, which always suffices.
\<close>

definition decimal_form :: "rat \<Rightarrow> string \<times> int" where
  "decimal_form q =
     (let d = ilog10 q; (s, k) = shortest q d 1 17
      in if s = 10 ^ nat k then (dec_digits (10 ^ nat (k - 1)), d + 2) else (dec_digits s, d + 1))"

definition format_decimal :: "string \<Rightarrow> int \<Rightarrow> string" where
  "format_decimal ds n =
     (let k = int (length ds)
      in if k \<le> n \<and> n \<le> 21 then ds @ replicate (nat (n - k)) (CHR ''0'')
         else if 0 < n \<and> n \<le> 21 then take (nat n) ds @ ''.'' @ drop (nat n) ds
         else if - 6 < n \<and> n \<le> 0 then ''0.'' @ replicate (nat (- n)) (CHR ''0'') @ ds
         else (if k = 1 then ds else take 1 ds @ ''.'' @ drop 1 ds)
              @ ''e'' @ (if n - 1 < 0 then ''-'' else ''+'') @ dec_digits \<bar>n - 1\<bar>)"

fun num_to_string :: "number \<Rightarrow> string" where
  "num_to_string NaN = ''NaN''"
| "num_to_string (Infinity s) = (if s then ''-Infinity'' else ''Infinity'')"
| "num_to_string (Num s m) =
     (if m = 0 then ''0''
      else (if s then ''-'' else '''') @ (case decimal_form m of (ds, n) \<Rightarrow> format_decimal ds n))"

text \<open>\<^verbatim>\<open>x.toFixed(2)\<close>\<close>

definition fixed2_digits :: "int \<Rightarrow> string" where
  "fixed2_digits n =
     (let ds = pad_start 3 (CHR ''0'') (dec_digits n)
      in take (length ds - 2) ds @ ''.'' @ drop (length ds - 2) ds)"

fun to_fixed2 :: "number \<Rightarrow> string" where
  "to_fixed2 (Num s m) =
     (if 10 ^ 21 \<le> m then num_to_string (Num s m)
      else (if s \<and> m \<noteq> 0 then ''-'' else '''') @ fixed2_digits \<lfloor>m * 100 + 1 / 2\<rfloor>)"
| "to_fixed2 x = num_to_string x"

end
