(* ===== verification/JsExpr.thy ===== *)
theory JsExpr
  imports JsString
begin

text \<open>
  The JavaScript expressions that digits, brackets, the point, the space and the characters
  \<^verbatim>\<open>+ - * /\<close> can spell, as \<^verbatim>\<open>new Function(...)\<close> evaluates them: decimal and legacy
  octal literals, comments, regular expression literals, unary and binary operators with the
  language's precedences. \<open>None\<close> stands for any exception (a syntax error, or the call of a
  value that is no function). The results of \<^verbatim>\<open>**\<close> are left to the implementation by the
  language, so that operator is the parameter \<open>pow\<close>.
\<close>

section \<open>Tokens\<close>

datatype token = TNum rat | TRegex | TPlus | TMinus | TStar | TSlash | TPow | TOpen | TClose

definition octal_val :: "string \<Rightarrow> int" where
  "octal_val s = foldl (\<lambda>a c. 8 * a + digit_val c) 0 s"

text \<open>
  A literal with a leading zero and only octal digits is octal; every other one is decimal.
\<close>

definition lex_number :: "string \<Rightarrow> (rat \<times> string) option" where
  "lex_number s =
     (let (ds, r) = take_digits s
      in if 2 \<le> length ds \<and> hd ds = CHR ''0'' \<and> list_all (\<lambda>c. digit_val c < 8) ds
         then Some (of_int (octal_val ds), r)
         else scan_decimal s)"

text \<open>The text after a block comment's closing mark\<close>

fun skip_block :: "string \<Rightarrow> string option" where
  "skip_block (c # d # s) = (if c = CHR ''*'' \<and> d = CHR ''/'' then Some s else skip_block (d # s))"
| "skip_block _ = None"

text \<open>
  The pattern of a regular expression literal is well formed when its groups are balanced and
  every quantifier follows an atom.
\<close>

fun valid_pattern :: "nat \<Rightarrow> bool \<Rightarrow> string \<Rightarrow> bool" where
  "valid_pattern depth atom [] = (depth = 0)"
| "valid_pattern depth atom (c # s) =
     (if c = CHR ''('' then valid_pattern (Suc depth) False s
      else if c = CHR '')'' then depth \<noteq> 0 \<and> valid_pattern (depth - 1) True s
      else if c = CHR ''*'' \<or> c = CHR ''+'' then atom \<and> valid_pattern depth False s
      else valid_pattern depth True s)"

text \<open>After the opening slash: the text behind the literal, which takes no flags here.\<close>

definition lex_regex :: "string \<Rightarrow> string option" where
  "lex_regex s =
     (let body = takeWhile (\<lambda>c. c \<noteq> CHR ''/'') s; r = dropWhile (\<lambda>c. c \<noteq> CHR ''/'') s
      in case r of [] \<Rightarrow> None
         | _ # t \<Rightarrow> if body = [] \<or> \<not> valid_pattern 0 False body then None
                    else if t \<noteq> [] \<and> is_digit (hd t) then None else Some t)"

lemma skip_block_length: "skip_block s = Some r \<Longrightarrow> length r < length s"
  by (induction s rule: skip_block.induct) (auto split: if_splits)

lemma lex_regex_length: "lex_regex s = Some r \<Longrightarrow> length r < length s"
proof -
  assume r: "lex_regex s = Some r"
  let ?P = "\<lambda>c. c \<noteq> CHR ''/''"
  from r obtain d where "dropWhile ?P s = d # r"
    by (auto simp: lex_regex_def Let_def split: list.splits if_splits)
  then show ?thesis using length_dropWhile_le [of ?P s] by simp
qed

lemma take_digits_length: "take_digits s = (ds, r) \<Longrightarrow> length ds + length r = length s"
  by (auto simp: take_digits_def length_append [symmetric] simp del: length_append)

lemma scan_exponent_length: "scan_exponent s = (e, r) \<Longrightarrow> length r \<le> length s"
  by (induction s rule: scan_exponent.induct)
    (auto simp: Let_def split: list.splits if_splits prod.splits dest!: take_digits_length)

lemma scan_decimal_length:
  assumes "scan_decimal s = Some (q, r)"
  shows "length r < length s"
proof -
  let ?frac = "\<lambda>ip u. case u of c # t \<Rightarrow>
      (if c = CHR ''.'' \<and> (ip \<noteq> [] \<or> takeWhile is_digit t \<noteq> []) then take_digits t else ([], u))
    | [] \<Rightarrow> ([], u)"
  obtain ip u where ip: "take_digits s = (ip, u)" by fastforce
  obtain fp v where fp: "?frac ip u = (fp, v)" by fastforce
  have "length fp + length v \<le> length u"
    using fp by (auto split: list.splits if_splits dest!: take_digits_length)
  moreover have "ip \<noteq> [] \<or> fp \<noteq> []" using assms ip fp by (auto simp: scan_decimal_def)
  moreover have "length r \<le> length v"
  proof -
    obtain e w where "scan_exponent v = (e, w)" by fastforce
    then show ?thesis using assms ip fp scan_exponent_length [of v e w]
      by (auto simp: scan_decimal_def split: if_splits)
  qed
  ultimately show ?thesis using take_digits_length [OF ip] by (auto simp: neq_Nil_conv)
qed

lemma lex_number_length: "lex_number s = Some (q, r) \<Longrightarrow> length r < length s"
  by (auto simp: lex_number_def Let_def split: if_splits prod.splits
      dest: scan_decimal_length take_digits_length)

text \<open>\<open>opd\<close> says whether an operand is expected, which tells a regular expression from a division.\<close>

function lex :: "bool \<Rightarrow> string \<Rightarrow> token list option" where
  "lex opd [] = Some []"
| "lex opd (c # s) =
     (if c = CHR '' '' then lex opd s
      else if c = CHR ''/'' then
        (if prefix ''/'' s then Some []
         else if prefix ''*'' s then
           (case skip_block (tl s) of None \<Rightarrow> None | Some r \<Rightarrow> lex opd r)
         else if opd then
           (case lex_regex s of None \<Rightarrow> None | Some r \<Rightarrow> map_option (Cons TRegex) (lex False r))
         else map_option (Cons TSlash) (lex True s))
      else if is_digit c \<or> c = CHR ''.'' then
        (case lex_number (c # s) of None \<Rightarrow> None
         | Some (q, r) \<Rightarrow> map_option (Cons (TNum q)) (lex False r))
      else if c = CHR ''+'' then
        (if prefix ''+'' s then None else map_option (Cons TPlus) (lex True s))
      else if c = CHR ''-'' then
        (if prefix ''-'' s then None else map_option (Cons TMinus) (lex True s))
      else if c = CHR ''*'' then
        (if prefix ''*'' s then map_option (Cons TPow) (lex True (tl s))
         else map_option (Cons TStar) (lex True s))
      else if c = CHR ''('' then map_option (Cons TOpen) (lex True s)
      else if c = CHR '')'' then map_option (Cons TClose) (lex False s)
      else None)"
  by pat_completeness auto
termination
  by (relation "measure (\<lambda>(opd, s). length s)")
    (auto dest!: skip_block_length lex_regex_length lex_number_length)

section \<open>Values and the operator stack\<close>

text \<open>\<open>JOther\<close>: a regular expression, or a string that shows one; neither reads as a number.\<close>

datatype js_val = JNum number | JOther

fun to_number :: "js_val \<Rightarrow> number" where
  "to_number (JNum x) = x"
| "to_number JOther = NaN"

datatype binop = OAdd | OSub | OMul | ODiv | OPow

fun apply_binop :: "(number \<Rightarrow> number \<Rightarrow> number) \<Rightarrow> binop \<Rightarrow> js_val \<Rightarrow> js_val \<Rightarrow> js_val" where
  "apply_binop pow OAdd (JNum x) (JNum y) = JNum (num_add x y)"
| "apply_binop pow OAdd _ _ = JOther"
| "apply_binop pow OSub v w = JNum (num_sub (to_number v) (to_number w))"
| "apply_binop pow OMul v w = JNum (num_mul (to_number v) (to_number w))"
| "apply_binop pow ODiv v w = JNum (num_div (to_number v) (to_number w))"
| "apply_binop pow OPow v w = JNum (pow (to_number v) (to_number w))"

text \<open>What waits for the operand being read: a bracket, a sign, or an operator with its left side.\<close>

datatype frame = FParen | FSign bool | FBin binop js_val

fun level :: "frame \<Rightarrow> nat" where
  "level FParen = 0"
| "level (FBin OAdd _) = 1"
| "level (FBin OSub _) = 1"
| "level (FBin OMul _) = 2"
| "level (FBin ODiv _) = 2"
| "level (FBin OPow _) = 3"
| "level (FSign _) = 4"

fun apply_frame :: "(number \<Rightarrow> number \<Rightarrow> number) \<Rightarrow> frame \<Rightarrow> js_val \<Rightarrow> js_val" where
  "apply_frame pow (FSign neg) v = JNum (if neg then num_neg (to_number v) else to_number v)"
| "apply_frame pow (FBin op l) v = apply_binop pow op l v"
| "apply_frame pow FParen v = v"

text \<open>Apply the waiting frames that bind at least as tightly as \<open>l\<close>.\<close>

fun reduce :: "(number \<Rightarrow> number \<Rightarrow> number) \<Rightarrow> nat \<Rightarrow> frame list \<Rightarrow> js_val \<Rightarrow> frame list \<times> js_val" where
  "reduce pow l [] v = ([], v)"
| "reduce pow l (f # fs) v = (if l \<le> level f then reduce pow l fs (apply_frame pow f v) else (f # fs, v))"

text \<open>
  The token stream with a stack: \<open>eval_operand\<close> where an operand is expected, \<open>eval_operator\<close>
  after one. A sign directly before the left side of \<^verbatim>\<open>**\<close> is a syntax error.
\<close>

fun eval_operand :: "(number \<Rightarrow> number \<Rightarrow> number) \<Rightarrow> frame list \<Rightarrow> token list \<Rightarrow> js_val option"
and eval_operator :: "(number \<Rightarrow> number \<Rightarrow> number) \<Rightarrow> frame list \<Rightarrow> js_val \<Rightarrow> token list \<Rightarrow> js_val option" where
  "eval_operand pow fs (TNum q # ts) = eval_operator pow fs (JNum (num_of q)) ts"
| "eval_operand pow fs (TRegex # ts) = eval_operator pow fs JOther ts"
| "eval_operand pow fs (TPlus # ts) = eval_operand pow (FSign False # fs) ts"
| "eval_operand pow fs (TMinus # ts) = eval_operand pow (FSign True # fs) ts"
| "eval_operand pow fs (TOpen # ts) = eval_operand pow (FParen # fs) ts"
| "eval_operand pow fs _ = None"
| "eval_operator pow fs v [] =
     (case reduce pow 1 fs v of ([], w) \<Rightarrow> Some w | _ \<Rightarrow> None)"
| "eval_operator pow fs v (TPlus # ts) =
     (case reduce pow 1 fs v of (fs', w) \<Rightarrow> eval_operand pow (FBin OAdd w # fs') ts)"
| "eval_operator pow fs v (TMinus # ts) =
     (case reduce pow 1 fs v of (fs', w) \<Rightarrow> eval_operand pow (FBin OSub w # fs') ts)"
| "eval_operator pow fs v (TStar # ts) =
     (case reduce pow 2 fs v of (fs', w) \<Rightarrow> eval_operand pow (FBin OMul w # fs') ts)"
| "eval_operator pow fs v (TSlash # ts) =
     (case reduce pow 2 fs v of (fs', w) \<Rightarrow> eval_operand pow (FBin ODiv w # fs') ts)"
| "eval_operator pow fs v (TPow # ts) =
     (case fs of FSign _ # _ \<Rightarrow> None | _ \<Rightarrow> eval_operand pow (FBin OPow v # fs) ts)"
| "eval_operator pow fs v (TClose # ts) =
     (case reduce pow 1 fs v of (FParen # fs', w) \<Rightarrow> eval_operator pow fs' w ts | _ \<Rightarrow> None)"
| "eval_operator pow fs v _ = None"

definition js_eval :: "(number \<Rightarrow> number \<Rightarrow> number) \<Rightarrow> string \<Rightarrow> js_val option" where
  "js_eval pow s = (case lex True s of None \<Rightarrow> None | Some ts \<Rightarrow> eval_operand pow [] ts)"

end
