(* ===== verification/JsRounding.thy ===== *)
theory JsRounding
  imports JsNumber
begin

text \<open>
  What rounding to binary64 does: it is exact on representable magnitudes, moves any other
  value by at most half a unit in the last place, is monotone, recovers a representable
  magnitude from anything close to it, and every operation of \<open>number\<close> gives a
  representable number.
\<close>


section \<open>Powers of two and the binary exponent\<close>

lemma two_powi_pos [simp]: "0 < (2 :: rat) powi e"
  by simp

lemma two_powi_less_iff [simp]: "(2 :: rat) powi a < 2 powi b \<longleftrightarrow> a < b"
proof -
  have less: "(2 :: rat) powi a < 2 powi b" if "a < b" for a b
    using that by (intro power_int_strict_increasing) auto
  then show ?thesis by (metis linorder_neqE order_less_asym order_less_irrefl)
qed

lemma two_powi_le_iff [simp]: "(2 :: rat) powi a \<le> 2 powi b \<longleftrightarrow> a \<le> b"
  by (simp flip: linorder_not_less)

lemma two_powi_Suc: "(2 :: rat) powi (e + 1) = 2 * 2 powi e"
  by (simp add: power_int_add)

lemma two_powi_of_nat: "0 \<le> e \<Longrightarrow> (2 :: rat) powi e = of_int (2 ^ nat e)"
  by (simp add: power_int_def)

lemma bitlen_quotient_bounds:
  fixes a b :: int
  assumes "0 < a" and "0 < b"
  shows "2 powi (bitlen a - bitlen b - 1) < (of_int a / of_int b :: rat)"
    and "(of_int a / of_int b :: rat) < 2 powi (bitlen a - bitlen b + 1)"
proof -
  let ?A = "bitlen a" and ?B = "bitlen b"
  have pos: "1 \<le> ?A" "1 \<le> ?B"
    using assms bitlen_eq_zero_iff [of a] bitlen_eq_zero_iff [of b] bitlen_nonneg [of a]
      bitlen_nonneg [of b] by linarith+
  have "(of_int (2 ^ nat (?A - 1)) :: rat) \<le> of_int a" "(of_int a :: rat) < of_int (2 ^ nat ?A)"
    using bitlen_bounds [OF assms(1)] by (simp_all only: of_int_le_iff of_int_less_iff)
  then have a: "2 powi (?A - 1) \<le> (of_int a :: rat)" "(of_int a :: rat) < 2 powi ?A"
    using pos by (simp_all add: two_powi_of_nat)
  have "(of_int (2 ^ nat (?B - 1)) :: rat) \<le> of_int b" "(of_int b :: rat) < of_int (2 ^ nat ?B)"
    using bitlen_bounds [OF assms(2)] by (simp_all only: of_int_le_iff of_int_less_iff)
  then have b: "2 powi (?B - 1) \<le> (of_int b :: rat)" "(of_int b :: rat) < 2 powi ?B"
    using pos by (simp_all add: two_powi_of_nat)
  have "2 powi (?A - ?B - 1) * (of_int b :: rat) < 2 powi (?A - ?B - 1) * 2 powi ?B"
    using b by simp
  also have "\<dots> = 2 powi (?A - 1)" by (simp flip: power_int_add)
  finally show "2 powi (?A - ?B - 1) < (of_int a / of_int b :: rat)"
    using a assms by (simp add: pos_less_divide_eq)
  have "(2 :: rat) powi ?A = 2 powi (?A - ?B + 1) * 2 powi (?B - 1)" by (simp flip: power_int_add)
  also have "\<dots> \<le> 2 powi (?A - ?B + 1) * of_int b" using b by simp
  finally show "(of_int a / of_int b :: rat) < 2 powi (?A - ?B + 1)"
    using a assms by (simp add: pos_divide_less_eq)
qed

lemma ilog2_bounds:
  assumes "0 < q"
  shows "2 powi ilog2 q \<le> q" and "q < 2 powi (ilog2 q + 1)"
proof -
  obtain a b where ab: "quotient_of q = (a, b)" by fastforce
  have q: "q = of_int a / of_int b" and "0 < b"
    using ab quotient_of_div quotient_of_denom_pos by blast+
  with assms have "0 < a" by (simp add: zero_less_divide_iff)
  note bounds = bitlen_quotient_bounds [OF \<open>0 < a\<close> \<open>0 < b\<close>, folded q]
  show "2 powi ilog2 q \<le> q" and "q < 2 powi (ilog2 q + 1)"
    using bounds by (auto simp: ilog2_def ab Let_def not_le)
qed

lemma ilog2_unique:
  assumes "2 powi e \<le> q" and "q < 2 powi (e + 1)"
  shows "ilog2 q = e"
proof -
  have "0 < q" using assms(1) by (meson less_le_trans two_powi_pos)
  from ilog2_bounds [OF this] assms have "(2 :: rat) powi e < 2 powi (ilog2 q + 1)"
    and "(2 :: rat) powi ilog2 q < 2 powi (e + 1)" by linarith+
  then show ?thesis by simp
qed

lemma ilog2_le_iff:
  assumes "0 < q"
  shows "e \<le> ilog2 q \<longleftrightarrow> 2 powi e \<le> q"
proof
  assume "e \<le> ilog2 q"
  then have "(2 :: rat) powi e \<le> 2 powi ilog2 q" by simp
  also have "\<dots> \<le> q" using assms by (rule ilog2_bounds)
  finally show "2 powi e \<le> q" .
next
  assume "2 powi e \<le> q"
  also have "q < 2 powi (ilog2 q + 1)" using assms by (rule ilog2_bounds)
  finally show "e \<le> ilog2 q" by simp
qed

lemma ilog2_less_iff: "0 < q \<Longrightarrow> ilog2 q < e \<longleftrightarrow> q < 2 powi e"
  using ilog2_le_iff [of q e] by (simp flip: linorder_not_le)

lemma ilog2_mono: "0 < p \<Longrightarrow> p \<le> q \<Longrightarrow> ilog2 p \<le> ilog2 q"
  using ilog2_le_iff [of q "ilog2 p"] ilog2_bounds(1) [of p] by simp

section \<open>Rounding to an integer\<close>

lemma round_half_even_of_int [simp]: "round_half_even (of_int n) = n"
  by (simp add: round_half_even_def)

lemma round_half_even_error: "\<bar>of_int (round_half_even y) - y\<bar> \<le> 1 / 2"
proof -
  have "of_int \<lfloor>y\<rfloor> \<le> y" "y < of_int \<lfloor>y\<rfloor> + 1" by linarith+
  then show ?thesis by (auto simp: round_half_even_def Let_def abs_le_iff field_simps)
qed

lemma round_half_even_unique:
  assumes "\<bar>y - of_int n\<bar> < 1 / 2"
  shows "round_half_even y = n"
proof -
  have "\<bar>(of_int (round_half_even y) :: rat) - of_int n\<bar> < 1"
    using assms round_half_even_error [of y] by linarith
  then have "\<bar>round_half_even y - n\<bar> < 1"
    by (metis of_int_abs of_int_diff of_int_less_1_iff)
  then show ?thesis by simp
qed

lemma round_half_even_mono: "x \<le> y \<Longrightarrow> round_half_even x \<le> round_half_even y"
proof (rule ccontr)
  assume le: "x \<le> y" and "\<not> round_half_even x \<le> round_half_even y"
  then have "(of_int (round_half_even y) :: rat) + 1 \<le> of_int (round_half_even x)" by linarith
  with le round_half_even_error [of x] round_half_even_error [of y]
  have "x = y" by linarith
  with \<open>\<not> round_half_even x \<le> round_half_even y\<close> show False by simp
qed

lemma round_half_even_nonneg: "0 \<le> y \<Longrightarrow> 0 \<le> round_half_even y"
  using round_half_even_mono [of 0 y] round_half_even_of_int [of 0] by simp

section \<open>Rounding a magnitude\<close>

abbreviation ulp :: "rat \<Rightarrow> rat" where
  "ulp q \<equiv> 2 powi ulp_exp q"

lemma round_mag_0 [simp]: "round_mag 0 = 0"
  by (simp add: round_mag_def)

lemma round_mag_nonneg [simp]: "0 \<le> q \<Longrightarrow> 0 \<le> round_mag q"
  by (simp add: round_mag_def round_half_even_nonneg)

lemma round_mag_eq: "round_mag q = of_int (round_half_even (q / ulp q)) * ulp q"
  using round_half_even_of_int [of 0] by (simp add: round_mag_def)

lemma abs_diff_scale:
  fixes u :: rat
  assumes "0 < u"
  shows "\<bar>a * u - q\<bar> = \<bar>a - q / u\<bar> * u"
proof -
  have "a * u - q = (a - q / u) * u" using assms by (simp add: left_diff_distrib)
  then show ?thesis using assms by (simp only: abs_mult abs_of_pos)
qed

lemma round_mag_error: "\<bar>round_mag q - q\<bar> \<le> ulp q / 2"
proof -
  have "\<bar>round_mag q - q\<bar> = \<bar>of_int (round_half_even (q / ulp q)) - q / ulp q\<bar> * ulp q"
    unfolding round_mag_eq by (rule abs_diff_scale) simp
  also have "\<dots> \<le> 1 / 2 * ulp q"
    by (intro mult_right_mono round_half_even_error) simp
  finally show ?thesis by simp
qed

text \<open>A multiple of the last place that is nearer than half of it is the result.\<close>

lemma round_mag_unique:
  assumes "x = of_int n * ulp q" and "\<bar>q - x\<bar> < ulp q / 2"
  shows "round_mag q = x"
proof -
  have "\<bar>q / ulp q - of_int n\<bar> * ulp q = \<bar>q - x\<bar>"
    unfolding assms(1) using abs_diff_scale [of "ulp q" "of_int n" q] by (simp add: abs_minus_commute)
  also have "\<dots> < 1 / 2 * ulp q" using assms(2) by simp
  finally have "\<bar>q / ulp q - of_int n\<bar> < 1 / 2"
    by (simp only: mult_less_cancel_right) simp
  then have "round_half_even (q / ulp q) = n" by (rule round_half_even_unique)
  then show ?thesis by (simp add: round_mag_eq assms(1))
qed

lemma ulp_exp_ge: "- 1074 \<le> ulp_exp q"
  by (simp add: ulp_exp_def)

lemma of_int_powi_multiple:
  assumes "d \<le> e"
  shows "\<exists>n. (of_int m :: rat) * 2 powi e = of_int n * 2 powi d"
proof -
  have "(2 :: rat) powi e = 2 powi (e - d) * 2 powi d" by (simp flip: power_int_add)
  also have "2 powi (e - d) = (of_int (2 ^ nat (e - d)) :: rat)"
    using assms by (intro two_powi_of_nat) simp
  finally have "(2 :: rat) powi e = of_int (2 ^ nat (e - d)) * 2 powi d" .
  then have "(of_int m :: rat) * 2 powi e = of_int (m * 2 ^ nat (e - d)) * 2 powi d" by simp
  then show ?thesis by blast
qed

text \<open>The last place of a representable magnitude divides it.\<close>

lemma double_mag_multiple:
  assumes "double_mag q" and "0 < q"
  shows "\<exists>n. q = of_int n * ulp q"
proof -
  from assms(1) obtain m e where q: "q = of_int m * 2 powi e"
    and m: "0 \<le> m" "m < 2 ^ 53" and e: "- 1074 \<le> e"
    by (auto simp: double_mag_def)
  have "(of_int m :: rat) < of_int (2 ^ 53)" using m by (simp only: of_int_less_iff)
  then have "q < 2 powi 53 * 2 powi e" by (simp add: q)
  then have "q < 2 powi (53 + e)" by (subst power_int_add) simp_all
  then have "ilog2 q < 53 + e" using assms(2) by (simp add: ilog2_less_iff)
  with e have "ulp_exp q \<le> e" by (simp add: ulp_exp_def)
  then show ?thesis using of_int_powi_multiple [of "ulp_exp q" e m] q by auto
qed

lemma round_mag_exact:
  assumes "double_mag q" and "0 \<le> q"
  shows "round_mag q = q"
proof (cases "q = 0")
  case False
  with assms obtain n where "q = of_int n * ulp q"
    using double_mag_multiple by fastforce
  then show ?thesis by (rule round_mag_unique) simp
qed simp

lemma ulp_le:
  assumes "2 powi - 1022 \<le> q"
  shows "ulp q \<le> q * 2 powi - 52"
proof -
  have "0 < q" using assms two_powi_pos less_le_trans by blast
  then have "- 1022 \<le> ilog2 q" using assms by (simp only: ilog2_le_iff)
  then have "ulp q = 2 powi (ilog2 q + - 52)" by (simp add: ulp_exp_def)
  also have "\<dots> = 2 powi ilog2 q * 2 powi - 52" by (rule power_int_add) simp
  also have "\<dots> \<le> q * 2 powi - 52"
    using \<open>0 < q\<close> by (intro mult_right_mono ilog2_bounds) auto
  finally show ?thesis .
qed

text \<open>In the normal range the relative error is at most \<open>2\<^sup>-\<^sup>5\<^sup>3\<close>.\<close>

lemma round_mag_rel_error:
  assumes "2 powi - 1022 \<le> q"
  shows "\<bar>round_mag q - q\<bar> \<le> q * 2 powi - 53"
proof -
  have "\<bar>round_mag q - q\<bar> \<le> q * 2 powi - 52 / 2"
    using round_mag_error [of q] ulp_le [OF assms] by linarith
  then show ?thesis by simp
qed

lemma multiple_gap:
  fixes u :: rat
  assumes "x = of_int n * u" and "z = of_int p * u" and "0 < u" and "x < z"
  shows "x + u \<le> z"
proof -
  have "n < p" using assms by simp
  then have "(of_int n + 1 :: rat) \<le> of_int p" by linarith
  then have "(of_int n + 1) * u \<le> of_int p * u" using assms(3) by (intro mult_right_mono) auto
  then show ?thesis by (simp add: assms(1,2) distrib_right)
qed

lemma double_mag_ilog2_ge:
  assumes "double_mag x" and "0 < x"
  shows "- 1074 \<le> ilog2 x"
proof -
  obtain n where n: "x = of_int n * ulp x" using double_mag_multiple [OF assms] by blast
  have "0 + ulp x \<le> x" by (rule multiple_gap [of 0 0 _ _ n]) (use n assms in auto)
  moreover have "(2 :: rat) powi - 1074 \<le> ulp x" by (simp add: ulp_exp_ge del: power_int_numeral_neg_numeral)
  ultimately have "2 powi - 1074 \<le> x" by linarith
  then show ?thesis using ilog2_le_iff [OF assms(2)] by blast
qed

lemma powi_ulp_multiple:
  assumes "double_mag x" and "0 < x" and "ilog2 x \<le> k"
  shows "\<exists>p. (2 :: rat) powi k = of_int p * ulp x"
  using of_int_powi_multiple [of "ulp_exp x" k 1] double_mag_ilog2_ge [OF assms(1,2)] assms(3)
  by (simp add: ulp_exp_def)

lemma round_mag_near:
  assumes x: "double_mag x" "0 < x" and close: "\<bar>y - x\<bar> < x * 2 powi - 54" and y: "0 < y"
  shows "round_mag y = x"
proof -
  obtain n where n: "x = of_int n * ulp x" using double_mag_multiple [OF x] by blast
  define k where "k = ilog2 x"
  have xk: "2 powi k \<le> x" "x < 2 powi (k + 1)" using ilog2_bounds [OF x(2)] by (simp_all add: k_def)
  have small: "x * 2 powi - 54 < 2 powi (k - 53)"
  proof -
    have "x * 2 powi - 54 < 2 powi (k + 1) * 2 powi - 54" using xk(2) by (intro mult_strict_right_mono) auto
    also have "\<dots> = 2 powi (k + 1 + - 54)" by (rule power_int_add [symmetric]) simp
    finally show ?thesis by simp
  qed
  have ulp_half: "2 powi (k - 53) \<le> ulp x / 2"
  proof -
    have "2 powi (k - 53) \<le> (2 :: rat) powi (ulp_exp x - 1)" by (simp add: ulp_exp_def k_def)
    also have "\<dots> = ulp x / 2" by (simp add: power_int_diff)
    finally show ?thesis .
  qed
  show ?thesis
  proof (cases "ulp_exp y = ulp_exp x")
    case True
    show ?thesis
      using n close small ulp_half by (intro round_mag_unique [of _ n]) (simp_all add: True)
  next
    case False
    obtain p where p: "2 powi k = of_int p * ulp x"
      using powi_ulp_multiple [OF x] by (auto simp: k_def)
    obtain p' where p': "2 powi (k + 1) = of_int p' * ulp x"
      using powi_ulp_multiple [OF x, of "k + 1"] by (auto simp: k_def)
    have above: "x + ulp x \<le> 2 powi (k + 1)" by (rule multiple_gap [OF n p' _ xk(2)]) simp
    have "ilog2 y < k + 1"
    proof (rule ccontr)
      assume "\<not> ilog2 y < k + 1"
      then have "2 powi (k + 1) \<le> y" using ilog2_le_iff [OF y, of "k + 1"] by linarith
      with above close small ulp_half show False by linarith
    qed
    with False have "ilog2 y < k" by (cases "ilog2 y = k") (auto simp: ulp_exp_def k_def)
    then have "y < 2 powi k" using ilog2_less_iff [OF y] by blast
    have xeq: "x = 2 powi k"
    proof (rule ccontr)
      assume "x \<noteq> 2 powi k"
      with xk(1) have "2 powi k + ulp x \<le> x" by (intro multiple_gap [OF p n]) auto
      with \<open>y < 2 powi k\<close> close small ulp_half show False by linarith
    qed
    have half: "2 powi (k - 1) \<le> y"
    proof -
      have "(2 :: rat) powi (k - 53) \<le> 2 powi (k - 1)" by simp
      moreover have "(2 :: rat) powi k = 2 * 2 powi (k - 1)" by (simp add: power_int_diff)
      ultimately show ?thesis using close small xeq by linarith
    qed
    have iy: "ilog2 y = k - 1" using half \<open>y < 2 powi k\<close> by (intro ilog2_unique) auto
    have "ulp_exp y \<le> ulp_exp x" by (simp add: ulp_exp_def iy k_def)
    then obtain m where m: "x = of_int m * ulp y"
      using of_int_powi_multiple [of "ulp_exp y" "ulp_exp x" n] n by auto
    have "x * 2 powi - 54 = 2 powi (k + - 54)" unfolding xeq by (rule power_int_add [symmetric]) simp
    also have "\<dots> \<le> 2 powi (ulp_exp y - 1)" by (simp add: ulp_exp_def iy)
    also have "\<dots> = ulp y / 2" by (simp add: power_int_diff)
    finally show ?thesis using close by (intro round_mag_unique [OF m]) linarith
  qed
qed

lemma round_mag_idle [simp]: "double_mag q \<Longrightarrow> 0 \<le> q \<Longrightarrow> round_mag q = q"
  by (rule round_mag_exact)

lemma double_mag_nonneg: "double_mag q \<Longrightarrow> 0 \<le> q"
  by (auto simp: double_mag_def)

text \<open>Rounding never crosses a power of two, and is monotone.\<close>

lemma powi_over_ulp:
  assumes "ulp_exp q \<le> k"
  shows "(2 :: rat) powi k / ulp q = of_int (2 ^ nat (k - ulp_exp q))"
  using assms by (simp add: two_powi_of_nat flip: power_int_diff)

lemma round_mag_le_powi:
  assumes "q \<le> 2 powi k" and "ulp_exp q \<le> k"
  shows "round_mag q \<le> 2 powi k"
proof -
  have "round_half_even (q / ulp q) \<le> round_half_even (2 powi k / ulp q)"
    using assms by (intro round_half_even_mono divide_right_mono) auto
  then have "of_int (round_half_even (q / ulp q)) \<le> (2 :: rat) powi k / ulp q"
    using assms(2) by (simp add: powi_over_ulp del: of_int_power)
  then have "of_int (round_half_even (q / ulp q)) * ulp q \<le> 2 powi k / ulp q * ulp q"
    by (intro mult_right_mono) auto
  then show ?thesis by (simp add: round_mag_eq)
qed

lemma round_mag_ge_powi:
  assumes "2 powi k \<le> q" and "ulp_exp q \<le> k"
  shows "2 powi k \<le> round_mag q"
proof -
  have "round_half_even (2 powi k / ulp q) \<le> round_half_even (q / ulp q)"
    using assms by (intro round_half_even_mono divide_right_mono) auto
  then have "(2 :: rat) powi k / ulp q \<le> of_int (round_half_even (q / ulp q))"
    using assms(2) by (simp add: powi_over_ulp del: of_int_power)
  then have "2 powi k / ulp q * ulp q \<le> of_int (round_half_even (q / ulp q)) * ulp q"
    by (intro mult_right_mono) auto
  then show ?thesis by (simp add: round_mag_eq)
qed

lemma round_mag_mono:
  assumes "0 \<le> p" and "p \<le> q"
  shows "round_mag p \<le> round_mag q"
proof (cases "p = 0")
  case True
  then show ?thesis using assms by simp
next
  case False
  with assms have p: "0 < p" and q: "0 < q" by auto
  show ?thesis
  proof (cases "ulp_exp p = ulp_exp q")
    case True
    then show ?thesis
      unfolding round_mag_eq using assms
      by (auto intro!: mult_right_mono round_half_even_mono divide_right_mono)
  next
    case False
    define k where "k = ilog2 q"
    have le: "ilog2 p \<le> k" unfolding k_def using p assms(2) by (rule ilog2_mono)
    with False have lt: "ilog2 p < k" "- 1074 \<le> k - 52" by (auto simp: ulp_exp_def k_def)
    then have "p < 2 powi k" using ilog2_less_iff [OF p] by blast
    moreover have "2 powi k \<le> q" using ilog2_bounds [OF q] by (simp add: k_def)
    ultimately have "round_mag p \<le> 2 powi k" "2 powi k \<le> round_mag q"
      using lt by (auto intro!: round_mag_le_powi round_mag_ge_powi simp: ulp_exp_def k_def)
    then show ?thesis by simp
  qed
qed

text \<open>The result of rounding is representable.\<close>

lemma round_mag_double:
  assumes "0 \<le> q" and "\<not> overflows (round_mag q)"
  shows "double_mag (round_mag q)"
proof (cases "q = 0")
  case True
  then show ?thesis using assms by (auto simp: double_mag_def intro!: exI [of _ 0])
next
  case False
  with assms(1) have q: "0 < q" by simp
  define m where "m = round_half_even (q / ulp q)"
  have "q \<le> 2 powi (ulp_exp q + 53)"
  proof -
    have "q < 2 powi (ilog2 q + 1)" using ilog2_bounds [OF q] by blast
    also have "\<dots> \<le> 2 powi (ulp_exp q + 53)" by (simp add: ulp_exp_def)
    finally show ?thesis by simp
  qed
  then have "round_mag q \<le> 2 powi (ulp_exp q + 53)" by (intro round_mag_le_powi) auto
  also have "\<dots> = 2 powi 53 * ulp q" by (subst power_int_add) simp_all
  finally have "of_int m * ulp q \<le> of_int (2 ^ 53) * ulp q" by (simp add: round_mag_eq m_def)
  then have m53: "m \<le> 2 ^ 53" by (simp only: mult_le_cancel_right of_int_le_iff) simp
  have m0: "0 \<le> m" using assms(1) by (simp add: m_def round_half_even_nonneg)
  have "round_mag q = of_int m * 2 powi ulp_exp q" by (simp add: round_mag_eq m_def)
  moreover have "of_int (2 ^ 53) * (2 :: rat) powi ulp_exp q = of_int (2 ^ 52) * 2 powi (ulp_exp q + 1)"
    by (simp add: power_int_add)
  ultimately obtain m' e' where "round_mag q = of_int m' * 2 powi e'" and "0 \<le> m'" "m' < 2 ^ 53"
    and "- 1074 \<le> e'"
  proof (cases "m = 2 ^ 53")
    case True
    assume *: "round_mag q = of_int m * ulp q"
      "of_int (2 ^ 53) * ulp q = of_int (2 ^ 52) * 2 powi (ulp_exp q + 1)"
    show ?thesis
      by (rule that [of "2 ^ 52" "ulp_exp q + 1"]) (use * True ulp_exp_ge [of q] in auto)
  next
    case False
    assume *: "round_mag q = of_int m * ulp q"
    show ?thesis
      by (rule that [of m "ulp_exp q"]) (use * False m0 m53 ulp_exp_ge [of q] in auto)
  qed
  with assms(2) have "double_mag (round_mag q)" unfolding double_mag_def by blast
  then show ?thesis .
qed

section \<open>Integers\<close>

lemma not_overflows: "q < 2 powi 1024 \<Longrightarrow> \<not> overflows q"
proof (cases "0 < q")
  case True
  assume "q < 2 powi 1024"
  then have "ilog2 q < 1024" by (simp only: ilog2_less_iff [OF True])
  then show ?thesis by (simp add: overflows_def)
next
  case False
  assume "q < 2 powi 1024"
  have "fst (quotient_of q) \<le> 0"
    using False by (cases "quotient_of q")
      (metis quotient_of_div quotient_of_denom_pos fst_conv not_le of_int_0_less_iff zero_less_divide_iff)
  then have "bitlen (fst (quotient_of q)) = 0"
    using bitlen_eq_zero_iff by blast
  moreover have "0 \<le> bitlen (snd (quotient_of q))" by (rule bitlen_nonneg)
  ultimately have "ilog2 q \<le> 0" by (cases "quotient_of q") (simp add: ilog2_def Let_def)
  then show ?thesis by (simp add: overflows_def)
qed

lemma not_overflows_small:
  assumes "q \<le> 2 ^ 100"
  shows "\<not> overflows q"
proof -
  have "(2 :: rat) ^ 100 = 2 powi 100" by simp
  also have "(2 :: rat) powi 100 < 2 powi 1024" by (simp only: two_powi_less_iff)
  finally show ?thesis using assms by (intro not_overflows) linarith
qed

lemma double_magI:
  "q = of_int m * 2 powi e \<Longrightarrow> 0 \<le> m \<Longrightarrow> m < 2 ^ 53 \<Longrightarrow> - 1074 \<le> e \<Longrightarrow> \<not> overflows q
    \<Longrightarrow> double_mag q"
  unfolding double_mag_def by blast

lemma unit_roundoff: "(2 :: rat) powi - 53 = 1 / 9007199254740992"
  by simp

lemma double_mag_int:
  assumes "0 \<le> i" and "i \<le> 2 ^ 53"
  shows "double_mag (of_int i)"
proof -
  have "(of_int i :: rat) \<le> of_int (2 ^ 53)" using assms by (simp only: of_int_le_iff)
  then have small: "\<not> overflows (of_int i)" by (intro not_overflows_small) simp
  show ?thesis
  proof (cases "i = 2 ^ 53")
    case True
    then show ?thesis by (intro double_magI [of _ "2 ^ 52" 1] small) auto
  next
    case False
    with assms show ?thesis by (intro double_magI [of _ i 0] small) auto
  qed
qed

lemma double_mag_0 [simp]: "double_mag 0"
  using double_mag_int [of 0] by simp

lemma double_mag_not_overflows: "double_mag q \<Longrightarrow> \<not> overflows q"
  by (simp add: double_mag_def)

lemma num_of_mag_exact [simp]: "double_mag q \<Longrightarrow> num_of_mag s q = Num s q"
  by (simp add: num_of_mag_def double_mag_nonneg double_mag_not_overflows)

lemma num_of_int_exact:
  "\<bar>i\<bar> \<le> 2 ^ 53 \<Longrightarrow> num_of_int i = Num (i < 0) (of_int \<bar>i\<bar>)"
  by (simp add: num_of_int_def num_of_def double_mag_int flip: of_int_abs)

lemma num_add_int:
  assumes "\<bar>i\<bar> \<le> 2 ^ 53" and "\<bar>j\<bar> \<le> 2 ^ 53" and "\<bar>i + j\<bar> \<le> 2 ^ 53"
  shows "num_add (num_of_int i) (num_of_int j) = num_of_int (i + j)"
proof -
  have vals: "num_val (num_of_int i) = of_int i" "num_val (num_of_int j) = of_int j"
    using assms by (simp_all add: num_of_int_exact)
  have "num_add (num_of_int i) (num_of_int j)
      = (if of_int i + of_int j = (0 :: rat) then Num (i < 0 \<and> j < 0) 0
         else num_of (of_int i + of_int j))"
    using assms(1,2) vals by (simp add: num_of_int_exact Let_def)
  also have "\<dots> = num_of_int (i + j)"
  proof (cases "i + j = 0")
    case True
    then have "(of_int i + of_int j :: rat) = 0" by (metis of_int_add of_int_0)
    with True show ?thesis by (auto simp: num_of_int_def num_of_def)
  next
    case False
    then have "(of_int i + of_int j :: rat) \<noteq> 0" by (metis of_int_add of_int_eq_0_iff)
    then show ?thesis by (simp add: num_of_int_def)
  qed
  finally show ?thesis .
qed

section \<open>Every operation gives a representable number\<close>

lemma is_double_simps [simp]:
  "is_double NaN" "is_double (Infinity s)" "is_double (Num s m) = double_mag m"
  by (simp_all add: is_double_def)

lemma is_double_num_of_mag [simp]: "0 \<le> q \<Longrightarrow> is_double (num_of_mag s q)"
  by (auto simp: num_of_mag_def Let_def round_mag_double)

lemma is_double_num_of [simp]: "is_double (num_of q)"
  by (simp add: num_of_def)

lemma is_double_num_of_int [simp]: "is_double (num_of_int i)"
  by (simp add: num_of_int_def)

lemma is_double_neg [simp]: "is_double (num_neg x) = is_double x"
  by (cases x) auto

lemma is_double_abs [simp]: "is_double (num_abs x) = is_double x"
  by (cases x) auto

lemma is_double_add [simp]: "is_double (num_add x y)"
  by (cases "(x, y)" rule: num_add.cases) (auto simp: Let_def)

lemma is_double_sub [simp]: "is_double (num_sub x y)"
  by (simp add: num_sub_def)

lemma is_double_mul [simp]: "is_double x \<Longrightarrow> is_double y \<Longrightarrow> is_double (num_mul x y)"
  by (cases "(x, y)" rule: num_mul.cases) (auto simp: double_mag_nonneg)

lemma is_double_div [simp]: "is_double x \<Longrightarrow> is_double y \<Longrightarrow> is_double (num_div x y)"
  by (cases "(x, y)" rule: num_div.cases) (auto simp: double_mag_nonneg)

lemma num_add_cancel [simp]: "num_add (Num s m) (num_neg (Num s m)) = zero"
  by simp

lemma num_neg_neg [simp]: "num_neg (num_neg x) = x"
  by (cases x) auto

section \<open>Cents\<close>

text \<open>The amount \<open>n / 100\<close>, as \<^verbatim>\<open>value_num / value_denom\<close> computes it.\<close>

definition cents :: "int \<Rightarrow> number" where
  "cents n = num_div (num_of_int n) (num_of_int 100)"

lemma num_of_int_100: "num_of_int 100 = Num False 100"
  by (subst num_of_int_exact) auto

lemma abs_of_int_le_pow: "\<bar>i :: int\<bar> \<le> 2 ^ k \<Longrightarrow> (of_int \<bar>i\<bar> :: rat) \<le> 2 ^ k"
  by (metis of_int_le_iff of_int_numeral of_int_power)

lemma cents_mag:
  assumes "\<bar>n\<bar> \<le> 2 ^ 50"
  shows "cents n = Num (n < 0) (round_mag (of_int \<bar>n\<bar> / 100))"
    and "\<bar>round_mag (of_int \<bar>n\<bar> / 100) - of_int \<bar>n\<bar> / 100\<bar> \<le> of_int \<bar>n\<bar> / 100 * 2 powi - 53"
proof -
  let ?q = "of_int \<bar>n\<bar> / 100 :: rat"
  show err: "\<bar>round_mag ?q - ?q\<bar> \<le> ?q * 2 powi - 53"
  proof (cases "n = 0")
    case False
    then have "1 / 100 \<le> ?q" by simp
    moreover have "(2 :: rat) powi - 1022 \<le> 2 powi - 10" by (simp only: two_powi_le_iff)
    then have "(2 :: rat) powi - 1022 \<le> 1 / 100" by simp
    ultimately show ?thesis by (intro round_mag_rel_error) linarith
  qed simp
  have "?q \<le> 2 ^ 50" using abs_of_int_le_pow [OF assms] by simp
  then have "round_mag ?q \<le> 2 ^ 100"
    using err [unfolded unit_roundoff] by (simp only: abs_le_iff) simp
  then have "\<not> overflows (round_mag ?q)" by (rule not_overflows_small)
  then show "cents n = Num (n < 0) (round_mag ?q)"
    using assms by (simp add: cents_def num_of_int_exact num_of_int_100 num_of_mag_def)
qed

lemma cents_double: "is_double (cents n)"
  by (simp add: cents_def)

text \<open>\<^verbatim>\<open>Math.round(amount * 100)\<close> gives back the cents.\<close>

lemma round_cents:
  assumes "\<bar>n\<bar> \<le> 2 ^ 50"
  shows "math_round (num_mul (cents n) (num_of_int 100)) = num_of_int n"
proof -
  let ?m = "of_int \<bar>n\<bar> :: rat"
  define r where "r = round_mag (?m / 100)"
  define p where "p = round_mag (r * 100)"
  have m: "0 \<le> ?m" "?m \<le> 2 ^ 50" using abs_of_int_le_pow [OF assms] by simp_all
  have r: "cents n = Num (n < 0) r" "\<bar>r - ?m / 100\<bar> \<le> ?m / 100 * 2 powi - 53"
    using cents_mag [OF assms] by (simp_all add: r_def)
  have p: "\<bar>p - ?m\<bar> < 1 / 2 \<and> (n = 0 \<longrightarrow> p = 0)"
  proof (cases "n = 0")
    case True
    then show ?thesis by (simp add: p_def r_def)
  next
    case False
    then have "1 \<le> ?m" by simp
    have "(2 :: rat) powi - 1022 \<le> 2 powi - 10" by (simp only: two_powi_le_iff)
    moreover have "(2 :: rat) powi - 10 \<le> r * 100" 
      using r(2) [unfolded unit_roundoff] \<open>1 \<le> ?m\<close> by (simp only: abs_le_iff) simp
    ultimately have "\<bar>p - r * 100\<bar> \<le> r * 100 * 2 powi - 53"
      unfolding p_def by (intro round_mag_rel_error) linarith
    with r(2) m False show ?thesis
      unfolding unit_roundoff by (simp only: abs_le_iff abs_less_iff) simp
  qed
  then have "p < ?m + 1 / 2" by (simp only: abs_less_iff) linarith
  with m(2) have "p \<le> 2 ^ 100" by simp
  then have prod: "num_mul (cents n) (num_of_int 100) = Num (n < 0) p"
    using r(1) not_overflows_small by (simp add: num_of_int_100 num_of_mag_def p_def)
  have "\<lfloor>num_val (Num (n < 0) p) + 1 / 2\<rfloor> = n"
  proof (cases "n < 0")
    case True
    with p have "\<bar>p + of_int n\<bar> < 1 / 2" by simp
    then have "of_int n - 1 / 2 < - p" "- p < of_int n + 1 / 2" by linarith+
    with True show ?thesis by (intro floor_unique) auto
  next
    case False
    with p have "\<bar>p - of_int n\<bar> < 1 / 2" by simp
    then have "of_int n - 1 / 2 < p" "p < of_int n + 1 / 2" by linarith+
    with False show ?thesis by (intro floor_unique) auto
  qed
  then have "math_round (Num (n < 0) p) = Num (n < 0) (of_int \<bar>n\<bar>)"
    by (simp del: num_val.simps)
  with prod show ?thesis using assms by (simp add: num_of_int_exact)
qed

end
