(* ===== verification/JsNumText.thy ===== *)
theory JsNumText
  imports JsString JsRounding
begin

text \<open>
  Numbers as text: what \<open>num_to_string\<close> writes, \<open>parse_float\<close> reads back exactly
  (\<open>parse_float_to_string\<close>). The proof shows that seventeen significant digits always
  identify a binary64 magnitude, that the digit search therefore succeeds, and that each of the
  notations of \<open>format_decimal\<close> denotes the same value.
\<close>

section \<open>Digits\<close>

lemma code_char_of [simp]: "0 \<le> n \<Longrightarrow> n < 256 \<Longrightarrow> code (char_of n) = n"
  by (simp add: code_def)

lemma digit_char [simp]:
  assumes "0 \<le> d" and "d < 10"
  shows "is_digit (digit_char d)" and "digit_val (digit_char d) = d"
  using assms by (auto simp: is_digit_def digit_val_def digit_char_def)

lemma digit_val_bounds: "is_digit c \<Longrightarrow> 0 \<le> digit_val c \<and> digit_val c < 10"
  by (auto simp: is_digit_def digit_val_def)

lemma digits_val_snoc: "digits_val (s @ [c]) = 10 * digits_val s + digit_val c"
  by (simp add: digits_val_def)

lemma digits_val_Nil [simp]: "digits_val [] = 0"
  by (simp add: digits_val_def)

lemma digits_val_append: "digits_val (s @ t) = digits_val s * 10 ^ length t + digits_val t"
proof (induction t rule: rev_induct)
  case (snoc c t)
  then show ?case
    using digits_val_snoc [of "s @ t" c] digits_val_snoc [of t c] by simp
qed simp

lemma digits_val_single [simp]: "digits_val [c] = digit_val c"
  using digits_val_snoc [of "[]" c] by simp

lemma digits_val_zeros [simp]: "digits_val (replicate k (CHR ''0'')) = 0"
  by (induction k) (simp_all add: digits_val_def digit_val_def code_def)

lemma digits_val_bounds:
  "list_all is_digit s \<Longrightarrow> 0 \<le> digits_val s \<and> digits_val s < 10 ^ length s"
proof (induction s rule: rev_induct)
  case (snoc c s)
  then show ?case using digit_val_bounds [of c] by (auto simp: digits_val_snoc)
qed simp

lemma dec_digits_induct [consumes 1, case_names small step]:
  assumes "0 \<le> n" and "\<And>n. 0 \<le> n \<Longrightarrow> n < 10 \<Longrightarrow> P n"
    and "\<And>n. 10 \<le> n \<Longrightarrow> P (n div 10) \<Longrightarrow> P n"
  shows "P (n :: int)"
  using assms(1)
proof (induction n rule: dec_digits.induct)
  case (1 n)
  show ?case
  proof (cases "n < 10")
    case True
    with 1 assms(2) show ?thesis by blast
  next
    case False
    with 1 have "P (n div 10)" by simp
    with False assms(3) show ?thesis by simp
  qed
qed

lemma dec_digits_small: "n < 10 \<Longrightarrow> dec_digits n = [digit_char n]"
  by (subst dec_digits.simps) simp

lemma dec_digits_rec: "10 \<le> n \<Longrightarrow> dec_digits n = dec_digits (n div 10) @ [digit_char (n mod 10)]"
  by (subst dec_digits.simps) simp

lemma dec_digits_nonempty [simp]: "dec_digits n \<noteq> []"
  by (subst dec_digits.simps) simp

lemma dec_digits_all: "0 \<le> n \<Longrightarrow> list_all is_digit (dec_digits n)"
  by (induction n rule: dec_digits_induct) (auto simp: dec_digits_small dec_digits_rec)

lemma digits_val_dec_digits [simp]: "0 \<le> n \<Longrightarrow> digits_val (dec_digits n) = n"
  by (induction n rule: dec_digits_induct) (simp_all add: dec_digits_small dec_digits_rec digits_val_snoc)

lemma dec_digits_length:
  assumes "1 \<le> n"
  shows "10 ^ (length (dec_digits n) - 1) \<le> n" and "n < 10 ^ length (dec_digits n)"
proof -
  have "0 \<le> n" using assms by simp
  then have "(1 \<le> n \<longrightarrow> 10 ^ (length (dec_digits n) - 1) \<le> n) \<and> n < 10 ^ length (dec_digits n)"
  proof (induction n rule: dec_digits_induct)
    case (step n)
    let ?l = "length (dec_digits (n div 10))"
    have l: "0 < ?l" by simp
    from step have "10 ^ (?l - 1) \<le> n div 10" "n div 10 < 10 ^ ?l" by auto
    then have "10 * 10 ^ (?l - 1) \<le> n" "n < 10 * 10 ^ ?l" by (linarith, linarith)
    with step(1) l show ?case by (simp add: dec_digits_rec flip: power_Suc)
  qed (auto simp: dec_digits_small)
  with assms show "10 ^ (length (dec_digits n) - 1) \<le> n" and "n < 10 ^ length (dec_digits n)"
    by blast+
qed

text \<open>The decimal text of a positive number has no leading zero.\<close>

lemma dec_digits_hd: "1 \<le> n \<Longrightarrow> hd (dec_digits n) \<noteq> CHR ''0''"
proof -
  assume "1 \<le> n"
  then have "0 \<le> n" by simp
  then have "1 \<le> n \<longrightarrow> digit_val (hd (dec_digits n)) \<noteq> 0"
    by (induction n rule: dec_digits_induct) (auto simp: dec_digits_small dec_digits_rec)
  moreover have "digit_val (CHR ''0'') = 0" by (simp add: digit_val_def code_def)
  ultimately show ?thesis using \<open>1 \<le> n\<close> by metis
qed

lemma length_dec_digits_unique:
  assumes "10 ^ (k - 1) \<le> n" and "n < 10 ^ k" and "1 \<le> k"
  shows "length (dec_digits n) = k"
proof -
  have n1: "1 \<le> n" using assms(1) one_le_power [of "10 :: int" "k - 1"] by linarith
  note b = dec_digits_length [OF n1]
  have "(10 :: int) ^ (length (dec_digits n) - 1) < 10 ^ k" using b(1) assms(2) by linarith
  moreover have "(10 :: int) ^ (k - 1) < 10 ^ length (dec_digits n)" using b(2) assms(1) by linarith
  ultimately show ?thesis using assms(3) by (simp add: power_strict_increasing_iff)
qed

section \<open>Reading back what was written\<close>

lemma take_digits_append:
  assumes "list_all is_digit ds" and "r = [] \<or> \<not> is_digit (hd r)"
  shows "take_digits (ds @ r) = (ds, r)"
proof -
  have "takeWhile is_digit (ds @ r) = ds" "dropWhile is_digit (ds @ r) = r"
    using assms by (cases r; auto simp: list_all_iff takeWhile_append2 dropWhile_append2)+
  then show ?thesis by (simp add: take_digits_def)
qed

lemma digit_consts [simp]:
  "\<not> is_digit (CHR ''.'')" "\<not> is_digit (CHR ''e'')" "\<not> is_digit (CHR ''E'')" "\<not> is_digit (CHR ''-'')"
  "\<not> is_digit (CHR ''+'')" "is_digit (CHR ''0'')" "\<not> is_digit (CHR ''I'')"
  by (simp_all add: is_digit_def code_def)

lemma space_consts [simp]:
  "\<not> is_space (CHR ''.'')" "\<not> is_space (CHR ''-'')" "\<not> is_space (CHR ''+'')" "is_digit c \<Longrightarrow> \<not> is_space c"
  by (auto simp: is_digit_def is_space_def code_def)

lemma digit_neq [simp]:
  "is_digit c \<Longrightarrow> c \<noteq> CHR ''-''" "is_digit c \<Longrightarrow> c \<noteq> CHR ''+''" "is_digit c \<Longrightarrow> c \<noteq> CHR ''I''"
  "is_digit c \<Longrightarrow> c \<noteq> CHR ''.''"
  by auto

lemma scan_int:
  assumes "list_all is_digit ds" and "ds \<noteq> []"
  shows "scan_decimal ds = Some (of_int (digits_val ds), [])"
  using assms take_digits_append [OF assms(1), of "[]"]
  by (simp add: scan_decimal_def)

lemma scan_point:
  assumes "list_all is_digit ds" and "ds \<noteq> []" and "list_all is_digit fs"
  shows "scan_decimal (ds @ ''.'' @ fs)
       = Some (of_int (digits_val (ds @ fs)) * 10 powi - int (length fs), [])"
  using assms take_digits_append [OF assms(1), of "''.'' @ fs"] take_digits_append [OF assms(3), of "[]"]
  by (simp add: scan_decimal_def)

lemma scan_exponent_complete:
  assumes "list_all is_digit es" and "es \<noteq> []" and "c = CHR ''-'' \<or> c = CHR ''+''"
  shows "scan_exponent (''e'' @ [c] @ es)
       = (if c = CHR ''-'' then - digits_val es else digits_val es, [])"
  using assms take_digits_append [OF assms(1), of "[]"] by auto

lemma scan_with_exponent:
  assumes "list_all is_digit ds" and "ds \<noteq> []" and "list_all is_digit fs"
    and "list_all is_digit es" and "es \<noteq> []" and "c = CHR ''-'' \<or> c = CHR ''+''"
    and "mid = (if fs = [] then [] else ''.'' @ fs)"
  shows "scan_decimal (ds @ mid @ ''e'' @ [c] @ es)
       = Some (of_int (digits_val (ds @ fs)) *
               10 powi ((if c = CHR ''-'' then - digits_val es else digits_val es) - int (length fs)), [])"
proof (cases "fs = []")
  case True
  then show ?thesis
    using assms take_digits_append [OF assms(1), of "''e'' @ [c] @ es"]
      scan_exponent_complete [OF assms(4-6)]
    by (simp add: scan_decimal_def del: scan_exponent.simps)
next
  case False
  have nz: "takeWhile is_digit (fs @ ''e'' @ [c] @ es) = fs"
    using take_digits_append [OF assms(3), of "''e'' @ [c] @ es"] by (simp add: take_digits_def)
  show ?thesis
    using False assms take_digits_append [OF assms(1), of "''.'' @ fs @ ''e'' @ [c] @ es"]
      take_digits_append [OF assms(3), of "''e'' @ [c] @ es"] scan_exponent_complete [OF assms(4-6)] nz
    by (simp add: scan_decimal_def del: scan_exponent.simps)
qed

lemma list_all_zeros [simp]: "list_all is_digit (replicate k (CHR ''0''))"
  by (induction k) auto

lemma list_all_take_drop [simp]:
  "list_all P xs \<Longrightarrow> list_all P (take n xs)" "list_all P xs \<Longrightarrow> list_all P (drop n xs)"
  by (auto simp: list_all_iff dest: in_set_takeD in_set_dropD)

lemma digits_val_take_drop: "digits_val (take n ds @ drop n ds) = digits_val ds"
  by simp

text \<open>Whatever notation \<open>format_decimal\<close> picks, reading it gives the value.\<close>

lemma scan_format_decimal:
  assumes ds: "list_all is_digit ds" "ds \<noteq> []"
  shows "scan_decimal (format_decimal ds n)
       = Some (of_int (digits_val ds) * 10 powi (n - int (length ds)), [])"
proof -
  let ?k = "int (length ds)"
  consider (int) "?k \<le> n \<and> n \<le> 21" | (mid) "\<not> (?k \<le> n \<and> n \<le> 21)" "0 < n \<and> n \<le> 21"
    | (small) "\<not> (?k \<le> n \<and> n \<le> 21)" "\<not> (0 < n \<and> n \<le> 21)" "- 6 < n \<and> n \<le> 0"
    | (exp) "\<not> (?k \<le> n \<and> n \<le> 21)" "\<not> (0 < n \<and> n \<le> 21)" "\<not> (- 6 < n \<and> n \<le> 0)"
    by blast
  then show ?thesis
  proof cases
    case int
    then have "(10 :: rat) powi (n - ?k) = of_int (10 ^ nat (n - ?k))" by (simp add: power_int_def)
    with int ds show ?thesis
      by (simp add: format_decimal_def scan_int digits_val_append)
  next
    case mid
    then have "take (nat n) ds \<noteq> []" "int (length (drop (nat n) ds)) = ?k - n" by auto
    moreover have "scan_decimal (take (nat n) ds @ ''.'' @ drop (nat n) ds)
        = Some (of_int (digits_val (take (nat n) ds @ drop (nat n) ds))
                * 10 powi - int (length (drop (nat n) ds)), [])"
      using ds \<open>take (nat n) ds \<noteq> []\<close> by (intro scan_point) auto
    ultimately show ?thesis using mid by (simp add: format_decimal_def)
  next
    case small
    let ?z = "replicate (nat (- n)) (CHR ''0'')"
    have "scan_decimal (''0'' @ ''.'' @ (?z @ ds))
        = Some (of_int (digits_val (''0'' @ ?z @ ds)) * 10 powi - int (length (?z @ ds)), [])"
      using ds by (intro scan_point) auto
    moreover have "digits_val (''0'' @ ?z @ ds) = digits_val ds"
      using digits_val_append [of "''0''" "?z @ ds"] digits_val_append [of ?z ds]
      by (simp add: digit_val_def code_def)
    moreover have "- int (length (?z @ ds)) = n - ?k" using small by simp
    ultimately show ?thesis using small ds by (simp add: format_decimal_def)
  next
    case exp
    let ?c = "if n - 1 < 0 then CHR ''-'' else CHR ''+''" and ?es = "dec_digits \<bar>n - 1\<bar>"
    let ?mid = "if drop 1 ds = [] then [] else ''.'' @ drop 1 ds"
    have k1: "?k = 1 \<longleftrightarrow> drop 1 ds = []" using ds by (cases ds) auto
    have "format_decimal ds n = take 1 ds @ ?mid @ ''e'' @ [?c] @ ?es"
      using exp k1 ds(2) by (cases ds) (auto simp: format_decimal_def Let_def)
    moreover have "scan_decimal (take 1 ds @ ?mid @ ''e'' @ [?c] @ ?es)
        = Some (of_int (digits_val (take 1 ds @ drop 1 ds)) *
            10 powi ((if ?c = CHR ''-'' then - digits_val ?es else digits_val ?es)
                     - int (length (drop 1 ds))), [])"
      using ds by (intro scan_with_exponent) (auto simp: dec_digits_all)
    moreover have "(if ?c = CHR ''-'' then - digits_val ?es else digits_val ?es)
        - int (length (drop 1 ds)) = n - ?k"
      using ds(2) by (cases ds) auto
    ultimately show ?thesis by simp
  qed
qed

section \<open>The digits of a number\<close>

lemma ten_powi_less_iff [simp]: "(10 :: rat) powi a < 10 powi b \<longleftrightarrow> a < b"
proof -
  have less: "(10 :: rat) powi a < 10 powi b" if "a < b" for a b
    using that by (intro power_int_strict_increasing) auto
  then show ?thesis by (metis linorder_neqE order_less_asym order_less_irrefl)
qed

lemma ten_powi_le_iff [simp]: "(10 :: rat) powi a \<le> 10 powi b \<longleftrightarrow> a \<le> b"
  by (simp flip: linorder_not_less)

lemma ten_powi_of_nat: "(10 :: rat) powi int k = of_int (10 ^ k)"
  by simp

lemma ndigits_bounds:
  assumes "1 \<le> n"
  shows "10 powi (ndigits n - 1) \<le> (of_int n :: rat)" and "(of_int n :: rat) < 10 powi ndigits n"
proof -
  have "1 \<le> length (dec_digits n)" by (simp add: Suc_le_eq)
  then have e: "ndigits n - 1 = int (length (dec_digits n) - 1)" by (simp add: ndigits_def)
  show "10 powi (ndigits n - 1) \<le> (of_int n :: rat)"
    unfolding e ten_powi_of_nat of_int_le_iff using assms by (rule dec_digits_length)
  show "(of_int n :: rat) < 10 powi ndigits n"
    unfolding ndigits_def ten_powi_of_nat of_int_less_iff using assms by (rule dec_digits_length)
qed

lemma ilog10_bounds:
  assumes "0 < q"
  shows "10 powi ilog10 q \<le> q" and "q < 10 powi (ilog10 q + 1)"
proof -
  have "10 powi ilog10 q \<le> q \<and> q < 10 powi (ilog10 q + 1)"
  proof (cases "1 \<le> q")
    case True
    define f where "f = \<lfloor>q\<rfloor>"
    have f: "1 \<le> f" "of_int f \<le> q" "q < of_int f + 1" 
      using True by (simp_all add: f_def le_floor_iff del: of_int_less_iff) linarith
    note b = ndigits_bounds [OF f(1)]
    define N where "N = ndigits f"
    have "0 \<le> N" by (simp add: N_def ndigits_def)
    then have p: "(10 :: rat) powi N = of_int (10 ^ nat N)" by (simp add: power_int_def)
    have "f < 10 ^ nat N" using b(2) unfolding N_def [symmetric] p of_int_less_iff .
    then have "(of_int (f + 1) :: rat) \<le> of_int (10 ^ nat N)" unfolding of_int_le_iff by simp
    then have "q < 10 powi N" using f(3) p by simp
    moreover have "10 powi (N - 1) \<le> q" unfolding N_def using b(1) f(2) by (rule order_trans)
    ultimately show ?thesis using True by (simp add: ilog10_def N_def f_def)
  next
    case False
    define c where "c = \<lceil>1 / q\<rceil> - 1"
    have "1 < 1 / q" using False assms by simp
    then have c: "1 \<le> c" "of_int c < 1 / q" "1 / q \<le> of_int (c + 1)"
      using ceiling_correct [of "1 / q"] by (auto simp: c_def) 
    define N where "N = ndigits c"
    have N0: "1 \<le> N" by (simp add: N_def ndigits_def Suc_le_eq)
    then have p: "(10 :: rat) powi N = of_int (10 ^ nat N)" by (simp add: power_int_def)
    note b = ndigits_bounds [OF c(1), folded N_def]
    have "c < 10 ^ nat N" using b(2) unfolding p of_int_less_iff .
    then have "(of_int (c + 1) :: rat) \<le> of_int (10 ^ nat N)" unfolding of_int_le_iff by simp
    then have "1 / q \<le> 10 powi N" using c(3) p by simp
    then have "10 powi - N \<le> q" using assms by (simp add: power_int_minus field_simps)
    moreover have "10 powi (N - 1) < 1 / q" using b(1) c(2) by simp
    then have "q < 1 / 10 powi (N - 1)" using assms by (simp add: field_simps)
    then have "q < 10 powi - (N - 1)" by (simp only: power_int_minus_divide)
    ultimately show ?thesis using False by (simp add: ilog10_def N_def c_def)
  qed
  then show "10 powi ilog10 q \<le> q" and "q < 10 powi (ilog10 q + 1)" by blast+
qed

text \<open>A candidate has the right number of digits and reads back as the number.\<close>

lemma scaled_bounds:
  fixes q :: rat
  assumes "10 powi d \<le> q" and "q < 10 powi (d + 1)" and "1 \<le> k"
  shows "10 ^ nat (k - 1) \<le> \<lfloor>q / 10 powi (d + 1 - k)\<rfloor>"
    and "\<lfloor>q / 10 powi (d + 1 - k)\<rfloor> < 10 ^ nat k"
proof -
  let ?scale = "(10 :: rat) powi (d + 1 - k)"
  have "(10 :: rat) powi d = 10 powi (k - 1) * ?scale" by (simp flip: power_int_add)
  then have "10 powi (k - 1) \<le> q / ?scale" using assms(1) by (simp add: pos_le_divide_eq)
  then show "10 ^ nat (k - 1) \<le> \<lfloor>q / ?scale\<rfloor>"
    using assms(3) by (simp add: le_floor_iff power_int_def)
  have "(10 :: rat) powi (d + 1) = 10 powi k * ?scale" by (simp flip: power_int_add)
  then have "q / ?scale < 10 powi k" using assms(2) by (simp add: pos_divide_less_eq)
  then show "\<lfloor>q / ?scale\<rfloor> < 10 ^ nat k"
    using assms(3) by (simp add: floor_less_iff power_int_def)
qed

lemma candidate_sound:
  assumes "candidate q d k = Some s" and "10 powi d \<le> q" and "q < 10 powi (d + 1)" and "1 \<le> k"
  shows "10 ^ nat (k - 1) \<le> s \<and> s \<le> 10 ^ nat k \<and> round_mag (of_int s * 10 powi (d + 1 - k)) = q"
  using assms(1) scaled_bounds [OF assms(2-4)]
  by (auto simp: candidate_def Let_def split: if_splits)

text \<open>Seventeen digits are always enough.\<close>

lemma candidate_17:
  assumes "double_mag q" and "0 < q" and d: "10 powi d \<le> q"
  shows "candidate q d 17 \<noteq> None"
proof -
  let ?scale = "(10 :: rat) powi (d - 16)" and ?y = "q / 10 powi (d - 16)"
  have close: "round_mag (of_int s * ?scale) = q" if "\<bar>?y - of_int s\<bar> \<le> 1 / 2" "0 < s" for s
  proof (rule round_mag_near [OF assms(1,2)])
    have "\<bar>of_int s * ?scale - q\<bar> = \<bar>of_int s - ?y\<bar> * ?scale" by (rule abs_diff_scale) simp
    also have "\<dots> \<le> 1 / 2 * ?scale"
      using that(1) by (intro mult_right_mono) (auto simp: abs_minus_commute)
    also have "1 / 2 * ?scale = 1 / 2 * (10 powi d * 10 powi - 16)"
      by (subst power_int_add [symmetric]) simp_all
    also have "1 / 2 * (10 powi d * 10 powi - 16) \<le> 1 / 2 * (q * 10 powi - 16)" using d by simp
    also have "\<dots> < q * 2 powi - 54" using assms(2) by simp
    finally show "\<bar>of_int s * ?scale - q\<bar> < q * 2 powi - 54" .
    show "0 < of_int s * ?scale" using that(2) by simp
  qed
  let ?lo = "\<lfloor>?y\<rfloor>"
  have y: "of_int ?lo \<le> ?y" "?y < of_int (?lo + 1)" by linarith+
  have "?scale \<le> 10 powi d" by simp
  then have "?scale \<le> q" using d by (rule order_trans)
  then have "1 \<le> ?y" by (simp add: pos_le_divide_eq)
  then have lo: "0 < ?lo" by (simp add: zero_less_floor)
  show ?thesis
  proof (cases "?y - of_int ?lo \<le> 1 / 2")
    case True
    then have "round_mag (of_int ?lo * ?scale) = q" using y lo by (intro close) auto
    then show ?thesis by (auto simp: candidate_def Let_def)
  next
    case False
    then have "round_mag (of_int (?lo + 1) * ?scale) = q"
      using y lo by (intro close; (simp only: of_int_add of_int_1)?; linarith)
    then show ?thesis by (auto simp: candidate_def Let_def)
  qed
qed

lemma shortest_sound:
  assumes q: "double_mag q" "0 < q" and d: "10 powi d \<le> q" "q < 10 powi (d + 1)"
    and "1 \<le> k" "k \<le> 17" "k + int fuel = 18" "shortest q d k fuel = (s, k')"
  shows "1 \<le> k' \<and> 10 ^ nat (k' - 1) \<le> s \<and> s \<le> 10 ^ nat k'
       \<and> round_mag (of_int s * 10 powi (d + 1 - k')) = q"
  using assms(5-8)
proof (induction fuel arbitrary: k)
  case (Suc fuel)
  show ?case
  proof (cases "candidate q d k")
    case None
    with candidate_17 [OF q d(1)] Suc.prems have "k \<noteq> 17" by auto
    with Suc.prems None show ?thesis by (intro Suc.IH [of "k + 1"]) auto
  next
    case (Some s')
    with Suc.prems have "s = s'" "k' = k" by auto
    with candidate_sound [OF Some d] Suc.prems show ?thesis by simp
  qed
qed simp

lemma decimal_form_sound:
  assumes "double_mag q" and "0 < q" and "decimal_form q = (ds, n)"
  shows "list_all is_digit ds" and "ds \<noteq> []" and "hd ds \<noteq> CHR ''0''"
    and "round_mag (of_int (digits_val ds) * 10 powi (n - int (length ds))) = q"
proof -
  let ?d = "ilog10 q"
  obtain s k where sk: "shortest q ?d 1 17 = (s, k)" by fastforce
  have P: "1 \<le> k" "10 ^ nat (k - 1) \<le> s" "s \<le> 10 ^ nat k"
    and v: "round_mag (of_int s * 10 powi (?d + 1 - k)) = q"
    using shortest_sound [OF assms(1,2) ilog10_bounds [OF assms(2)] _ _ _ sk] by auto
  have s1: "1 \<le> s" using P(2) one_le_power [of "10 :: int" "nat (k - 1)"] by linarith
  have "list_all is_digit ds \<and> ds \<noteq> [] \<and> hd ds \<noteq> CHR ''0''
      \<and> round_mag (of_int (digits_val ds) * 10 powi (n - int (length ds))) = q"
  proof (cases "s = 10 ^ nat k")
    case True
    then have dn: "ds = dec_digits (10 ^ nat (k - 1))" "n = ?d + 2"
      using assms(3) sk by (simp_all add: decimal_form_def)
    have "length ds = nat k"
      unfolding dn(1) using P(1) by (intro length_dec_digits_unique) (auto simp: nat_diff_distrib)
    then have "(of_int (digits_val ds) :: rat) * 10 powi (n - int (length ds))
        = 10 powi (k - 1) * 10 powi (?d + 2 - k)"
      using dn P(1) by (simp add: power_int_def)
    also have "\<dots> = 10 powi (?d + 1)" by (simp flip: power_int_add add: add.commute)
    also have "\<dots> = 10 powi k * 10 powi (?d + 1 - k)" by (simp flip: power_int_add)
    also have "\<dots> = of_int s * 10 powi (?d + 1 - k)" using True P(1) by (simp add: power_int_def)
    finally show ?thesis
      using v dn dec_digits_hd [of "10 ^ nat (k - 1)"] by (simp add: dec_digits_all)
  next
    case False
    then have dn: "ds = dec_digits s" "n = ?d + 1" using assms(3) sk by (simp_all add: decimal_form_def)
    have "length ds = nat k"
      unfolding dn(1) using P False by (intro length_dec_digits_unique) (auto simp: nat_diff_distrib)
    with v dn s1 P(1) dec_digits_hd [OF s1] show ?thesis by (simp add: dec_digits_all)
  qed
  then show "list_all is_digit ds" and "ds \<noteq> []" and "hd ds \<noteq> CHR ''0''"
    and "round_mag (of_int (digits_val ds) * 10 powi (n - int (length ds))) = q" by blast+
qed

section \<open>The round trip\<close>

lemma format_decimal_hd:
  assumes "list_all is_digit ds" and "ds \<noteq> []"
  shows "\<exists>c t. format_decimal ds n = c # t \<and> is_digit c"
  using assms by (cases ds) (auto simp: format_decimal_def Let_def take_Cons')

lemma parse_unsigned_format:
  assumes "list_all is_digit ds" and "ds \<noteq> []"
  shows "parse_unsigned neg (format_decimal ds n)
       = num_of_mag neg (of_int (digits_val ds) * 10 powi (n - int (length ds)))"
proof -
  obtain c t where "format_decimal ds n = c # t" "is_digit c"
    using format_decimal_hd [OF assms] by blast
  then have "\<not> prefix ''Infinity'' (format_decimal ds n)" by auto
  then show ?thesis using scan_format_decimal [OF assms] by (simp add: parse_unsigned_def)
qed

lemma parse_float_signed_format:
  assumes "list_all is_digit ds" and "ds \<noteq> []"
  shows "parse_float ((if neg then ''-'' else '''') @ format_decimal ds n)
       = num_of_mag neg (of_int (digits_val ds) * 10 powi (n - int (length ds)))"
proof -
  obtain c t where ct: "format_decimal ds n = c # t" "is_digit c"
    using format_decimal_hd [OF assms] by blast
  then have "parse_float ((if neg then ''-'' else '''') @ format_decimal ds n)
      = parse_unsigned neg (format_decimal ds n)"
    by (auto simp: parse_float_def)
  then show ?thesis by (simp only: parse_unsigned_format [OF assms])
qed

lemma num_to_string_nonzero:
  assumes "double_mag m" and "0 < m"
  obtains ds n where "num_to_string (Num s m) = (if s then ''-'' else '''') @ format_decimal ds n"
    and "list_all is_digit ds" and "ds \<noteq> []" and "hd ds \<noteq> CHR ''0''" and "decimal_form m = (ds, n)"
    and "round_mag (of_int (digits_val ds) * 10 powi (n - int (length ds))) = m"
proof -
  obtain ds n where "decimal_form m = (ds, n)" by fastforce
  with decimal_form_sound [OF assms this] assms(2) show thesis by (intro that [of ds n]) auto
qed

text \<open>Reading the text of a finite number gives the number back (and \<open>0\<close> for minus zero).\<close>

lemma parse_float_to_string:
  assumes "double_mag m"
  shows "parse_float (num_to_string (Num s m)) = (if m = 0 then zero else Num s m)"
proof (cases "m = 0")
  case True
  then show ?thesis by (simp add: parse_float_def parse_unsigned_def scan_int digit_val_def code_def)
next
  case False
  with double_mag_nonneg [OF assms] have "0 < m" by simp
  from num_to_string_nonzero [OF assms this, of s] obtain ds n
    where "num_to_string (Num s m) = (if s then ''-'' else '''') @ format_decimal ds n"
      "list_all is_digit ds" "ds \<noteq> []"
      and v: "round_mag (of_int (digits_val ds) * 10 powi (n - int (length ds))) = m" .
  then have "parse_float (num_to_string (Num s m))
      = num_of_mag s (of_int (digits_val ds) * 10 powi (n - int (length ds)))"
    using parse_float_signed_format by metis
  also have "\<dots> = Num s m"
    using v double_mag_not_overflows [OF assms] by (simp add: num_of_mag_def)
  finally show ?thesis using False by simp
qed

end
