(* ===== verification/JsDate.thy ===== *)
theory JsDate
  imports JsNumText "HOL-Library.Monad_Syntax"
begin

text \<open>
  Time values of JavaScript dates as integers, in milliseconds of UTC: the proleptic Gregorian
  calendar of the language (\<^verbatim>\<open>MakeDay\<close>, \<^verbatim>\<open>YearFromTime\<close> and the rest), the
  date-time text format with an explicit zone or with no time at all, and
  \<^verbatim>\<open>toISOString\<close>. The offset of the host's time zone is a parameter wherever local
  time is read.
\<close>

section \<open>The calendar\<close>

definition leap_year :: "int \<Rightarrow> bool" where
  "leap_year y \<longleftrightarrow> y mod 4 = 0 \<and> (y mod 100 \<noteq> 0 \<or> y mod 400 = 0)"

definition day_from_year :: "int \<Rightarrow> int" where
  "day_from_year y =
     365 * (y - 1970) + (y - 1969) div 4 - (y - 1901) div 100 + (y - 1601) div 400"

definition month_lengths :: "int \<Rightarrow> int list" where
  "month_lengths y = [31, if leap_year y then 29 else 28, 31, 30, 31, 30, 31, 31, 30, 31, 30, 31]"

text \<open>\<^verbatim>\<open>MakeDay\<close>: months count from 0 and may lie outside the year, days may lie outside the month.\<close>

definition make_day :: "int \<Rightarrow> int \<Rightarrow> int \<Rightarrow> int" where
  "make_day y m d =
     (let ym = y + m div 12
      in day_from_year ym + sum_list (take (nat (m mod 12)) (month_lengths ym)) + d - 1)"

definition year_from_day :: "int \<Rightarrow> int" where
  "year_from_day n =
     (let y = 1970 + 400 * n div 146097
      in if n < day_from_year y then y - 1 else if day_from_year (y + 1) \<le> n then y + 1 else y)"

fun month_day :: "int \<Rightarrow> int list \<Rightarrow> int \<Rightarrow> int \<times> int" where
  "month_day m (l # ls) d = (if d < l then (m, d + 1) else month_day (m + 1) ls (d - l))"
| "month_day m [] d = (m, d + 1)"

text \<open>Year, month from 0, day from 1\<close>

definition civil :: "int \<Rightarrow> int \<times> int \<times> int" where
  "civil n = (let y = year_from_day n; (m, d) = month_day 0 (month_lengths y) (n - day_from_year y) in (y, m, d))"

lemma div_bounds:
  assumes "0 < (k :: int)"
  shows "k * (z div k) \<le> z" "z \<le> k * (z div k) + k - 1"
  using pos_mod_bound [OF assms, of z] pos_mod_sign [OF assms, of z] mult_div_mod_eq [of k z]
  by linarith+

lemma div_plus1:
  assumes "0 < (k :: int)"
  shows "(z + 1) div k = z div k + (if k dvd z + 1 then 1 else 0)"
proof (cases "z mod k + 1 = k")
  case True
  then have "z + 1 = k * (z div k + 1) + 0"
    unfolding distrib_left using mult_div_mod_eq [of k z] by linarith
  then show ?thesis using assms by (metis add.right_neutral dvd_triv_left nonzero_mult_div_cancel_left less_irrefl)
next
  case False
  then have z: "z + 1 = k * (z div k) + (z mod k + 1)" "0 \<le> z mod k + 1" "z mod k + 1 < k"
    using mult_div_mod_eq [of k z] pos_mod_bound [OF assms, of z] pos_mod_sign [OF assms, of z]
    by linarith+
  then have "(z + 1) div k = z div k" and "(z + 1) mod k = z mod k + 1"
    by (metis int_div_pos_eq, metis int_mod_pos_eq)
  with z pos_mod_sign [OF assms, of z] show ?thesis by (auto simp: dvd_eq_mod_eq_0)
qed

lemma div_step:
  "((y :: int) + 1 - 1969) div 4 = (y - 1969) div 4 + (if y mod 4 = 0 then 1 else 0)"
  "(y + 1 - 1901) div 100 = (y - 1901) div 100 + (if y mod 100 = 0 then 1 else 0)"
  "(y + 1 - 1601) div 400 = (y - 1601) div 400 + (if y mod 400 = 0 then 1 else 0)"
proof -
  have "4 dvd y - 1969 + 1 \<longleftrightarrow> y mod 4 = 0" "100 dvd y - 1901 + 1 \<longleftrightarrow> y mod 100 = 0"
    "400 dvd y - 1601 + 1 \<longleftrightarrow> y mod 400 = 0"
    using dvd_diff_left_iff [of 4 1968 y] dvd_diff_left_iff [of 100 1900 y] dvd_diff_left_iff [of 400 1600 y]
    by (simp_all add: mod_eq_0_iff_dvd)
  then show
    "((y :: int) + 1 - 1969) div 4 = (y - 1969) div 4 + (if y mod 4 = 0 then 1 else 0)"
    "(y + 1 - 1901) div 100 = (y - 1901) div 100 + (if y mod 100 = 0 then 1 else 0)"
    "(y + 1 - 1601) div 400 = (y - 1601) div 400 + (if y mod 400 = 0 then 1 else 0)"
    using div_plus1 [of 4 "y - 1969"] div_plus1 [of 100 "y - 1901"] div_plus1 [of 400 "y - 1601"]
    by (simp_all only: diff_add_eq [symmetric])
qed

lemma leap_sum:
  fixes a b c y :: int
  assumes "P400 \<Longrightarrow> P100" and "P100 \<Longrightarrow> P4"
  shows "365 * (y + 1 - 1970) + (a + (if P4 then 1 else 0)) - (b + (if P100 then 1 else 0))
      + (c + (if P400 then 1 else 0))
    = 365 * (y - 1970) + a - b + c + (if P4 \<and> (\<not> P100 \<or> P400) then 366 else 365)"
  using assms by auto

lemma day_from_year_step:
  "day_from_year (y + 1) = day_from_year y + (if leap_year y then 366 else 365)"
proof -
  have "y mod 400 = 0 \<Longrightarrow> y mod 100 = 0" and "y mod 100 = 0 \<Longrightarrow> y mod 4 = 0"
    using dvd_trans [of 100 400 y] dvd_trans [of 4 100 y] by (simp_all add: mod_eq_0_iff_dvd)
  then show ?thesis
    unfolding day_from_year_def leap_year_def div_step by (rule leap_sum)
qed

lemma month_lengths_sum: "sum_list (month_lengths y) = (if leap_year y then 366 else 365)"
  by (simp add: month_lengths_def)

lemma day_from_year_bounds:
  "146097 * (y - 1970) - 591 \<le> 400 * day_from_year y"
  "400 * day_from_year y \<le> 146097 * (y - 1970) + 589"
  using div_bounds [of 4 "y - 1969"] div_bounds [of 100 "y - 1901"] div_bounds [of 400 "y - 1601"]
  unfolding day_from_year_def by simp_all

lemma year_from_day:
  "day_from_year (year_from_day n) \<le> n" "n < day_from_year (year_from_day n + 1)"
proof -
  define y where "y = 1970 + 400 * n div 146097"
  have y: "146097 * (y - 1970) \<le> 400 * n" "400 * n < 146097 * (y - 1970) + 146097"
    unfolding y_def using div_bounds [of 146097 "400 * n"] by (simp_all add: algebra_simps)
  have "day_from_year (y - 1) \<le> n" "n < day_from_year (y + 2)"
    using y day_from_year_bounds [of "y - 1"] day_from_year_bounds [of "y + 2"]
    by (simp_all add: algebra_simps)
  then show "day_from_year (year_from_day n) \<le> n" "n < day_from_year (year_from_day n + 1)"
    unfolding year_from_day_def y_def [symmetric] by (auto simp: Let_def add.commute)
qed

lemma month_day_sum:
  assumes "month_day m ls d = (m', d')" "0 \<le> d" "d < sum_list ls"
  shows "m \<le> m' \<and> m' < m + int (length ls) \<and> 1 \<le> d' \<and> d' \<le> ls ! nat (m' - m)
    \<and> sum_list (take (nat (m' - m)) ls) + d' - 1 = d"
  using assms
proof (induction m ls d rule: month_day.induct)
  case (1 m l ls d)
  show ?case
  proof (cases "d < l")
    case False
    with 1 have *: "m + 1 \<le> m' \<and> m' < m + 1 + int (length ls) \<and> 1 \<le> d'
      \<and> d' \<le> ls ! nat (m' - (m + 1)) \<and> sum_list (take (nat (m' - (m + 1))) ls) + d' - 1 = d - l"
      by simp
    moreover from * have "nat (m' - m) = Suc (nat (m' - (m + 1)))" by linarith
    ultimately show ?thesis by simp
  qed (use 1 in auto)
qed simp

text \<open>The calendar fields of a day lead back to it.\<close>

lemma make_day_civil:
  assumes "civil n = (y, m, d)"
  shows "make_day y m d = n" and "0 \<le> m \<and> m < 12" and "1 \<le> d \<and> d \<le> month_lengths y ! nat m"
proof -
  from assms have y: "y = year_from_day n"
    and md: "month_day 0 (month_lengths y) (n - day_from_year y) = (m, d)"
    by (auto simp: civil_def Let_def split: prod.splits)
  have "0 \<le> n - day_from_year y" "n - day_from_year y < sum_list (month_lengths y)"
    using year_from_day [of n] day_from_year_step [of y] unfolding y month_lengths_sum by auto
  from month_day_sum [OF md this]
  have *: "0 \<le> m \<and> m < 12 \<and> 1 \<le> d \<and> d \<le> month_lengths y ! nat m
      \<and> sum_list (take (nat m) (month_lengths y)) + d - 1 = n - day_from_year y"
    by (simp add: month_lengths_def)
  then show "0 \<le> m \<and> m < 12" and "1 \<le> d \<and> d \<le> month_lengths y ! nat m" by auto
  with * show "make_day y m d = n" by (simp add: make_day_def)
qed

section \<open>Texts of dates\<close>

definition ms_per_day :: int where
  "ms_per_day = 86400000"

text \<open>A number of exactly \<open>k\<close> digits\<close>

definition fixed_int :: "nat \<Rightarrow> string \<Rightarrow> (int \<times> string) option" where
  "fixed_int k s =
     (if k \<le> length s \<and> list_all is_digit (take k s) then Some (digits_val (take k s), drop k s) else None)"

fun expect :: "char \<Rightarrow> string \<Rightarrow> string option" where
  "expect c (x # s) = (if x = c then Some s else None)"
| "expect c [] = None"

definition scan_date :: "string \<Rightarrow> (int \<times> string) option" where
  "scan_date s = do {
     (y, s) \<leftarrow> fixed_int 4 s; s \<leftarrow> expect (CHR ''-'') s;
     (m, s) \<leftarrow> fixed_int 2 s; s \<leftarrow> expect (CHR ''-'') s;
     (d, s) \<leftarrow> fixed_int 2 s;
     (if 1 \<le> m \<and> m \<le> 12 \<and> 1 \<le> d \<and> d \<le> month_lengths y ! nat (m - 1)
      then Some (make_day y (m - 1) d, s) else None) }"

text \<open>Digits of a second after the third are dropped.\<close>

definition scan_fraction :: "string \<Rightarrow> (int \<times> string) option" where
  "scan_fraction s =
     (case s of c # r \<Rightarrow>
        (if c = CHR ''.'' then
           (let (ds, r') = take_digits r
            in if ds = [] then None else Some (digits_val (take 3 (ds @ ''00'')), r'))
         else Some (0, s))
      | [] \<Rightarrow> Some (0, []))"

definition scan_zone :: "string \<Rightarrow> int option" where
  "scan_zone s =
     (if s = ''Z'' then Some 0
      else case s of [] \<Rightarrow> None
      | c # r \<Rightarrow> if c \<noteq> CHR ''+'' \<and> c \<noteq> CHR ''-'' then None
        else do {
          (h, r) \<leftarrow> fixed_int 2 r; r \<leftarrow> expect (CHR '':'') r; (mi, r) \<leftarrow> fixed_int 2 r;
          (if h < 24 \<and> mi < 60 \<and> r = []
           then Some ((if c = CHR ''-'' then -1 else 1) * (60 * h + mi) * 60000) else None) })"

text \<open>
  \<^verbatim>\<open>new Date(s).getTime()\<close> for the formats \<^verbatim>\<open>YYYY-MM-DD\<close> and
  \<^verbatim>\<open>YYYY-MM-DDTHH:mm:ss\<close> with optional fraction and a zone, which are those of
  the server and of the code's own literals; \<open>None\<close> is an invalid date. Other formats are
  read in local time or as the implementation pleases, and count as invalid here.
\<close>

definition date_parse :: "string \<Rightarrow> int option" where
  "date_parse s = do {
     (day, s) \<leftarrow> scan_date s;
     (if s = [] then Some (day * ms_per_day)
      else do {
        s \<leftarrow> expect (CHR ''T'') s;
        (h, s) \<leftarrow> fixed_int 2 s; s \<leftarrow> expect (CHR '':'') s;
        (mi, s) \<leftarrow> fixed_int 2 s; s \<leftarrow> expect (CHR '':'') s;
        (sec, s) \<leftarrow> fixed_int 2 s; (ms, s) \<leftarrow> scan_fraction s; off \<leftarrow> scan_zone s;
        (if (h < 24 \<and> mi < 60 \<and> sec < 60) \<or> (h = 24 \<and> mi = 0 \<and> sec = 0 \<and> ms = 0)
         then Some (day * ms_per_day + ((h * 60 + mi) * 60 + sec) * 1000 + ms - off) else None) }) }"

definition pad2 :: "int \<Rightarrow> string" where
  "pad2 n = pad_start 2 (CHR ''0'') (dec_digits n)"

definition year_text :: "int \<Rightarrow> string" where
  "year_text y =
     (if 0 \<le> y \<and> y \<le> 9999 then pad_start 4 (CHR ''0'') (dec_digits y)
      else (if y < 0 then ''-'' else ''+'') @ pad_start 6 (CHR ''0'') (dec_digits \<bar>y\<bar>))"

definition date_text :: "int \<Rightarrow> string" where
  "date_text n = (case civil n of (y, m, d) \<Rightarrow> year_text y @ ''-'' @ pad2 (m + 1) @ ''-'' @ pad2 d)"

definition toISOString :: "int \<Rightarrow> string" where
  "toISOString ms =
     (let r = ms mod ms_per_day
      in date_text (ms div ms_per_day) @ ''T'' @ pad2 (r div 3600000) @ '':''
         @ pad2 (r div 60000 mod 60) @ '':'' @ pad2 (r div 1000 mod 60) @ ''.''
         @ pad_start 3 (CHR ''0'') (dec_digits (r mod 1000)) @ ''Z'')"

end
