(* ===== verification/I18n.thy ===== *)
theory I18n
  imports JsString
begin

text \<open>
  The translation module (\<^verbatim>\<open>i18n.ts\<close>): the two message tables, the current language with
  its saved copy, message lookup with its fall-backs, and the zero clamp of currency output. A
  message is the list of bytes of its UTF-8 encoding; the components only print messages and
  replace their ASCII placeholders. \<^verbatim>\<open>Intl.NumberFormat\<close> belongs to the host and is the
  parameter \<open>number_format\<close>.
\<close>

section \<open>The tables\<close>

definition en_screens :: "(string \<times> string) list" where
  "en_screens = [
    (''nav.main'', ''Main''),
    (''nav.dashboard'', ''Dashboard''),
    (''nav.accounts'', ''Chart of Accounts''),
    (''nav.transactions'', ''Transactions''),
    (''nav.settings'', ''Settings''),
    (''nav.currencies'', ''Currencies''),
    (''nav.data'', ''Data Management''),
    (''data.exportSuccess'', ''Export successful!''),
    (''data.exportError'', ''Export failed''),
    (''data.importSuccess'', ''Import successful!''),
    (''data.importError'', ''Import failed''),
    (''data.exportTitle'', ''Export Data''),
    (''data.exportDesc'', ''Download your accounts and transactions as a JSON file.''),
    (''data.exportBtn'', ''Export to JSON''),
    (''data.importTitle'', ''Import Data''),
    (''data.importDesc'', ''Import accounts and transactions from a JSON file. This will REPLACE your current book data.''),
    (''data.importBtn'', ''Import from JSON''),
    (''data.importCsvTitle'', ''Import Transactions (CSV)''),
    (''data.importCsvDesc'', ''Import transactions into a specific account. Format: Date, Description, Amount''),
    (''data.importCsvBtn'', ''Import CSV''),
    (''data.selectTargetAccount'', ''-- Select Target Account --''),
    (''data.importCsvSuccess'', ''Successfully imported {{count}} transactions!''),
    (''data.importGnucashTitle'', ''Import Data (GnuCash)''),
    (''data.importGnucashDesc'', ''Import accounts and transactions from a .gnucash file. This will REPLACE your current book data.''),
    (''data.importGnucashBtn'', ''Import from GnuCash''),
    (''data.importGnucashSuccess'', ''GnuCash import successful!''),
    (''dashboard.title'', ''Dashboard''),
    (''dashboard.subtitle'', ''Financial overview''),
    (''dashboard.assets'', ''Assets''),
    (''dashboard.liabilities'', ''Liabilities''),
    (''dashboard.income'', ''Income''),
    (''dashboard.expenses'', ''Expenses''),
    (''dashboard.netWorth'', ''Net Worth''),
    (''dashboard.netWorthDesc'', ''Assets '' @ [CHR 0xE2, CHR 0x88, CHR 0x92] @ '' Liabilities''),
    (''dashboard.total'', ''Total''),
    (''dashboard.reconciled'', ''Reconciled''),
    (''dashboard.balanceOverview'', ''Balance Overview''),
    (''dashboard.cashFlow'', ''Cash Flow''),
    (''dashboard.moneyIn'', ''Money In''),
    (''dashboard.moneyOut'', ''Money Out''),
    (''dashboard.expenseBreakdown'', ''Expense Breakdown''),
    (''dashboard.topAccounts'', ''Top Accounts''),
    (''dashboard.noData'', ''No data yet''),
    (''dashboard.allTime'', ''All Time''),
    (''dashboard.thisMonth'', ''This Month''),
    (''dashboard.lastMonth'', ''Last Month''),
    (''dashboard.thisYear'', ''This Year''),
    (''dashboard.lastYear'', ''Last Year''),
    (''accounts.title'', ''Chart of Accounts''),
    (''accounts.subtitle'', ''Hierarchical account structure''),
    (''accounts.noAccounts'', ''No accounts found''),
    (''accounts.notFound'', ''Account not found''),
    (''accounts.newAccount'', ''+ New Account''),
    (''accounts.editAccount'', ''Edit Account''),
    (''accounts.deleteAccount'', ''Delete Account''),
    (''accounts.confirmDelete'', ''Delete this account? This cannot be undone.''),
    (''accounts.name'', ''Account Name''),
    (''accounts.description'', ''Description''),
    (''accounts.parentAccount'', ''Parent Account''),
    (''accounts.topLevel'', ''(Top level)''),
    (''accounts.accountType'', ''Account Type''),
    (''accounts.placeholder'', ''Placeholder (folder only, no transactions)''),
    (''accounts.save'', ''Save''),
    (''accounts.create'', ''Create Account''),
    (''accounts.cancel'', ''Cancel''),
    (''accounts.nameRequired'', ''Account name is required''),
    (''accounts.lastReconciled'', ''Last Reconciled''),
    (''accounts.reconciledBalance'', ''Reconciled''),
    (''accounts.reconcile'', ''Reconcile''),
    (''accounts.confirmReconcile'', ''Reconcile all transactions in this account?''),
    (''accounts.confirmReconcileChildren'', ''Reconcile all transactions in this account and its child accounts?''),
    (''register.date'', ''Date''),
    (''register.today'', ''Today''),
    (''register.num'', ''#''),
    (''register.description'', ''Description''),
    (''register.transfer'', ''Transfer''),
    (''register.deposit'', ''Deposit''),
    (''register.withdrawal'', ''Withdrawal''),
    (''register.decrease'', ''Decrease''),
    (''register.increase'', ''Increase''),
    (''register.balance'', ''Balance''),
    (''register.memo'', ''Memo''),
    (''register.noEntries'', ''No transactions recorded in''),
    (''register.reconcile'', ''R''),
    (''register.reconcile.tooltip.n'', ''Not reconciled '' @ [CHR 0xE2, CHR 0x80, CHR 0x94] @ '' click to acknowledge''),
    (''register.reconcile.tooltip.c'', ''Acknowledged '' @ [CHR 0xE2, CHR 0x80, CHR 0x94] @ '' click to clear''),
    (''register.reconcile.tooltip.y'', ''Reconciled '' @ [CHR 0xE2, CHR 0x80, CHR 0x94] @ '' click to un-reconcile''),
    (''register.jump'', ''Jump to account''),
    (''register.loadOlder'', ''Load older transactions''),
    (''register.loadNewer'', ''Load newer transactions''),
    (''register.searchPlaceholder'', ''Search transactions'' @ [CHR 0xE2, CHR 0x80, CHR 0xA6]),
    (''register.searchClear'', ''Clear search''),
    (''register.searchResults'', ''{{count}} of {{total}} transactions match''),
    (''register.searchNoMatch'', ''No transactions match''),
    (''register.searchError'', ''Could not load transactions for search. Please try again.''),
    (''reconcile.title'', ''Reconcile''),
    (''reconcile.infoDesc'', ''Enter the statement date and ending balance from your bank statement.''),
    (''reconcile.statementDate'', ''Statement Date''),
    (''reconcile.startingBalance'', ''Starting Balance''),
    (''reconcile.endingBalance'', ''Ending Balance''),
    (''reconcile.endingRequired'', ''Ending balance is required''),
    (''reconcile.start'', ''Start Reconciling''),
    (''reconcile.fundsIn'', ''Funds In''),
    (''reconcile.fundsOut'', ''Funds Out''),
    (''reconcile.amount'', ''Amount''),
    (''reconcile.total'', ''Total''),
    (''reconcile.reconciledBalance'', ''Reconciled Balance''),
    (''reconcile.difference'', ''Difference''),
    (''reconcile.finish'', ''Finish''),
    (''reconcile.selectAll'', ''Select All''),
    (''reconcile.deselectAll'', ''Deselect All''),
    (''reconcile.button'', ''Reconcile''),
    (''transactions.title'', ''Transactions''),
    (''transactions.subtitle'', ''All book transactions''),
    (''transactions.noTransactions'', ''No transactions found''),
    (''transactions.delete'', ''Delete''),
    (''transactions.confirmDelete'', ''Delete this transaction?'')]"

definition en_dialogs :: "(string \<times> string) list" where
  "en_dialogs = [
    (''commodities.title'', ''Currencies & Commodities''),
    (''commodities.subtitle'', ''All registered currencies''),
    (''commodities.noCommodities'', ''No currencies found''),
    (''commodities.namespace'', ''Type''),
    (''commodities.mnemonic'', ''Symbol''),
    (''commodities.fullname'', ''Name''),
    (''commodities.fraction'', ''Fraction''),
    (''commodities.newCurrency'', ''New Currency''),
    (''commodities.fullnamePlaceholder'', ''e.g. US Dollar, Bitcoin''),
    (''commodities.fractionInvalid'', ''Fraction must be a positive number''),
    (''commodities.mnemonicRequired'', ''Symbol (mnemonic) is required''),
    (''commodities.createError'', ''Failed to create currency (may already exist)''),
    (''commodities.confirmDelete'', ''Delete this currency forever? (Only works if no accounts use it)''),
    (''form.newTransaction'', ''New Transaction''),
    (''form.editTransaction'', ''Edit Transaction''),
    (''form.duplicateTransaction'', ''Duplicate Transaction''),
    (''form.date'', ''Date''),
    (''form.description'', ''Description''),
    (''form.descriptionPlaceholder'', ''e.g. Groceries''),
    (''form.splits'', ''Splits''),
    (''form.splitsHelp'', ''Every transaction needs at least two splits: where money comes from (negative) and where it goes (positive). The total must balance to zero.''),
    (''form.selectAccount'', ''Select account...''),
    (''form.value'', ''Value''),
    (''form.memo'', ''Memo''),
    (''form.addSplit'', ''+ Add split''),
    (''form.removeSplit'', ''Remove split''),
    (''form.balance'', ''Balance''),
    (''form.balanced'', [CHR 0xE2, CHR 0x9C, CHR 0x93] @ '' Balanced''),
    (''form.unbalanced'', [CHR 0xE2, CHR 0x9A, CHR 0xA0] @ '' Unbalanced''),
    (''form.invalidAmount'', ''Invalid amount in one or more splits''),
    (''form.selectAccountError'', ''Select an account for each split''),
    (''form.noCurrency'', ''No currency found''),
    (''form.creating'', ''Creating...''),
    (''form.create'', ''Create Transaction''),
    (''form.cancel'', ''Cancel''),
    (''form.save'', ''Save''),
    (''form.common.save'', ''Save''),
    (''form.createError'', ''Error creating transaction''),
    (''common.loading'', ''Loading...''),
    (''common.save'', ''Save''),
    (''common.saving'', ''Saving...''),
    (''common.newTransaction'', ''+ New Transaction''),
    (''common.duplicate'', ''Duplicate''),
    (''common.actions'', ''Actions''),
    (''type.ROOT'', ''Root''),
    (''type.ASSET'', ''Asset''),
    (''type.BANK'', ''Bank''),
    (''type.CASH'', ''Cash''),
    (''type.LIABILITY'', ''Liability''),
    (''type.CREDIT'', ''Credit Card''),
    (''type.INCOME'', ''Income''),
    (''type.EXPENSE'', ''Expense''),
    (''type.EQUITY'', ''Equity''),
    (''nav.snapshots'', ''Snapshots''),
    (''snapshots.title'', ''Snapshots''),
    (''snapshots.subtitle'', ''Automatic and manual backups of your book data.''),
    (''snapshots.scheduleTitle'', ''Snapshot Schedule''),
    (''snapshots.scheduleDesc'', ''Configure automatic snapshots. Set frequency to 0 to disable.''),
    (''snapshots.frequency'', ''Frequency (hours, 0 = disabled)''),
    (''snapshots.ttl'', ''Keep for (hours, 0 = forever)''),
    (''snapshots.activeMode'', ''Active snapshots '' @ [CHR 0xE2, CHR 0x80, CHR 0x94] @ '' take a snapshot every 5 minutes while you are editing''),
    (''snapshots.saveConfig'', ''Save Schedule''),
    (''snapshots.configSaved'', ''Schedule saved.''),
    (''snapshots.configError'', ''Failed to save schedule.''),
    (''snapshots.manualTitle'', ''Manual Snapshot''),
    (''snapshots.manualDesc'', ''Capture the current state of your book right now.''),
    (''snapshots.label'', ''Label (optional)''),
    (''snapshots.labelPlaceholder'', ''e.g. Before year-end adjustments''),
    (''snapshots.takeNow'', ''Take Snapshot Now''),
    (''snapshots.taking'', ''Taking...''),
    (''snapshots.snapshotTaken'', ''Snapshot taken.''),
    (''snapshots.snapshotError'', ''Failed to take snapshot.''),
    (''snapshots.listTitle'', ''Saved Snapshots''),
    (''snapshots.noSnapshots'', ''No snapshots yet.''),
    (''snapshots.colDate'', ''Date''),
    (''snapshots.colLabel'', ''Label''),
    (''snapshots.colSource'', ''Source''),
    (''snapshots.colActions'', ''Actions''),
    (''snapshots.restore'', ''Restore''),
    (''snapshots.restoreConfirm'', ''Restore this snapshot? This will REPLACE all current data. This cannot be undone.''),
    (''snapshots.restoring'', ''Restoring...''),
    (''snapshots.restoreSuccess'', ''Restore successful! Reloading...''),
    (''snapshots.restoreError'', ''Restore failed.''),
    (''snapshots.delete'', ''Delete''),
    (''snapshots.deleteConfirm'', ''Delete this snapshot? This cannot be undone.''),
    (''snapshots.deleteSuccess'', ''Snapshot deleted.''),
    (''snapshots.deleteError'', ''Failed to delete snapshot.''),
    (''snapshots.triggerManual'', ''Manual''),
    (''snapshots.triggerScheduled'', ''Scheduled''),
    (''snapshots.triggerActive'', ''Active''),
    (''shortcuts.title'', ''Keyboard Shortcuts''),
    (''shortcuts.newTx'', ''New transaction''),
    (''shortcuts.close'', ''Close dialog''),
    (''shortcuts.goHome'', ''Go to Dashboard''),
    (''shortcuts.goAccounts'', ''Go to Accounts''),
    (''shortcuts.goTransactions'', ''Go to Transactions''),
    (''shortcuts.showHelp'', ''Show shortcuts''),
    (''plaid.connectBank'', ''Connect Bank''),
    (''plaid.connecting'', ''Connecting'' @ [CHR 0xE2, CHR 0x80, CHR 0xA6]),
    (''plaid.connected'', ''Connected''),
    (''plaid.disconnect'', ''Disconnect''),
    (''plaid.disconnectConfirm'', ''Disconnect bank? Imported transactions will be kept.''),
    (''plaid.syncNow'', ''Sync now''),
    (''plaid.syncing'', ''Syncing {{institution}}'' @ [CHR 0xE2, CHR 0x80, CHR 0xA6]),
    (''plaid.syncSuccess'', ''{{count}} transaction(s) ready to import.''),
    (''plaid.bank'', ''Bank''),
    (''plaid.genericError'', ''Something went wrong '' @ [CHR 0xE2, CHR 0x80, CHR 0x94] @ '' please try again.''),
    (''plaid.syncNone'', ''No new transactions.''),
    (''plaid.syncError'', ''Couldn'' @ [CHR 0x27] @ ''t sync {{institution}} '' @ [CHR 0xE2, CHR 0x80, CHR 0x94] @ '' please try again.''),
    (''plaid.mapAccounts'', ''Map bank accounts''),
    (''plaid.importPending'', ''Import pending transactions''),
    (''plaid.noMapping'', ''Skip''),
    (''plaid.confirmImport'', ''Import {{count}} transaction(s)''),
    (''plaid.categoryRequired'', ''Choose a category''),
    (''plaid.importSuccess'', ''{{count}} transaction(s) imported.''),
    (''plaid.importError'', ''Import failed '' @ [CHR 0xE2, CHR 0x80, CHR 0x94] @ '' please try again.''),
    (''plaid.importPartial'', ''{{imported}} imported, {{failed}} failed '' @ [CHR 0xE2, CHR 0x80, CHR 0x94] @ '' review and retry.''),
    (''plaid.importTitle'', ''Import transactions''),
    (''plaid.syncMore'', ''More transactions available '' @ [CHR 0xE2, CHR 0x80, CHR 0x94] @ '' sync again.''),
    (''plaid.dismiss'', ''Dismiss''),
    (''plaid.dismissHint'', ''Never import this transaction''),
    (''plaid.dismissError'', ''Couldn'' @ [CHR 0x27] @ ''t dismiss '' @ [CHR 0xE2, CHR 0x80, CHR 0x94] @ '' please try again.''),
    (''plaid.syncInProgress'', ''Another sync is in progress '' @ [CHR 0xE2, CHR 0x80, CHR 0x94] @ '' results may be incomplete.''),
    (''plaid.importInterrupted'', ''{{imported}} imported '' @ [CHR 0xE2, CHR 0x80, CHR 0x94] @ '' interrupted; sync and retry for the rest.''),
    (''plaid.importing'', ''Importing'' @ [CHR 0xE2, CHR 0x80, CHR 0xA6]),
    (''plaid.save'', ''Save mappings''),
    (''plaid.connectedBanks'', ''Connected banks''),
    (''plaid.lastSynced'', ''Last synced: {{date}}''),
    (''plaid.neverSynced'', ''Never synced''),
    (''plaid.disconnected'', ''Bank disconnected.''),
    (''plaid.reconnectNeeded'', ''Bank connection needs re-authorization. Please disconnect and reconnect.''),
    (''plaid.cancel'', ''Cancel''),
    (''plaid.colDate'', ''Date''),
    (''plaid.colDescription'', ''Description''),
    (''plaid.colAmount'', ''Amount''),
    (''plaid.colBankAccount'', ''Bank Account''),
    (''plaid.colCategory'', ''Category''),
    (''plaid.colInclude'', ''Include'')]"

definition pt_screens :: "(string \<times> string) list" where
  "pt_screens = [
    (''nav.main'', ''Principal''),
    (''nav.dashboard'', ''Dashboard''),
    (''nav.accounts'', ''Plano de Contas''),
    (''nav.transactions'', ''Transa'' @ [CHR 0xC3, CHR 0xA7, CHR 0xC3, CHR 0xB5] @ ''es''),
    (''nav.settings'', ''Configura'' @ [CHR 0xC3, CHR 0xA7, CHR 0xC3, CHR 0xB5] @ ''es''),
    (''nav.currencies'', ''Moedas''),
    (''nav.data'', ''Gerenciamento de Dados''),
    (''data.exportSuccess'', ''Exporta'' @ [CHR 0xC3, CHR 0xA7, CHR 0xC3, CHR 0xA3] @ ''o conclu'' @ [CHR 0xC3, CHR 0xAD] @ ''da!''),
    (''data.exportError'', ''Falha na exporta'' @ [CHR 0xC3, CHR 0xA7, CHR 0xC3, CHR 0xA3] @ ''o''),
    (''data.importSuccess'', ''Importa'' @ [CHR 0xC3, CHR 0xA7, CHR 0xC3, CHR 0xA3] @ ''o conclu'' @ [CHR 0xC3, CHR 0xAD] @ ''da!''),
    (''data.importError'', ''Falha na importa'' @ [CHR 0xC3, CHR 0xA7, CHR 0xC3, CHR 0xA3] @ ''o''),
    (''data.exportTitle'', ''Exportar Dados''),
    (''data.exportDesc'', ''Baixe suas contas e transa'' @ [CHR 0xC3, CHR 0xA7, CHR 0xC3, CHR 0xB5] @ ''es como um arquivo JSON.''),
    (''data.exportBtn'', ''Exportar para JSON''),
    (''data.importTitle'', ''Importar Dados''),
    (''data.importDesc'', ''Importar contas e transa'' @ [CHR 0xC3, CHR 0xA7, CHR 0xC3, CHR 0xB5] @ ''es de um arquivo JSON. Isso ir'' @ [CHR 0xC3, CHR 0xA1] @ '' SUBSTITUIR os dados atuais do seu livro.''),
    (''data.importBtn'', ''Importar de JSON''),
    (''data.importCsvTitle'', ''Importar Transa'' @ [CHR 0xC3, CHR 0xA7, CHR 0xC3, CHR 0xB5] @ ''es (CSV)''),
    (''data.importCsvDesc'', ''Importar transa'' @ [CHR 0xC3, CHR 0xA7, CHR 0xC3, CHR 0xB5] @ ''es para uma conta espec'' @ [CHR 0xC3, CHR 0xAD] @ ''fica. Formato: Data, Descri'' @ [CHR 0xC3, CHR 0xA7, CHR 0xC3, CHR 0xA3] @ ''o, Valor''),
    (''data.importCsvBtn'', ''Importar CSV''),
    (''data.selectTargetAccount'', ''-- Selecionar Conta de Destino --''),
    (''data.importCsvSuccess'', ''{{count}} transa'' @ [CHR 0xC3, CHR 0xA7, CHR 0xC3, CHR 0xB5] @ ''es importadas com sucesso!''),
    (''data.importGnucashTitle'', ''Importar Dados (GnuCash)''),
    (''data.importGnucashDesc'', ''Importar contas e transa'' @ [CHR 0xC3, CHR 0xA7, CHR 0xC3, CHR 0xB5] @ ''es de um arquivo .gnucash. Isso ir'' @ [CHR 0xC3, CHR 0xA1] @ '' SUBSTITUIR os dados atuais do seu livro.''),
    (''data.importGnucashBtn'', ''Importar do GnuCash''),
    (''data.importGnucashSuccess'', ''Importa'' @ [CHR 0xC3, CHR 0xA7, CHR 0xC3, CHR 0xA3] @ ''o do GnuCash conclu'' @ [CHR 0xC3, CHR 0xAD] @ ''da com sucesso!''),
    (''dashboard.title'', ''Dashboard''),
    (''dashboard.subtitle'', ''Vis'' @ [CHR 0xC3, CHR 0xA3] @ ''o geral das suas finan'' @ [CHR 0xC3, CHR 0xA7] @ ''as''),
    (''dashboard.assets'', ''Ativos''),
    (''dashboard.liabilities'', ''Passivos''),
    (''dashboard.income'', ''Receitas''),
    (''dashboard.expenses'', ''Despesas''),
    (''dashboard.netWorth'', ''Patrim'' @ [CHR 0xC3, CHR 0xB4] @ ''nio L'' @ [CHR 0xC3, CHR 0xAD] @ ''quido''),
    (''dashboard.netWorthDesc'', ''Ativos '' @ [CHR 0xE2, CHR 0x88, CHR 0x92] @ '' Passivos''),
    (''dashboard.total'', ''Total''),
    (''dashboard.reconciled'', ''Reconciliado''),
    (''dashboard.balanceOverview'', ''Vis'' @ [CHR 0xC3, CHR 0xA3] @ ''o de Saldos''),
    (''dashboard.cashFlow'', ''Fluxo de Caixa''),
    (''dashboard.moneyIn'', ''Entradas''),
    (''dashboard.moneyOut'', ''Sa'' @ [CHR 0xC3, CHR 0xAD] @ ''das''),
    (''dashboard.expenseBreakdown'', ''Despesas por Categoria''),
    (''dashboard.topAccounts'', ''Contas Principais''),
    (''dashboard.noData'', ''Sem dados''),
    (''dashboard.allTime'', ''Todo o Per'' @ [CHR 0xC3, CHR 0xAD] @ ''odo''),
    (''dashboard.thisMonth'', ''Este M'' @ [CHR 0xC3, CHR 0xAA] @ ''s''),
    (''dashboard.lastMonth'', ''M'' @ [CHR 0xC3, CHR 0xAA] @ ''s Passado''),
    (''dashboard.thisYear'', ''Este Ano''),
    (''dashboard.lastYear'', ''Ano Passado''),
    (''accounts.title'', ''Plano de Contas''),
    (''accounts.subtitle'', ''Estrutura hier'' @ [CHR 0xC3, CHR 0xA1] @ ''rquica de contas''),
    (''accounts.noAccounts'', ''Nenhuma conta encontrada''),
    (''accounts.notFound'', ''Conta n'' @ [CHR 0xC3, CHR 0xA3] @ ''o encontrada''),
    (''accounts.newAccount'', ''+ Nova Conta''),
    (''accounts.editAccount'', ''Editar Conta''),
    (''accounts.deleteAccount'', ''Excluir Conta''),
    (''accounts.confirmDelete'', ''Excluir esta conta? N'' @ [CHR 0xC3, CHR 0xA3] @ ''o poder'' @ [CHR 0xC3, CHR 0xA1] @ '' ser desfeito.''),
    (''accounts.name'', ''Nome da Conta''),
    (''accounts.description'', ''Descri'' @ [CHR 0xC3, CHR 0xA7, CHR 0xC3, CHR 0xA3] @ ''o''),
    (''accounts.parentAccount'', ''Conta Pai''),
    (''accounts.topLevel'', ''(Raiz)''),
    (''accounts.accountType'', ''Tipo de Conta''),
    (''accounts.placeholder'', ''Espa'' @ [CHR 0xC3, CHR 0xA7] @ ''o reservado (apenas pasta, sem transa'' @ [CHR 0xC3, CHR 0xA7, CHR 0xC3, CHR 0xB5] @ ''es)''),
    (''accounts.save'', ''Salvar''),
    (''accounts.create'', ''Criar Conta''),
    (''accounts.cancel'', ''Cancelar''),
    (''accounts.nameRequired'', ''Nome da conta '' @ [CHR 0xC3, CHR 0xA9] @ '' obrigat'' @ [CHR 0xC3, CHR 0xB3] @ ''rio''),
    (''accounts.lastReconciled'', [CHR 0xC3, CHR 0x9A] @ ''ltima Reconcilia'' @ [CHR 0xC3, CHR 0xA7, CHR 0xC3, CHR 0xA3] @ ''o''),
    (''accounts.reconciledBalance'', ''Reconciliado''),
    (''accounts.reconcile'', ''Reconciliar''),
    (''accounts.confirmReconcile'', ''Reconciliar todas as transa'' @ [CHR 0xC3, CHR 0xA7, CHR 0xC3, CHR 0xB5] @ ''es desta conta?''),
    (''accounts.confirmReconcileChildren'', ''Reconciliar todas as transa'' @ [CHR 0xC3, CHR 0xA7, CHR 0xC3, CHR 0xB5] @ ''es desta conta e das contas filhas?''),
    (''register.date'', ''Data''),
    (''register.today'', ''Hoje''),
    (''register.num'', ''#''),
    (''register.description'', ''Descri'' @ [CHR 0xC3, CHR 0xA7, CHR 0xC3, CHR 0xA3] @ ''o''),
    (''register.transfer'', ''Transfer'' @ [CHR 0xC3, CHR 0xAA] @ ''ncia''),
    (''register.deposit'', ''Dep'' @ [CHR 0xC3, CHR 0xB3] @ ''sito''),
    (''register.withdrawal'', ''Retirada''),
    (''register.decrease'', ''Diminui'' @ [CHR 0xC3, CHR 0xA7, CHR 0xC3, CHR 0xA3] @ ''o''),
    (''register.increase'', ''Aumento''),
    (''register.balance'', ''Saldo''),
    (''register.memo'', ''Memo''),
    (''register.noEntries'', ''Nenhuma transa'' @ [CHR 0xC3, CHR 0xA7, CHR 0xC3, CHR 0xA3] @ ''o registrada em''),
    (''register.reconcile'', ''R''),
    (''register.reconcile.tooltip.n'', ''N'' @ [CHR 0xC3, CHR 0xA3] @ ''o reconciliado '' @ [CHR 0xE2, CHR 0x80, CHR 0x94] @ '' clique para reconhecer''),
    (''register.reconcile.tooltip.c'', ''Reconhecido '' @ [CHR 0xE2, CHR 0x80, CHR 0x94] @ '' clique para limpar''),
    (''register.reconcile.tooltip.y'', ''Reconciliado '' @ [CHR 0xE2, CHR 0x80, CHR 0x94] @ '' clique para desfazer''),
    (''register.jump'', ''Ir para conta''),
    (''register.loadOlder'', ''Carregar transa'' @ [CHR 0xC3, CHR 0xA7, CHR 0xC3, CHR 0xB5] @ ''es anteriores''),
    (''register.loadNewer'', ''Carregar transa'' @ [CHR 0xC3, CHR 0xA7, CHR 0xC3, CHR 0xB5] @ ''es recentes''),
    (''register.searchPlaceholder'', ''Buscar transa'' @ [CHR 0xC3, CHR 0xA7, CHR 0xC3, CHR 0xB5] @ ''es'' @ [CHR 0xE2, CHR 0x80, CHR 0xA6]),
    (''register.searchClear'', ''Limpar busca''),
    (''register.searchResults'', ''{{count}} de {{total}} transa'' @ [CHR 0xC3, CHR 0xA7, CHR 0xC3, CHR 0xB5] @ ''es correspondem''),
    (''register.searchNoMatch'', ''Nenhuma transa'' @ [CHR 0xC3, CHR 0xA7, CHR 0xC3, CHR 0xA3] @ ''o corresponde''),
    (''register.searchError'', ''N'' @ [CHR 0xC3, CHR 0xA3] @ ''o foi poss'' @ [CHR 0xC3, CHR 0xAD] @ ''vel carregar as transa'' @ [CHR 0xC3, CHR 0xA7, CHR 0xC3, CHR 0xB5] @ ''es para busca. Tente novamente.''),
    (''reconcile.title'', ''Reconciliar''),
    (''reconcile.infoDesc'', ''Informe a data do extrato e o saldo final do seu extrato banc'' @ [CHR 0xC3, CHR 0xA1] @ ''rio.''),
    (''reconcile.statementDate'', ''Data do Extrato''),
    (''reconcile.startingBalance'', ''Saldo Inicial''),
    (''reconcile.endingBalance'', ''Saldo Final''),
    (''reconcile.endingRequired'', ''Saldo final '' @ [CHR 0xC3, CHR 0xA9] @ '' obrigat'' @ [CHR 0xC3, CHR 0xB3] @ ''rio''),
    (''reconcile.start'', ''Iniciar Reconcilia'' @ [CHR 0xC3, CHR 0xA7, CHR 0xC3, CHR 0xA3] @ ''o''),
    (''reconcile.fundsIn'', ''Entradas''),
    (''reconcile.fundsOut'', ''Sa'' @ [CHR 0xC3, CHR 0xAD] @ ''das''),
    (''reconcile.amount'', ''Valor''),
    (''reconcile.total'', ''Total''),
    (''reconcile.reconciledBalance'', ''Saldo Reconciliado''),
    (''reconcile.difference'', ''Diferen'' @ [CHR 0xC3, CHR 0xA7] @ ''a''),
    (''reconcile.finish'', ''Finalizar''),
    (''reconcile.selectAll'', ''Selecionar Tudo''),
    (''reconcile.deselectAll'', ''Limpar Sele'' @ [CHR 0xC3, CHR 0xA7, CHR 0xC3, CHR 0xA3] @ ''o''),
    (''reconcile.button'', ''Reconciliar''),
    (''transactions.title'', ''Transa'' @ [CHR 0xC3, CHR 0xA7, CHR 0xC3, CHR 0xB5] @ ''es''),
    (''transactions.subtitle'', ''Todas as transa'' @ [CHR 0xC3, CHR 0xA7, CHR 0xC3, CHR 0xB5] @ ''es do livro''),
    (''transactions.noTransactions'', ''Nenhuma transa'' @ [CHR 0xC3, CHR 0xA7, CHR 0xC3, CHR 0xA3] @ ''o encontrada''),
    (''transactions.delete'', ''Excluir''),
    (''transactions.confirmDelete'', ''Excluir esta transa'' @ [CHR 0xC3, CHR 0xA7, CHR 0xC3, CHR 0xA3] @ ''o?'')]"

definition pt_dialogs :: "(string \<times> string) list" where
  "pt_dialogs = [
    (''commodities.title'', ''Moedas e Ativos''),
    (''commodities.subtitle'', ''Todas as moedas registradas''),
    (''commodities.noCommodities'', ''Nenhuma moeda encontrada''),
    (''commodities.namespace'', ''Tipo''),
    (''commodities.mnemonic'', ''S'' @ [CHR 0xC3, CHR 0xAD] @ ''mbolo''),
    (''commodities.fullname'', ''Nome''),
    (''commodities.fraction'', ''Fra'' @ [CHR 0xC3, CHR 0xA7, CHR 0xC3, CHR 0xA3] @ ''o''),
    (''commodities.newCurrency'', ''Nova Moeda''),
    (''commodities.fullnamePlaceholder'', ''Ex: D'' @ [CHR 0xC3, CHR 0xB3] @ ''lar Americano, Bitcoin''),
    (''commodities.fractionInvalid'', ''Fra'' @ [CHR 0xC3, CHR 0xA7, CHR 0xC3, CHR 0xA3] @ ''o deve ser um n'' @ [CHR 0xC3, CHR 0xBA] @ ''mero positivo''),
    (''commodities.mnemonicRequired'', ''S'' @ [CHR 0xC3, CHR 0xAD] @ ''mbolo (mneum'' @ [CHR 0xC3, CHR 0xB4] @ ''nico) '' @ [CHR 0xC3, CHR 0xA9] @ '' obrigat'' @ [CHR 0xC3, CHR 0xB3] @ ''rio''),
    (''commodities.createError'', ''Falha ao criar moeda (pode j'' @ [CHR 0xC3, CHR 0xA1] @ '' existir)''),
    (''commodities.confirmDelete'', ''Excluir esta moeda? (Apenas se nenhuma conta a usar)''),
    (''form.newTransaction'', ''Nova Transa'' @ [CHR 0xC3, CHR 0xA7, CHR 0xC3, CHR 0xA3] @ ''o''),
    (''form.editTransaction'', ''Editar Transa'' @ [CHR 0xC3, CHR 0xA7, CHR 0xC3, CHR 0xA3] @ ''o''),
    (''form.duplicateTransaction'', ''Duplicar Transa'' @ [CHR 0xC3, CHR 0xA7, CHR 0xC3, CHR 0xA3] @ ''o''),
    (''form.date'', ''Data''),
    (''form.description'', ''Descri'' @ [CHR 0xC3, CHR 0xA7, CHR 0xC3, CHR 0xA3] @ ''o''),
    (''form.descriptionPlaceholder'', ''Ex: Supermercado''),
    (''form.splits'', ''Parcelas (Splits)''),
    (''form.splitsHelp'', ''Toda transa'' @ [CHR 0xC3, CHR 0xA7, CHR 0xC3, CHR 0xA3] @ ''o precisa de pelo menos duas contas (origem [-] e destino [+]). O total deve somar zero.''),
    (''form.selectAccount'', ''Selecionar conta...''),
    (''form.value'', ''Valor''),
    (''form.memo'', ''Memo''),
    (''form.addSplit'', ''+ Adicionar parcela''),
    (''form.removeSplit'', ''Remover parcela''),
    (''form.balance'', ''Balan'' @ [CHR 0xC3, CHR 0xA7] @ ''o''),
    (''form.balanced'', [CHR 0xE2, CHR 0x9C, CHR 0x93] @ '' Equilibrado''),
    (''form.unbalanced'', [CHR 0xE2, CHR 0x9A, CHR 0xA0] @ '' Desequilibrado''),
    (''form.invalidAmount'', ''Valor inv'' @ [CHR 0xC3, CHR 0xA1] @ ''lido em uma ou mais parcelas''),
    (''form.selectAccountError'', ''Selecione uma conta para cada parcela''),
    (''form.noCurrency'', ''Nenhuma moeda encontrada''),
    (''form.creating'', ''Criando...''),
    (''form.create'', ''Criar Transa'' @ [CHR 0xC3, CHR 0xA7, CHR 0xC3, CHR 0xA3] @ ''o''),
    (''form.cancel'', ''Cancelar''),
    (''form.createError'', ''Erro ao criar transa'' @ [CHR 0xC3, CHR 0xA7, CHR 0xC3, CHR 0xA3] @ ''o''),
    (''common.loading'', ''Carregando...''),
    (''common.save'', ''Salvar''),
    (''common.saving'', ''Salvando...''),
    (''common.newTransaction'', ''+ Nova Transa'' @ [CHR 0xC3, CHR 0xA7, CHR 0xC3, CHR 0xA3] @ ''o''),
    (''common.duplicate'', ''Duplicar''),
    (''common.actions'', ''A'' @ [CHR 0xC3, CHR 0xA7, CHR 0xC3, CHR 0xB5] @ ''es''),
    (''type.ROOT'', ''Raiz''),
    (''type.ASSET'', ''Ativo''),
    (''type.BANK'', ''Banco''),
    (''type.CASH'', ''Dinheiro''),
    (''type.LIABILITY'', ''Passivo''),
    (''type.CREDIT'', ''Cart'' @ [CHR 0xC3, CHR 0xA3] @ ''o de Cr'' @ [CHR 0xC3, CHR 0xA9] @ ''dito''),
    (''type.INCOME'', ''Receita''),
    (''type.EXPENSE'', ''Despesa''),
    (''type.EQUITY'', ''Patrim'' @ [CHR 0xC3, CHR 0xB4] @ ''nio''),
    (''nav.snapshots'', ''Snapshots''),
    (''snapshots.title'', ''Snapshots''),
    (''snapshots.subtitle'', ''Backups autom'' @ [CHR 0xC3, CHR 0xA1] @ ''ticos e manuais dos seus dados.''),
    (''snapshots.scheduleTitle'', ''Agendamento de Snapshots''),
    (''snapshots.scheduleDesc'', ''Configure snapshots autom'' @ [CHR 0xC3, CHR 0xA1] @ ''ticos. Frequ'' @ [CHR 0xC3, CHR 0xAA] @ ''ncia 0 desativa.''),
    (''snapshots.frequency'', ''Frequ'' @ [CHR 0xC3, CHR 0xAA] @ ''ncia (horas, 0 = desativado)''),
    (''snapshots.ttl'', ''Manter por (horas, 0 = sempre)''),
    (''snapshots.activeMode'', ''Snapshots ativos '' @ [CHR 0xE2, CHR 0x80, CHR 0x94] @ '' tirar snapshot a cada 5 minutos enquanto voc'' @ [CHR 0xC3, CHR 0xAA] @ '' est'' @ [CHR 0xC3, CHR 0xA1] @ '' editando''),
    (''snapshots.saveConfig'', ''Salvar Agendamento''),
    (''snapshots.configSaved'', ''Agendamento salvo.''),
    (''snapshots.configError'', ''Falha ao salvar agendamento.''),
    (''snapshots.manualTitle'', ''Snapshot Manual''),
    (''snapshots.manualDesc'', ''Capturar o estado atual do seu livro agora.''),
    (''snapshots.label'', ''R'' @ [CHR 0xC3, CHR 0xB3] @ ''tulo (opcional)''),
    (''snapshots.labelPlaceholder'', ''Ex: Antes do fechamento anual''),
    (''snapshots.takeNow'', ''Tirar Snapshot Agora''),
    (''snapshots.taking'', ''Capturando...''),
    (''snapshots.snapshotTaken'', ''Snapshot realizado.''),
    (''snapshots.snapshotError'', ''Falha ao tirar snapshot.''),
    (''snapshots.listTitle'', ''Snapshots Salvos''),
    (''snapshots.noSnapshots'', ''Nenhum snapshot ainda.''),
    (''snapshots.colDate'', ''Data''),
    (''snapshots.colLabel'', ''R'' @ [CHR 0xC3, CHR 0xB3] @ ''tulo''),
    (''snapshots.colSource'', ''Origem''),
    (''snapshots.colActions'', ''A'' @ [CHR 0xC3, CHR 0xA7, CHR 0xC3, CHR 0xB5] @ ''es''),
    (''snapshots.restore'', ''Restaurar''),
    (''snapshots.restoreConfirm'', ''Restaurar este snapshot? Isso ir'' @ [CHR 0xC3, CHR 0xA1] @ '' SUBSTITUIR todos os dados atuais. N'' @ [CHR 0xC3, CHR 0xA3] @ ''o pode ser desfeito.''),
    (''snapshots.restoring'', ''Restaurando...''),
    (''snapshots.restoreSuccess'', ''Restaura'' @ [CHR 0xC3, CHR 0xA7, CHR 0xC3, CHR 0xA3] @ ''o conclu'' @ [CHR 0xC3, CHR 0xAD] @ ''da! Recarregando...''),
    (''snapshots.restoreError'', ''Falha na restaura'' @ [CHR 0xC3, CHR 0xA7, CHR 0xC3, CHR 0xA3] @ ''o.''),
    (''snapshots.delete'', ''Excluir''),
    (''snapshots.deleteConfirm'', ''Excluir este snapshot? N'' @ [CHR 0xC3, CHR 0xA3] @ ''o pode ser desfeito.''),
    (''snapshots.deleteSuccess'', ''Snapshot exclu'' @ [CHR 0xC3, CHR 0xAD] @ ''do.''),
    (''snapshots.deleteError'', ''Falha ao excluir snapshot.''),
    (''snapshots.triggerManual'', ''Manual''),
    (''snapshots.triggerScheduled'', ''Agendado''),
    (''snapshots.triggerActive'', ''Ativo''),
    (''shortcuts.title'', ''Atalhos do Teclado''),
    (''shortcuts.newTx'', ''Nova transa'' @ [CHR 0xC3, CHR 0xA7, CHR 0xC3, CHR 0xA3] @ ''o''),
    (''shortcuts.close'', ''Fechar di'' @ [CHR 0xC3, CHR 0xA1] @ ''logo''),
    (''shortcuts.goHome'', ''Ir para Dashboard''),
    (''shortcuts.goAccounts'', ''Ir para Contas''),
    (''shortcuts.goTransactions'', ''Ir para Transa'' @ [CHR 0xC3, CHR 0xA7, CHR 0xC3, CHR 0xB5] @ ''es''),
    (''shortcuts.showHelp'', ''Mostrar atalhos''),
    (''plaid.connectBank'', ''Conectar banco''),
    (''plaid.connecting'', ''Conectando'' @ [CHR 0xE2, CHR 0x80, CHR 0xA6]),
    (''plaid.connected'', ''Conectado''),
    (''plaid.disconnect'', ''Desconectar''),
    (''plaid.disconnectConfirm'', ''Desconectar banco? As transa'' @ [CHR 0xC3, CHR 0xA7, CHR 0xC3, CHR 0xB5] @ ''es importadas ser'' @ [CHR 0xC3, CHR 0xA3] @ ''o mantidas.''),
    (''plaid.syncNow'', ''Sincronizar agora''),
    (''plaid.syncing'', ''Sincronizando {{institution}}'' @ [CHR 0xE2, CHR 0x80, CHR 0xA6]),
    (''plaid.syncSuccess'', ''{{count}} transa'' @ [CHR 0xC3, CHR 0xA7, CHR 0xC3, CHR 0xA3] @ ''o('' @ [CHR 0xC3, CHR 0xB5] @ ''es) pronta(s) para importar.''),
    (''plaid.bank'', ''Banco''),
    (''plaid.genericError'', ''Algo deu errado '' @ [CHR 0xE2, CHR 0x80, CHR 0x94] @ '' tente novamente.''),
    (''plaid.syncNone'', ''Sem novas transa'' @ [CHR 0xC3, CHR 0xA7, CHR 0xC3, CHR 0xB5] @ ''es.''),
    (''plaid.syncError'', ''N'' @ [CHR 0xC3, CHR 0xA3] @ ''o foi poss'' @ [CHR 0xC3, CHR 0xAD] @ ''vel sincronizar {{institution}} '' @ [CHR 0xE2, CHR 0x80, CHR 0x94] @ '' tente novamente.''),
    (''plaid.mapAccounts'', ''Mapear contas banc'' @ [CHR 0xC3, CHR 0xA1] @ ''rias''),
    (''plaid.importPending'', ''Importar transa'' @ [CHR 0xC3, CHR 0xA7, CHR 0xC3, CHR 0xB5] @ ''es pendentes''),
    (''plaid.noMapping'', ''Pular''),
    (''plaid.confirmImport'', ''Importar {{count}} transa'' @ [CHR 0xC3, CHR 0xA7, CHR 0xC3, CHR 0xA3] @ ''o('' @ [CHR 0xC3, CHR 0xB5] @ ''es)''),
    (''plaid.categoryRequired'', ''Escolha uma categoria''),
    (''plaid.importSuccess'', ''{{count}} transa'' @ [CHR 0xC3, CHR 0xA7, CHR 0xC3, CHR 0xA3] @ ''o('' @ [CHR 0xC3, CHR 0xB5] @ ''es) importada(s).''),
    (''plaid.importError'', ''Importa'' @ [CHR 0xC3, CHR 0xA7, CHR 0xC3, CHR 0xA3] @ ''o falhou '' @ [CHR 0xE2, CHR 0x80, CHR 0x94] @ '' tente novamente.''),
    (''plaid.importPartial'', ''{{imported}} importada(s), {{failed}} falharam '' @ [CHR 0xE2, CHR 0x80, CHR 0x94] @ '' revise e tente novamente.''),
    (''plaid.importTitle'', ''Importar transa'' @ [CHR 0xC3, CHR 0xA7, CHR 0xC3, CHR 0xB5] @ ''es''),
    (''plaid.syncMore'', ''H'' @ [CHR 0xC3, CHR 0xA1] @ '' mais transa'' @ [CHR 0xC3, CHR 0xA7, CHR 0xC3, CHR 0xB5] @ ''es dispon'' @ [CHR 0xC3, CHR 0xAD] @ ''veis '' @ [CHR 0xE2, CHR 0x80, CHR 0x94] @ '' sincronize novamente.''),
    (''plaid.dismiss'', ''Descartar''),
    (''plaid.dismissHint'', ''Nunca importar esta transa'' @ [CHR 0xC3, CHR 0xA7, CHR 0xC3, CHR 0xA3] @ ''o''),
    (''plaid.dismissError'', ''N'' @ [CHR 0xC3, CHR 0xA3] @ ''o foi poss'' @ [CHR 0xC3, CHR 0xAD] @ ''vel descartar '' @ [CHR 0xE2, CHR 0x80, CHR 0x94] @ '' tente novamente.''),
    (''plaid.syncInProgress'', ''Outra sincroniza'' @ [CHR 0xC3, CHR 0xA7, CHR 0xC3, CHR 0xA3] @ ''o est'' @ [CHR 0xC3, CHR 0xA1] @ '' em andamento '' @ [CHR 0xE2, CHR 0x80, CHR 0x94] @ '' os resultados podem estar incompletos.''),
    (''plaid.importInterrupted'', ''{{imported}} importada(s) '' @ [CHR 0xE2, CHR 0x80, CHR 0x94] @ '' interrompido; sincronize e tente novamente para o restante.''),
    (''plaid.importing'', ''Importando'' @ [CHR 0xE2, CHR 0x80, CHR 0xA6]),
    (''plaid.save'', ''Salvar mapeamentos''),
    (''plaid.connectedBanks'', ''Bancos conectados''),
    (''plaid.lastSynced'', [CHR 0xC3, CHR 0x9A] @ ''ltima sincroniza'' @ [CHR 0xC3, CHR 0xA7, CHR 0xC3, CHR 0xA3] @ ''o: {{date}}''),
    (''plaid.neverSynced'', ''Nunca sincronizado''),
    (''plaid.disconnected'', ''Banco desconectado.''),
    (''plaid.reconnectNeeded'', ''A conex'' @ [CHR 0xC3, CHR 0xA3] @ ''o banc'' @ [CHR 0xC3, CHR 0xA1] @ ''ria precisa de reautoriza'' @ [CHR 0xC3, CHR 0xA7, CHR 0xC3, CHR 0xA3] @ ''o. Desconecte e reconecte.''),
    (''plaid.cancel'', ''Cancelar''),
    (''plaid.colDate'', ''Data''),
    (''plaid.colDescription'', ''Descri'' @ [CHR 0xC3, CHR 0xA7, CHR 0xC3, CHR 0xA3] @ ''o''),
    (''plaid.colAmount'', ''Valor''),
    (''plaid.colBankAccount'', ''Conta banc'' @ [CHR 0xC3, CHR 0xA1] @ ''ria''),
    (''plaid.colCategory'', ''Categoria''),
    (''plaid.colInclude'', ''Incluir'')]"

type_synonym language = string

text \<open>
  \<^verbatim>\<open>translations[l]\<close>. An object literal inherits the members of
  \<^verbatim>\<open>Object.prototype\<close>: their names index something truthy that holds no message.
\<close>

definition prototype_names :: "string list" where
  "prototype_names =
     [''constructor'', ''__defineGetter__'', ''__defineSetter__'', ''hasOwnProperty'',
      ''__lookupGetter__'', ''__lookupSetter__'', ''isPrototypeOf'', ''propertyIsEnumerable'',
      ''toString'', ''valueOf'', ''__proto__'', ''toLocaleString'']"

definition translation_table :: "language \<Rightarrow> (string \<times> string) list option" where
  "translation_table l =
     (if l = ''en'' then Some (en_screens @ en_dialogs)
      else if l = ''pt-BR'' then Some (pt_screens @ pt_dialogs)
      else if l \<in> set prototype_names then Some []
      else None)"

section \<open>The current language\<close>

definition locale_key :: string where
  "locale_key = ''antimoney-locale''"

text \<open>\<open>setLocale\<close> gives the new current language and the new content of \<^verbatim>\<open>localStorage\<close>.\<close>

definition setLocale :: "language \<Rightarrow> storage \<Rightarrow> language \<times> storage" where
  "setLocale l st = (l, st(locale_key \<mapsto> l))"

definition initLocale :: "language \<Rightarrow> storage \<Rightarrow> language" where
  "initLocale cur st =
     (case st locale_key of
        None \<Rightarrow> cur
      | Some saved \<Rightarrow> if saved \<noteq> [] \<and> translation_table saved \<noteq> None then saved else cur)"

section \<open>Messages\<close>

text \<open>\<^verbatim>\<open>translations[l]?.[key]\<close>, with the empty text for \<^verbatim>\<open>undefined\<close> (both are falsy)\<close>

definition message_in :: "language \<Rightarrow> string \<Rightarrow> string" where
  "message_in l key =
     (case translation_table l of None \<Rightarrow> []
      | Some tbl \<Rightarrow> (case map_of tbl key of None \<Rightarrow> [] | Some v \<Rightarrow> v))"

definition t :: "language \<Rightarrow> string \<Rightarrow> string" where
  "t l key =
     (if message_in l key \<noteq> [] then message_in l key
      else if message_in ''en'' key \<noteq> [] then message_in ''en'' key
      else key)"

section \<open>Currency\<close>

definition shown_value :: "number \<Rightarrow> number" where
  "shown_value v = (if num_less (num_abs v) (num_of (5 / 1000)) then zero else v)"

definition intl_locale :: "language \<Rightarrow> string" where
  "intl_locale l = (if l = ''pt-BR'' then ''pt-BR'' else ''en-US'')"

definition formatCurrency :: "(string \<Rightarrow> number \<Rightarrow> string) \<Rightarrow> language \<Rightarrow> number \<Rightarrow> string" where
  "formatCurrency number_format l v = number_format (intl_locale l) (shown_value v)"

section \<open>Facts about the tables\<close>

lemma pt_screens_keys: "map fst pt_screens = map fst en_screens"
  by (simp add: pt_screens_def en_screens_def)

lemma pt_dialogs_keys:
  "map fst pt_dialogs = filter (\<lambda>k. k \<notin> {''form.common.save'', ''form.save''}) (map fst en_dialogs)"
  by (simp add: pt_dialogs_def en_dialogs_def)

lemma messages_nonempty:
  "list_all (\<lambda>(k, v). v \<noteq> []) en_screens" "list_all (\<lambda>(k, v). v \<noteq> []) en_dialogs"
  "list_all (\<lambda>(k, v). v \<noteq> []) pt_screens" "list_all (\<lambda>(k, v). v \<noteq> []) pt_dialogs"
  by (simp_all add: en_screens_def en_dialogs_def pt_screens_def pt_dialogs_def)

interpretation saved_language: persisted "\<lambda>l st. snd (setLocale l st)" "\<lambda>st. Some (initLocale cur st)"
  "\<lambda>l. l \<in> {''en'', ''pt-BR''}" locale_key
  by unfold_locales (auto simp: setLocale_def initLocale_def translation_table_def locale_key_def)

lemma map_of_nonempty: "list_all (\<lambda>(k, v). v \<noteq> []) xs \<Longrightarrow> map_of xs k = Some v \<Longrightarrow> v \<noteq> []"
  by (auto simp: list_all_iff dest: map_of_SomeD)

lemma map_of_keys: "k \<in> set (map fst xs) \<Longrightarrow> \<exists>v. map_of xs k = Some v"
  by (metis list.set_map map_of_eq_None_iff not_None_eq)

section \<open>Properties\<close>

text \<open>
  The language a user chooses survives a restart, whatever the current language is then and
  whatever other components store; a stored value that names no language is ignored.
\<close>

theorem language_survives:
  assumes "l \<in> {''en'', ''pt-BR''}" and "\<And>s. other s locale_key = s locale_key"
  shows "initLocale cur (other (snd (setLocale l st))) = l"
  using saved_language.load_after_other [of l other cur st] assms by auto

theorem language_survives_witness:
  "initLocale ''en'' ((snd (setLocale ''pt-BR'' Map.empty))(''x'' \<mapsto> ''y'')) = ''pt-BR''"
  using language_survives [of "''pt-BR''" "\<lambda>s. s(''x'' \<mapsto> ''y'')" "''en''" Map.empty]
  by (simp add: locale_key_def)

text \<open>
  Every message of the English table has a translation in every language the program offers:
  looking it up never falls through to the bare key. The Portuguese table covers exactly the
  English keys but two, for which the English text is shown.
\<close>

theorem messages_complete:
  assumes "l \<in> {''en'', ''pt-BR''}" and "key \<in> set (map fst (en_screens @ en_dialogs))"
  shows "t l key \<noteq> [] \<and> (t l key = message_in l key \<or> t l key = message_in ''en'' key)
    \<and> (t l key = message_in ''en'' key \<or> message_in l key \<noteq> [])
    \<and> set (map fst (pt_screens @ pt_dialogs))
        = set (map fst (en_screens @ en_dialogs)) - {''form.common.save'', ''form.save''}"
proof -
  obtain v where v: "map_of (en_screens @ en_dialogs) key = Some v"
    using map_of_keys [OF assms(2)] by blast
  then have "v \<noteq> []"
    using map_of_nonempty [of "en_screens @ en_dialogs" key v] messages_nonempty by simp
  then have "message_in ''en'' key \<noteq> []" by (simp add: message_in_def translation_table_def v del: map_of_append)
  moreover have "set (map fst (pt_screens @ pt_dialogs))
      = set (map fst (en_screens @ en_dialogs)) - {''form.common.save'', ''form.save''}"
  proof -
    have "{''form.common.save'', ''form.save''} \<inter> set (map fst en_screens) = {}"
      by (simp add: en_screens_def)
    then show ?thesis unfolding map_append set_append pt_screens_keys pt_dialogs_keys by auto
  qed
  ultimately show ?thesis by (auto simp: t_def)
qed

theorem messages_complete_witness: "t ''pt-BR'' ''form.save'' \<noteq> []"
proof -
  have "''form.save'' \<in> set (map fst (en_screens @ en_dialogs))" by (simp add: en_dialogs_def)
  then show ?thesis using messages_complete [of "''pt-BR''" "''form.save''"] by simp
qed

end
