(* ===== verification/Types.thy ===== *)
theory Types
  imports JsString
begin

text \<open>
  The data the frontend exchanges with the server (\<^verbatim>\<open>types/index.ts\<close>): accounts,
  transactions, register entries and pages, snapshot and bank-sync records, as records over
  \<open>number\<close> and \<open>string\<close>. Optional and nullable fields are \<open>option\<close>. Also JSON values, and the
  notion of a credit-normal account type that several components share.
\<close>

section \<open>JSON values\<close>

datatype json =
    JNull
  | JBool bool
  | JNumber number
  | JString string
  | JArray "json list"
  | JObject "(string \<times> json) list"

text \<open>Member access on an object value: \<open>None\<close> is \<^verbatim>\<open>undefined\<close>.\<close>

fun json_field :: "json \<Rightarrow> string \<Rightarrow> json option" where
  "json_field (JObject fs) k = map_of fs k"
| "json_field _ k = None"

text \<open>Truth of a value in a condition, and a field read as a text\<close>

fun json_truthy :: "json \<Rightarrow> bool" where
  "json_truthy JNull = False"
| "json_truthy (JBool b) = b"
| "json_truthy (JNumber n) = num_truthy n"
| "json_truthy (JString s) = (s \<noteq> [])"
| "json_truthy _ = True"

fun json_text :: "json option \<Rightarrow> string option" where
  "json_text (Some (JString s)) = Some s"
| "json_text _ = None"

section \<open>Accounts\<close>

datatype account_type = ROOT | ASSET | BANK | CASH | LIABILITY | CREDIT | INCOME | EXPENSE | EQUITY

instantiation account_type :: enum
begin

definition enum_account_type :: "account_type list" where
  "enum_account_type = [ROOT, ASSET, BANK, CASH, LIABILITY, CREDIT, INCOME, EXPENSE, EQUITY]"

definition enum_all_account_type :: "(account_type \<Rightarrow> bool) \<Rightarrow> bool" where
  "enum_all_account_type P \<longleftrightarrow> list_all P [ROOT, ASSET, BANK, CASH, LIABILITY, CREDIT, INCOME, EXPENSE, EQUITY]"

definition enum_ex_account_type :: "(account_type \<Rightarrow> bool) \<Rightarrow> bool" where
  "enum_ex_account_type P \<longleftrightarrow> list_ex P [ROOT, ASSET, BANK, CASH, LIABILITY, CREDIT, INCOME, EXPENSE, EQUITY]"

lemma UNIV_account_type:
  "(UNIV :: account_type set) = set [ROOT, ASSET, BANK, CASH, LIABILITY, CREDIT, INCOME, EXPENSE, EQUITY]"
  using account_type.exhaust by (auto intro: set_eqI)

instance
  by standard
    (simp_all only: enum_account_type_def enum_all_account_type_def enum_ex_account_type_def
      UNIV_account_type list_all_iff list_ex_iff, auto simp: UNIV_account_type)

end

fun account_type_name :: "account_type \<Rightarrow> string" where
  "account_type_name ROOT = ''ROOT''"
| "account_type_name ASSET = ''ASSET''"
| "account_type_name BANK = ''BANK''"
| "account_type_name CASH = ''CASH''"
| "account_type_name LIABILITY = ''LIABILITY''"
| "account_type_name CREDIT = ''CREDIT''"
| "account_type_name INCOME = ''INCOME''"
| "account_type_name EXPENSE = ''EXPENSE''"
| "account_type_name EQUITY = ''EQUITY''"

definition USER_ACCOUNT_TYPES :: "account_type list" where
  "USER_ACCOUNT_TYPES = [ASSET, BANK, CASH, CREDIT, LIABILITY]"

fun ACCOUNT_TYPE_LABELS :: "account_type \<Rightarrow> string" where
  "ACCOUNT_TYPE_LABELS ROOT = ''Root''"
| "ACCOUNT_TYPE_LABELS ASSET = ''Asset''"
| "ACCOUNT_TYPE_LABELS BANK = ''Bank''"
| "ACCOUNT_TYPE_LABELS CASH = ''Cash''"
| "ACCOUNT_TYPE_LABELS LIABILITY = ''Liability''"
| "ACCOUNT_TYPE_LABELS CREDIT = ''Credit Card''"
| "ACCOUNT_TYPE_LABELS INCOME = ''Income''"
| "ACCOUNT_TYPE_LABELS EXPENSE = ''Expense''"
| "ACCOUNT_TYPE_LABELS EQUITY = ''Equity''"

fun ACCOUNT_TYPE_COLORS :: "account_type \<Rightarrow> string" where
  "ACCOUNT_TYPE_COLORS ROOT = ''#64748b''"
| "ACCOUNT_TYPE_COLORS ASSET = ''#22c55e''"
| "ACCOUNT_TYPE_COLORS BANK = ''#3b82f6''"
| "ACCOUNT_TYPE_COLORS CASH = ''#10b981''"
| "ACCOUNT_TYPE_COLORS LIABILITY = ''#ef4444''"
| "ACCOUNT_TYPE_COLORS CREDIT = ''#f97316''"
| "ACCOUNT_TYPE_COLORS INCOME = ''#8b5cf6''"
| "ACCOUNT_TYPE_COLORS EXPENSE = ''#ec4899''"
| "ACCOUNT_TYPE_COLORS EQUITY = ''#06b6d4''"

record account =
  acc_guid :: string
  acc_name :: string
  acc_type :: account_type
  acc_parent :: "string option"
  acc_placeholder :: bool
  acc_description :: string
  acc_metadata :: "(string \<times> json) list"
  acc_version :: number
  acc_balance :: number
  acc_reconciled :: number
  acc_agg_balance :: "number option"
  acc_agg_reconciled :: "number option"
  acc_last_reconciled :: "string option"

text \<open>An account with its optional \<^verbatim>\<open>children\<close>\<close>

datatype account_tree = AccNode (node_account: account) (node_children: "account_tree list option")

text \<open>\<^verbatim>\<open>['LIABILITY', 'CREDIT', 'INCOME', 'EQUITY'].includes(type)\<close>\<close>

definition credit_normal :: "account_type \<Rightarrow> bool" where
  "credit_normal ty \<longleftrightarrow> ty \<in> {LIABILITY, CREDIT, INCOME, EQUITY}"

section \<open>Transactions and registers\<close>

record split =
  sp_guid :: string
  sp_tx :: string
  sp_account :: string
  sp_memo :: string
  sp_value_num :: number
  sp_value_denom :: number
  sp_quantity_num :: number
  sp_quantity_denom :: number
  sp_state :: string
  sp_account_name :: "string option"

record transaction =
  tx_guid :: string
  tx_custom_id :: string
  tx_post_date :: string
  tx_enter_date :: string
  tx_description :: string
  tx_metadata :: "(string \<times> json) list"
  tx_version :: number
  tx_splits :: "split list"

record register_entry =
  re_tx :: string
  re_custom_id :: string
  re_post_date :: string
  re_description :: string
  re_transfer :: string
  re_transfer_guid :: string
  re_deposit :: "number option"
  re_withdrawal :: "number option"
  re_balance :: number
  re_memo :: string
  re_split :: string
  re_state :: string

record register_page =
  pg_entries :: "register_entry list"
  pg_has_before :: bool
  pg_has_after :: bool
  pg_first_offset :: int
  pg_last_offset :: int
  pg_total :: int

record request_split =
  rs_account :: string
  rs_memo :: string
  rs_value_num :: number
  rs_value_denom :: number
  rs_quantity_num :: number
  rs_quantity_denom :: number

record create_request =
  cr_custom_id :: string
  cr_post_date :: string
  cr_description :: string
  cr_splits :: "request_split list"

section \<open>Snapshots and bank sync\<close>

record snapshot_config =
  sc_id :: string
  sc_book :: string
  sc_frequency :: number
  sc_ttl :: number
  sc_active :: bool
  sc_created :: string
  sc_updated :: string

record snapshot_summary =
  ss_id :: string
  ss_book :: string
  ss_label :: string
  ss_trigger :: string
  ss_created :: string

record plaid_bank_account =
  ba_id :: string
  ba_name :: string
  ba_mask :: string
  ba_type :: string

record plaid_item =
  pi_guid :: string
  pi_institution :: string
  pi_last_synced :: "string option"
  pi_import_pending :: bool

record sync_suggestion =
  su_tx :: string
  su_date :: string
  su_description :: string
  su_amount_num :: number
  su_amount_denom :: number
  su_bank_guid :: string
  su_bank_name :: string
  su_category_guid :: "string option"
  su_category_name :: "string option"

record sync_result =
  sr_count :: number
  sr_suggestions :: "sync_suggestion list"
  sr_has_more :: bool
  sr_in_progress :: bool

section \<open>Accounts a user may choose\<close>

lemma user_types_not_root: "ROOT \<notin> set USER_ACCOUNT_TYPES"
  by (simp add: USER_ACCOUNT_TYPES_def)

end
