(* ===== verification/TransactionForm.thy ===== *)
theory TransactionForm
  imports JsExpr JsDate I18n Types
begin

text \<open>
  The transaction editor (\<^verbatim>\<open>components/TransactionForm.tsx\<close>): its state, the loading of a
  transaction to edit or duplicate, the arithmetic in amount fields, the automatic balancing of
  two splits, submission with its validation, and the derived totals. \<open>pow\<close> is the
  language's \<^verbatim>\<open>**\<close>, \<open>lang\<close> the current language and \<open>now\<close> the current time.
\<close>

section \<open>State\<close>

record split_input =
  si_account :: string
  si_amount :: string
  si_memo :: string

record form_props =
  fp_default :: "string option"
  fp_edit :: "string option"
  fp_duplicate :: "string option"

record form_state =
  fm_description :: string
  fm_custom_id :: string
  fm_post_date :: string
  fm_splits :: "split_input list"
  fm_initial :: "string \<Rightarrow> number option"
  fm_accounts :: "account list"
  fm_error :: "string option"
  fm_loading :: bool

definition empty_split :: split_input where
  "empty_split = \<lparr>si_account = [], si_amount = [], si_memo = []\<rparr>"

definition form_init :: "int \<Rightarrow> form_props \<Rightarrow> form_state" where
  "form_init now p =
     \<lparr>fm_description = [], fm_custom_id = [], fm_post_date = before_char (CHR ''T'') (toISOString now),
      fm_splits = [empty_split\<lparr>si_account := (case fp_default p of Some g \<Rightarrow> g | None \<Rightarrow> [])\<rparr>, empty_split],
      fm_initial = Map.empty, fm_accounts = [], fm_error = None,
      fm_loading = (truthy (fp_edit p) \<or> truthy (fp_duplicate p))\<rparr>"

section \<open>Loading\<close>

definition form_accounts_loaded :: "account list \<Rightarrow> form_state \<Rightarrow> form_state" where
  "form_accounts_loaded accts st =
     st\<lparr>fm_accounts := filter (\<lambda>a. \<not> acc_placeholder a \<and> acc_type a \<noteq> ROOT) accts\<rparr>"

text \<open>The transaction the effect fetches, if any: the edited one takes precedence.\<close>

definition fetched_guid :: "form_props \<Rightarrow> string option" where
  "fetched_guid p =
     (if truthy (fp_edit p) then fp_edit p else if truthy (fp_duplicate p) then fp_duplicate p else None)"

definition split_amount :: "split \<Rightarrow> number" where
  "split_amount s = num_div (sp_value_num s) (num_or (sp_value_denom s) (num_of_int 1))"

definition add_initial :: "split \<Rightarrow> (string \<Rightarrow> number option) \<Rightarrow> string \<Rightarrow> number option" where
  "add_initial s m =
     (if sp_account s = [] then m
      else m(sp_account s \<mapsto>
             num_add (num_or (case m (sp_account s) of Some x \<Rightarrow> x | None \<Rightarrow> zero) zero) (split_amount s)))"

definition split_to_input :: "split \<Rightarrow> split_input" where
  "split_to_input s =
     \<lparr>si_account = sp_account s, si_amount = num_to_string (split_amount s), si_memo = sp_memo s\<rparr>"

text \<open>The promise of the fetched transaction settles; either way loading ends.\<close>

definition form_tx_settled :: "form_props \<Rightarrow> js_error + transaction \<Rightarrow> form_state \<Rightarrow> form_state" where
  "form_tx_settled p res st =
     (case res of
        Inr tx \<Rightarrow>
          st\<lparr>fm_description := tx_description tx,
             fm_custom_id := (if truthy (fp_edit p) then tx_custom_id tx else []),
             fm_post_date := before_char (CHR ''T'') (tx_post_date tx),
             fm_initial := (if truthy (fp_edit p) then fold add_initial (tx_splits tx) Map.empty else Map.empty),
             fm_splits := map split_to_input (tx_splits tx),
             fm_loading := False\<rparr>
      | Inl e \<Rightarrow> st\<lparr>fm_error := error_text e, fm_loading := False\<rparr>)"

section \<open>Amount fields\<close>

definition sanitize :: "string \<Rightarrow> string" where
  "sanitize s =
     map (\<lambda>c. if c = CHR '','' then CHR ''.'' else c)
       (filter (\<lambda>c. is_digit c \<or> c \<in> set ''-()/*+., '') s)"

definition evaluateMath :: "(number \<Rightarrow> number \<Rightarrow> number) \<Rightarrow> string \<Rightarrow> string" where
  "evaluateMath pow expr =
     (let sanitized = sanitize expr
      in if sanitized = [] then expr
         else case js_eval pow (''('' @ sanitized @ '')'') of
                Some (JNum r) \<Rightarrow>
                  if is_finite r then num_to_string (parse_float (to_fixed2 r)) else expr
              | _ \<Rightarrow> expr)"

text \<open>\<^verbatim>\<open>parseFloat(s.replace(',', '.'))\<close>\<close>

definition read_amount :: "string \<Rightarrow> number" where
  "read_amount s = parse_float (replace_char (CHR '','') (CHR ''.'') s)"

datatype split_field = FAccount | FAmount | FMemo

fun set_field :: "split_field \<Rightarrow> string \<Rightarrow> split_input \<Rightarrow> split_input" where
  "set_field FAccount v s = s\<lparr>si_account := v\<rparr>"
| "set_field FAmount v s = s\<lparr>si_amount := v\<rparr>"
| "set_field FMemo v s = s\<lparr>si_memo := v\<rparr>"

text \<open>
  The other split of two follows an amount when it is empty or mirrors the old amount. Rows
  call these handlers with their own position, so the index is always in range.
\<close>

definition follows :: "string \<Rightarrow> string \<Rightarrow> bool" where
  "follows old other \<longleftrightarrow>
     other = [] \<or>
     \<not> is_nan (read_amount old) \<and> \<not> is_nan (read_amount other)
       \<and> num_eq (num_add (read_amount old) (read_amount other)) zero"

definition updateSplit :: "nat \<Rightarrow> split_field \<Rightarrow> string \<Rightarrow> form_state \<Rightarrow> form_state" where
  "updateSplit index field value st =
     (let splits = fm_splits st;
          updated = splits[index := set_field field value (splits ! index)];
          updated' =
            (if field = FAmount \<and> length updated = 2 \<and> length splits = 2 then
               (let otherIdx = (if index = 0 then 1 else 0) in
                if follows (si_amount (splits ! index)) (si_amount (splits ! otherIdx)) then
                  (let parsedNew = read_amount value in
                   if \<not> is_nan parsedNew then
                     updated[otherIdx := (updated ! otherIdx)\<lparr>si_amount := num_to_string (num_neg parsedNew)\<rparr>]
                   else if value = [] \<or> value = ''-'' then
                     updated[otherIdx := (updated ! otherIdx)\<lparr>si_amount := []\<rparr>]
                   else updated)
                else updated)
             else updated)
      in st\<lparr>fm_splits := updated'\<rparr>)"

definition handleAmountBlur :: "(number \<Rightarrow> number \<Rightarrow> number) \<Rightarrow> nat \<Rightarrow> form_state \<Rightarrow> form_state" where
  "handleAmountBlur pow index st =
     (let val = si_amount (fm_splits st ! index) in
      if val = [] then st
      else (let result = evaluateMath pow val in
            if result \<noteq> val then updateSplit index FAmount result st else st))"

definition addSplit :: "form_state \<Rightarrow> form_state" where
  "addSplit st = st\<lparr>fm_splits := fm_splits st @ [empty_split]\<rparr>"

definition removeSplit :: "nat \<Rightarrow> form_state \<Rightarrow> form_state" where
  "removeSplit index st = st\<lparr>fm_splits := take index (fm_splits st) @ drop (Suc index) (fm_splits st)\<rparr>"

section \<open>Submission\<close>

datatype submit_call = UpdateTx string create_request | CreateTx create_request

definition validSplits :: "split_input list \<Rightarrow> split_input list" where
  "validSplits splits = filter (\<lambda>s. si_account s \<noteq> [] \<or> js_trim (si_amount s) \<noteq> []) splits"

definition parse_split :: "(number \<Rightarrow> number \<Rightarrow> number) \<Rightarrow> split_input \<Rightarrow> request_split option" where
  "parse_split pow s =
     (let amount = read_amount (evaluateMath pow (si_amount s)) in
      if is_nan amount then None
      else (let valueNum = math_round (num_mul amount (num_of_int 100)) in
        Some \<lparr>rs_account = si_account s, rs_memo = si_memo s,
              rs_value_num = valueNum, rs_value_denom = num_of_int 100,
              rs_quantity_num = valueNum, rs_quantity_denom = num_of_int 100\<rparr>))"

text \<open>
  Up to the call: the new state and the request that goes out. An invalid date throws inside
  the \<^verbatim>\<open>try\<close> block, so that its message is shown and loading ends at once.
\<close>

definition handleSubmit ::
  "(number \<Rightarrow> number \<Rightarrow> number) \<Rightarrow> language \<Rightarrow> form_props \<Rightarrow> form_state \<Rightarrow> form_state \<times> submit_call option" where
  "handleSubmit pow lang p st0 =
     (let st = st0\<lparr>fm_error := None\<rparr>;
          vs = validSplits (fm_splits st);
          parsed = map (parse_split pow) vs
      in if vs = [] then (st\<lparr>fm_error := Some (t lang ''form.invalidAmount'')\<rparr>, None)
         else if list_ex (\<lambda>s. s = None) parsed
           then (st\<lparr>fm_error := Some (t lang ''form.invalidAmount'')\<rparr>, None)
         else if list_ex (\<lambda>s. rs_account (the s) = []) parsed
           then (st\<lparr>fm_error := Some (t lang ''form.selectAccountError'')\<rparr>, None)
         else
           (case date_parse (fm_post_date st @ ''T11:00:00Z'') of
              None \<Rightarrow> (st\<lparr>fm_error := Some ''Invalid time value'', fm_loading := False\<rparr>, None)
            | Some ms \<Rightarrow>
                (let payload = \<lparr>cr_custom_id = fm_custom_id st, cr_post_date = toISOString ms,
                                cr_description = fm_description st, cr_splits = map the parsed\<rparr>
                 in (st\<lparr>fm_loading := True\<rparr>,
                     Some (if truthy (fp_edit p) then UpdateTx (the (fp_edit p)) payload
                           else CreateTx payload)))))"

text \<open>The call settles: whether \<^verbatim>\<open>onCreated\<close> and \<^verbatim>\<open>onClose\<close> run, and the state.\<close>

definition submit_settled :: "language \<Rightarrow> js_error + unit \<Rightarrow> form_state \<Rightarrow> form_state \<times> bool" where
  "submit_settled lang res st =
     (case res of
        Inr _ \<Rightarrow> (st\<lparr>fm_loading := False\<rparr>, True)
      | Inl e \<Rightarrow> (st\<lparr>fm_error := Some (error_message e (t lang ''form.createError'')), fm_loading := False\<rparr>, False))"

section \<open>Derived values\<close>

definition form_total :: "split_input list \<Rightarrow> number" where
  "form_total splits =
     foldl (\<lambda>sum s. let n = read_amount (si_amount s) in num_add sum (if is_nan n then zero else n)) zero splits"

definition form_balanced :: "split_input list \<Rightarrow> bool" where
  "form_balanced splits = num_less (num_abs (form_total splits)) (num_of (5 / 1000))"

text \<open>The balance a split's account will have, in the sign the user expects\<close>

definition projected_balance ::
  "(number \<Rightarrow> number \<Rightarrow> number) \<Rightarrow> form_state \<Rightarrow> split_input \<Rightarrow> number option" where
  "projected_balance pow st split =
     (case List.find (\<lambda>a. acc_guid a = si_account split) (fm_accounts st) of
        None \<Rightarrow> None
      | Some acc \<Rightarrow>
          (let original = num_or (case fm_initial st (acc_guid acc) of Some x \<Rightarrow> x | None \<Rightarrow> zero) zero;
               current = foldl (\<lambda>sum s. num_add sum (num_or (read_amount (evaluateMath pow (si_amount s))) zero))
                           zero (filter (\<lambda>s. si_account s = acc_guid acc) (fm_splits st));
               raw = num_add (num_sub (acc_balance acc) original) current
           in Some (if credit_normal (acc_type acc) then num_neg raw else raw)))"

text \<open>The jump button of a row: the path to open, after which the dialog closes\<close>

definition jump_target :: "split_input \<Rightarrow> string option" where
  "jump_target s = (if si_account s \<noteq> [] then Some (''/accounts/'' @ si_account s) else None)"

definition submit_enabled :: "form_state \<Rightarrow> bool" where
  "submit_enabled st \<longleftrightarrow> \<not> fm_loading st"

definition remove_enabled :: "form_state \<Rightarrow> bool" where
  "remove_enabled st \<longleftrightarrow> \<not> length (fm_splits st) \<le> 1"

section \<open>What the user can do between calls\<close>

datatype form_event =
    SetDescription string
  | SetCustomId string
  | SetPostDate string
  | EditSplit nat split_field string
  | BlurAmount nat
  | AddSplit
  | RemoveSplit nat
  | AccountsLoaded "account list"

fun form_edit :: "(number \<Rightarrow> number \<Rightarrow> number) \<Rightarrow> form_event \<Rightarrow> form_state \<Rightarrow> form_state" where
  "form_edit pow (SetDescription v) st = st\<lparr>fm_description := v\<rparr>"
| "form_edit pow (SetCustomId v) st = st\<lparr>fm_custom_id := v\<rparr>"
| "form_edit pow (SetPostDate v) st = st\<lparr>fm_post_date := v\<rparr>"
| "form_edit pow (EditSplit i f v) st = updateSplit i f v st"
| "form_edit pow (BlurAmount i) st = handleAmountBlur pow i st"
| "form_edit pow AddSplit st = addSplit st"
| "form_edit pow (RemoveSplit i) st = (if remove_enabled st then removeSplit i st else st)"
| "form_edit pow (AccountsLoaded accts) st = form_accounts_loaded accts st"

end
