(* ===== verification/AmountText.thy ===== *)
theory AmountText
  imports JsExpr JsNumText
begin

text \<open>
  The texts of amounts in whole cents: plain decimal literals, without exponent and without
  superfluous leading zeros. They are read back exactly, as text and as an expression.
\<close>

section \<open>Plain decimal literals\<close>

definition plain :: "string \<Rightarrow> rat \<Rightarrow> bool" where
  "plain s q \<longleftrightarrow>
     (\<exists>ip fp. list_all is_digit ip \<and> ip \<noteq> [] \<and> list_all is_digit fp
        \<and> (length ip = 1 \<or> hd ip \<noteq> CHR ''0'')
        \<and> s = ip @ (if fp = [] then [] else CHR ''.'' # fp)
        \<and> q = of_int (digits_val (ip @ fp)) * 10 powi - int (length fp))"

lemma plainI:
  assumes "list_all is_digit ip" "ip \<noteq> []" "list_all is_digit fp" "length ip = 1 \<or> hd ip \<noteq> CHR ''0''"
    and "s = ip @ (if fp = [] then [] else CHR ''.'' # fp)"
    and "q = of_int (digits_val (ip @ fp)) * 10 powi - int (length fp)"
  shows "plain s q"
  unfolding plain_def using assms by blast

lemma format_plain:
  assumes ds: "list_all is_digit ds" "ds \<noteq> []" "hd ds \<noteq> CHR ''0''" and n: "- 6 < n" "n \<le> 21"
  shows "plain (format_decimal ds n) (of_int (digits_val ds) * 10 powi (n - int (length ds)))"
proof -
  let ?k = "int (length ds)"
  consider (int) "?k \<le> n" | (mid) "n < ?k" "0 < n" | (small) "n \<le> 0" by linarith
  then show ?thesis
  proof cases
    case int
    let ?z = "replicate (nat (n - ?k)) (CHR ''0'')"
    have "(10 :: rat) powi (n - ?k) = of_int (10 ^ nat (n - ?k))" using int by (simp add: power_int_def)
    with int n ds show ?thesis
      by (intro plainI [of "ds @ ?z" "[]"]) (auto simp: format_decimal_def digits_val_append)
  next
    case mid
    then have "n - ?k = - int (length (drop (nat n) ds))" "drop (nat n) ds \<noteq> []" "take (nat n) ds \<noteq> []"
      "hd (take (nat n) ds) = hd ds" by auto
    with mid n ds show ?thesis
      by (intro plainI [of "take (nat n) ds" "drop (nat n) ds"])
        (auto simp: format_decimal_def digits_val_take_drop)
  next
    case small
    let ?z = "replicate (nat (- n)) (CHR ''0'')"
    have "digits_val (''0'' @ ?z @ ds) = digits_val ds"
      using digits_val_append [of "''0''" "?z @ ds"] digits_val_append [of ?z ds]
      by (simp add: digit_val_def code_def)
    moreover have "n - ?k = - int (length (?z @ ds))" using small by simp
    moreover have "\<not> ?k \<le> n" using small ds(2) by (cases ds) auto
    ultimately show ?thesis using small n ds
      by (intro plainI [of "''0''" "?z @ ds"]) (auto simp: format_decimal_def Let_def)
  qed
qed

lemma plain_hd: "plain s q \<Longrightarrow> \<exists>c t. s = c # t \<and> is_digit c"
  unfolding plain_def by (metis append_Cons list.exhaust list.pred_inject(2))

lemma plain_chars: "plain s q \<Longrightarrow> c \<in> set s \<Longrightarrow> is_digit c \<or> c = CHR ''.''"
  by (auto simp: plain_def list_all_iff split: if_splits)

lemma scan_decimal_plain:
  assumes "plain s q" and "r = [] \<or> \<not> is_digit (hd r) \<and> hd r \<notin> set ''.eE''"
  shows "scan_decimal (s @ r) = Some (q, r)"
proof -
  obtain ip fp where s: "list_all is_digit ip" "ip \<noteq> []" "list_all is_digit fp"
    "s = ip @ (if fp = [] then [] else CHR ''.'' # fp)"
    "q = of_int (digits_val (ip @ fp)) * 10 powi - int (length fp)"
    using assms(1) unfolding plain_def by blast
  have e: "scan_exponent r = (0, r)" using assms(2) by (cases r) auto
  show ?thesis
  proof (cases "fp = []")
    case True
    then show ?thesis
      using s assms(2) take_digits_append [OF s(1), of r] e
      by (cases r) (auto simp: scan_decimal_def simp del: scan_exponent.simps)
  next
    case False
    then show ?thesis
      using s assms(2) take_digits_append [OF s(1), of "''.'' @ fp @ r"] take_digits_append [OF s(3), of r] e
      by (auto simp: scan_decimal_def simp del: scan_exponent.simps)
  qed
qed

lemma lex_number_plain:
  assumes "plain s q"
  shows "lex_number (s @ '')'') = Some (q, '')'')"
proof -
  obtain ip fp where s: "list_all is_digit ip" "ip \<noteq> []" "length ip = 1 \<or> hd ip \<noteq> CHR ''0''"
    "s = ip @ (if fp = [] then [] else CHR ''.'' # fp)"
    using assms unfolding plain_def by blast
  obtain r where "take_digits (s @ '')'') = (ip, r)"
    using take_digits_append [OF s(1), of "(if fp = [] then [] else CHR ''.'' # fp) @ '')''"]
    by (simp add: s(4) is_digit_def code_def)
  moreover have "scan_decimal (s @ '')'') = Some (q, '')'')"
    using assms by (rule scan_decimal_plain) (simp add: is_digit_def code_def)
  ultimately show ?thesis using s(3) by (auto simp: lex_number_def)
qed

lemma lex_plain:
  assumes "plain s q"
  shows "lex True (s @ '')'') = Some [TNum q, TClose]"
proof -
  obtain c t where c: "s = c # t" "is_digit c" using plain_hd [OF assms] by blast
  then have "c \<noteq> CHR '' ''" "c \<noteq> CHR ''/''" by (auto simp: is_digit_def code_def)
  with c lex_number_plain [OF assms] show ?thesis by (simp add: is_digit_def code_def)
qed

text \<open>A plain literal in brackets, possibly negative, evaluates to its value.\<close>

lemma js_eval_plain:
  assumes "plain s q"
  shows "js_eval pow (''('' @ (if neg then ''-'' else '''') @ s @ '')'')
       = Some (JNum (if neg then num_neg (num_of q) else num_of q))"
proof -
  obtain c t where c: "s = c # t" "is_digit c" using plain_hd [OF assms] by blast
  then have "c \<noteq> CHR ''-''" by auto
  then have "lex True (''('' @ (if neg then ''-'' else '''') @ s @ '')'')
      = Some ((if neg then [TOpen, TMinus] else [TOpen]) @ [TNum q, TClose])"
    using lex_plain [OF assms] c(1) by (simp add: is_digit_def code_def)
  then show ?thesis by (simp add: js_eval_def)
qed

section \<open>Cents as text\<close>

lemma digits_val_lower:
  assumes "list_all is_digit ds" "ds \<noteq> []" "hd ds \<noteq> CHR ''0''"
  shows "10 ^ (length ds - 1) \<le> digits_val ds"
proof -
  obtain c t where ds: "ds = [c] @ t" using assms(2) by (cases ds) auto
  have "digit_val c \<noteq> 0"
  proof
    assume "digit_val c = 0"
    then have "code c = code (CHR ''0'')" by (simp add: digit_val_def code_def)
    then have "c = CHR ''0''" by (metis char_of_char code_def)
    with assms(3) ds show False by simp
  qed
  then have "1 \<le> digit_val c" using assms(1) ds digit_val_bounds [of c] by simp
  then have "1 * 10 ^ length t \<le> digit_val c * 10 ^ length t" by (intro mult_right_mono) simp_all
  moreover have "0 \<le> digits_val t" using assms(1) ds digits_val_bounds [of t] by simp
  moreover have "length ds - 1 = length t" by (simp add: ds)
  ultimately show ?thesis unfolding ds digits_val_append digits_val_single by (simp only: ds)
qed

lemma decimal_form_exponent:
  assumes "double_mag m" and "1 / 200 < m" and "m < 2 powi 60" and "decimal_form m = (ds, n)"
  shows "- 6 < n" and "n \<le> 21"
proof -
  let ?l = "int (length ds)"
  define v :: rat where "v = of_int (digits_val ds) * 10 powi (n - ?l)"
  have "0 < m" using assms(2) by linarith
  note d = decimal_form_sound [OF assms(1) this assms(4)]
  have l: "int (length ds - 1) = ?l - 1" using d(2) by (cases ds) auto
  have "(10 :: rat) ^ (length ds - 1) \<le> of_int (digits_val ds)"
    using digits_val_lower [OF d(1-3)] by (metis of_int_le_iff of_int_numeral of_int_power)
  then have "(10 :: rat) powi (?l - 1) \<le> of_int (digits_val ds)"
    by (simp flip: l)
  then have "10 powi (?l - 1) * 10 powi (n - ?l) \<le> v"
    unfolding v_def by (intro mult_right_mono) auto
  then have lo: "10 powi (n - 1) \<le> v" by (simp flip: power_int_add)
  have "(of_int (digits_val ds) :: rat) < of_int (10 ^ length ds)"
    using digits_val_bounds [OF d(1)] by (subst of_int_less_iff) simp
  then have "v < 10 powi ?l * 10 powi (n - ?l)"
    unfolding v_def by (intro mult_strict_right_mono) auto
  moreover have "(10 :: rat) powi ?l * 10 powi (n - ?l) = 10 powi n"
    by (subst power_int_add [symmetric]) simp_all
  ultimately have hi: "v < 10 powi n" by simp
  have v: "round_mag v = m" using d(4) by (simp add: v_def)
  have dm: "double_mag (2 powi - 8)" "double_mag (2 powi 60)"
    by (rule double_magI [of _ 1 "- 8"] double_magI [of _ 1 60];
        auto intro!: not_overflows_small simp: power_int_def power_one_over)+
  show "- 6 < n"
  proof (rule ccontr)
    assume "\<not> - 6 < n"
    then have "(10 :: rat) powi n \<le> 10 powi - 6" by (simp only: ten_powi_le_iff)
    also have "(10 :: rat) powi - 6 \<le> 2 powi - 8" by (simp add: power_int_def power_one_over)
    finally have "v \<le> 2 powi - 8" using hi by linarith
    moreover have "0 \<le> v" using digits_val_bounds [OF d(1)] by (simp add: v_def)
    ultimately have "m \<le> round_mag (2 powi - 8)" using round_mag_mono [of v "2 powi - 8"] v by simp
    then have "m \<le> 2 powi - 8" using dm(1) by simp
    with assms(2) show False by (simp add: power_int_def power_one_over)
  qed
  show "n \<le> 21"
  proof (rule ccontr)
    assume "\<not> n \<le> 21"
    then have "(10 :: rat) powi 21 \<le> 10 powi (n - 1)" by (simp only: ten_powi_le_iff)
    moreover have "(2 :: rat) powi 60 \<le> 10 powi 21" by (simp add: power_int_def)
    ultimately have "2 powi 60 \<le> v" using lo by linarith
    then have "round_mag (2 powi 60) \<le> m" using round_mag_mono [of "2 powi 60" v] v by simp
    then have "2 powi 60 \<le> m" using dm(2) by simp
    with assms(3) show False by simp
  qed
qed

text \<open>The text of an amount of \<open>n\<close> cents is a plain literal of that amount.\<close>

lemma cents_text:
  assumes "\<bar>n\<bar> \<le> 2 ^ 50"
  obtains s q where "num_to_string (cents n) = (if n < 0 then ''-'' else '''') @ s" and "plain s q"
    and "num_of q = Num False (round_mag (of_int \<bar>n\<bar> / 100))"
proof (cases "n = 0")
  case True
  have "plain ''0'' 0"
    by (rule plainI [of "''0''" "[]"]) (auto simp: digit_val_def code_def)
  moreover have "num_to_string (cents n) = ''0''" using True cents_mag [OF assms] by simp
  ultimately show thesis using True by (intro that [of "''0''" 0]) (auto simp: num_of_def)
next
  case False
  define m where "m = round_mag (of_int \<bar>n\<bar> / 100)"
  have c: "cents n = Num (n < 0) m" and e: "\<bar>m - of_int \<bar>n\<bar> / 100\<bar> \<le> of_int \<bar>n\<bar> / 100 * 2 powi - 53"
    using cents_mag [OF assms] by (simp_all add: m_def)
  have n1: "1 \<le> (of_int \<bar>n\<bar> :: rat)" using False by simp
  have n2: "(of_int \<bar>n\<bar> :: rat) \<le> 2 ^ 50" by (rule abs_of_int_le_pow [OF assms])
  have m1: "1 / 200 < m" using e [unfolded unit_roundoff] n1 by (simp only: abs_le_iff) simp
  have "m < 2 ^ 60" using e [unfolded unit_roundoff] n1 n2 by (simp only: abs_le_iff) simp
  then have m2: "m < 2 powi 60" by simp
  have m0: "0 < m" using m1 by linarith
  have dm: "double_mag m" using cents_double [of n] c by simp
  obtain ds k where t: "num_to_string (Num (n < 0) m) = (if n < 0 then ''-'' else '''') @ format_decimal ds k"
    and ds: "list_all is_digit ds" "ds \<noteq> []" "hd ds \<noteq> CHR ''0''" and df: "decimal_form m = (ds, k)"
    and v: "round_mag (of_int (digits_val ds) * 10 powi (k - int (length ds))) = m"
    using num_to_string_nonzero [OF dm m0, of "n < 0"] by blast
  let ?q = "of_int (digits_val ds) * 10 powi (k - int (length ds)) :: rat"
  have "plain (format_decimal ds k) ?q"
    using decimal_form_exponent [OF dm m1 m2 df] ds by (intro format_plain) auto
  moreover have "0 \<le> ?q" using digits_val_bounds [OF ds(1)] by simp
  then have "num_of ?q = Num False m"
    using v double_mag_not_overflows [OF dm] by (simp add: num_of_def num_of_mag_def)
  ultimately show thesis using t c by (intro that) (auto simp: m_def)
qed

text \<open>Two fixed digits show the cents.\<close>

lemma fixed2_of_cents:
  assumes "\<bar>n\<bar> \<le> 2 ^ 50"
  shows "to_fixed2 (cents n) = (if n < 0 then ''-'' else '''') @ fixed2_digits \<bar>n\<bar>"
proof -
  define m where "m = round_mag (of_int \<bar>n\<bar> / 100)"
  have c: "cents n = Num (n < 0) m" and e: "\<bar>m - of_int \<bar>n\<bar> / 100\<bar> \<le> of_int \<bar>n\<bar> / 100 * 2 powi - 53"
    using cents_mag [OF assms] by (simp_all add: m_def)
  have n2: "0 \<le> (of_int \<bar>n\<bar> :: rat)" "(of_int \<bar>n\<bar> :: rat) \<le> 2 ^ 50"
    using abs_of_int_le_pow [OF assms] by simp_all
  have "m * 100 < of_int \<bar>n\<bar> + 1 / 2" "of_int \<bar>n\<bar> - 1 / 2 < m * 100"
    using e [unfolded unit_roundoff] n2 by (simp_all only: abs_le_iff) simp_all
  then have "\<lfloor>m * 100 + 1 / 2\<rfloor> = \<bar>n\<bar>"
    by (intro floor_unique) simp_all
  moreover have "m < 10 ^ 21" using \<open>m * 100 < of_int \<bar>n\<bar> + 1 / 2\<close> n2(2) by simp
  moreover have "n < 0 \<Longrightarrow> m \<noteq> 0"
    using \<open>of_int \<bar>n\<bar> - 1 / 2 < m * 100\<close> by auto
  ultimately show ?thesis by (simp add: c)
qed

lemma fixed2_plain:
  assumes "0 \<le> k"
  shows "plain (fixed2_digits k) (of_int k / 100)"
proof -
  define ds where "ds = pad_start 3 (CHR ''0'') (dec_digits k)"
  let ?n = "length ds - 2"
  have l: "3 \<le> length ds" by (simp add: ds_def pad_start_def)
  have d: "list_all is_digit ds" "digits_val ds = k"
    using assms by (simp_all add: ds_def pad_start_def dec_digits_all digits_val_append)
  have "?n = 1 \<or> hd ds \<noteq> CHR ''0''"
  proof (cases "length (dec_digits k) \<le> 3")
    case False
    then have "k \<noteq> 0" by (auto simp: dec_digits_small)
    with False assms dec_digits_hd [of k] show ?thesis by (simp add: ds_def pad_start_def)
  qed (simp add: ds_def pad_start_def)
  moreover have "hd (take ?n ds) = hd ds" using l by simp
  moreover have "fixed2_digits k = take ?n ds @ CHR ''.'' # drop ?n ds"
    by (simp add: fixed2_digits_def Let_def flip: ds_def)
  ultimately show ?thesis
    using l d by (intro plainI [of "take ?n ds" "drop ?n ds"]) (auto simp: power_int_minus)
qed

text \<open>Reading the two-digit text of cents, or any plain literal\<close>

lemma parse_float_plain:
  assumes "plain s q"
  shows "parse_float ((if neg then ''-'' else '''') @ s) = num_of_mag neg q"
proof -
  obtain c u where c: "s = c # u" "is_digit c" using plain_hd [OF assms] by blast
  then have "parse_float ((if neg then ''-'' else '''') @ s) = parse_unsigned neg s"
    by (auto simp: parse_float_def)
  moreover have "\<not> prefix ''Infinity'' s" using c by auto
  ultimately show ?thesis
    using scan_decimal_plain [OF assms, of "[]"] by (simp add: parse_unsigned_def)
qed

lemma parse_fixed2_cents:
  assumes "\<bar>n\<bar> \<le> 2 ^ 50"
  shows "parse_float (to_fixed2 (cents n)) = cents n"
  unfolding fixed2_of_cents [OF assms] parse_float_plain [OF fixed2_plain, OF abs_ge_zero]
  using cents_mag(1) [OF assms] is_double_num_of_mag [of "of_int \<bar>n\<bar> / 100" "n < 0"] cents_double [of n]
  by (simp add: num_of_mag_def double_mag_not_overflows)

text \<open>The text of an amount in cents reads back as the amount.\<close>

lemma parse_cents:
  assumes "\<bar>n\<bar> \<le> 2 ^ 50"
  shows "parse_float (num_to_string (cents n)) = cents n"
proof -
  have "double_mag (round_mag (of_int \<bar>n\<bar> / 100))" using cents_double [of n] cents_mag(1) [OF assms] by simp
  moreover have "n < 0 \<Longrightarrow> round_mag (of_int \<bar>n\<bar> / 100) \<noteq> 0"
    using cents_mag(2) [OF assms] by (auto simp: unit_roundoff)
  ultimately show ?thesis
    unfolding cents_mag(1) [OF assms] by (auto simp: parse_float_to_string simp del: num_to_string.simps)
qed

end
