(* ===== verification/DateShortcut.thy ===== *)
theory DateShortcut
  imports JsDate
begin

text \<open>
  Keyboard shortcuts of date fields (\<^verbatim>\<open>utils/date.ts\<close>) and the display of a date in
  local time (\<^verbatim>\<open>formatDate\<close> of \<^verbatim>\<open>i18n.ts\<close>).
\<close>

section \<open>The handler\<close>

text \<open>
  The result says whether the key's default action was prevented and which value, if any, was
  handed to \<^verbatim>\<open>setValue\<close>. \<open>now\<close> is the current time.
\<close>

definition handleDateShortcut :: "int \<Rightarrow> string \<Rightarrow> bool \<Rightarrow> string \<Rightarrow> bool \<times> string option" where
  "handleDateShortcut now key shift value =
     (if key = ''+'' \<or> key = ''='' \<or> key = ''-'' then
        (let dateStr = (if value \<noteq> [] then value else take 10 (toISOString now))
         in case date_parse (dateStr @ ''T12:00:00Z'') of
              None \<Rightarrow> (True, None)
            | Some ms \<Rightarrow>
                (let days = (if key = ''-'' then -1 else 1) * (if shift then 7 else 1);
                     (y, m, d) = civil (ms div ms_per_day);
                     ms' = make_day y m (d + days) * ms_per_day + ms mod ms_per_day
                 in (True, Some (take 10 (toISOString ms')))))
      else (False, None))"

text \<open>\<open>offset\<close> is the host's time zone: local time minus UTC at a given time.\<close>

definition formatDate :: "(int \<Rightarrow> int) \<Rightarrow> string \<Rightarrow> string" where
  "formatDate offset dateStr =
     (case date_parse dateStr of
        None \<Rightarrow> ''NaN-NaN-NaN''
      | Some ms \<Rightarrow>
          (case civil ((ms + offset ms) div ms_per_day) of
             (y, m, d) \<Rightarrow> dec_int y @ ''-'' @ pad2 (m + 1) @ ''-'' @ pad2 d))"

section \<open>Dates with a four-digit year\<close>

definition four_digit_day :: "int \<Rightarrow> bool" where
  "four_digit_day n \<longleftrightarrow> -719528 \<le> n \<and> n \<le> 2932896"

lemma day_from_year_mono: "y \<le> z \<Longrightarrow> day_from_year y \<le> day_from_year z"
proof (induction z rule: int_ge_induct)
  case (step z)
  then show ?case using day_from_year_step [of z] by (simp split: if_splits)
qed simp

lemma four_digit_year:
  assumes "four_digit_day n" shows "0 \<le> year_from_day n \<and> year_from_day n \<le> 9999"
proof -
  have "day_from_year 0 = -719528" "day_from_year 10000 = 2932897" by (simp_all add: day_from_year_def)
  with assms year_from_day [of n] day_from_year_mono [of "year_from_day n + 1" 0]
    day_from_year_mono [of 10000 "year_from_day n"]
  show ?thesis unfolding four_digit_day_def by linarith
qed

lemma length_dec_digits_le:
  assumes "0 \<le> n" and "n < 10 ^ k" and "1 \<le> k"
  shows "length (dec_digits n) \<le> k"
proof (cases "n = 0")
  case False
  with assms have "1 \<le> n" by simp
  from dec_digits_length(1) [OF this] assms(2)
  have "(10 :: int) ^ (length (dec_digits n) - 1) < 10 ^ k" by linarith
  then show ?thesis using assms(3) by (simp add: power_strict_increasing_iff)
qed (use assms(3) in \<open>simp add: dec_digits_small\<close>)

lemma fixed_int_pad [simp]:
  assumes "0 \<le> n" and "n < 10 ^ k" and "1 \<le> k"
  shows "fixed_int k (pad_start k (CHR ''0'') (dec_digits n) @ s) = Some (n, s)"
  using length_dec_digits_le [OF assms] assms(1) dec_digits_all [OF assms(1)]
  by (simp add: fixed_int_def pad_start_def digits_val_append)

lemma length_pad_start: "length (pad_start k c s) = max k (length s)"
  by (simp add: pad_start_def)

lemma pad2_props:
  assumes "0 \<le> n" and "n < 100"
  shows "fixed_int 2 (pad2 n @ s) = Some (n, s)" and "length (pad2 n) = 2"
  using assms fixed_int_pad [of n 2 s] length_dec_digits_le [of n 2]
  by (simp_all add: pad2_def length_pad_start)

lemma month_lengths_le: "0 \<le> m \<and> m < 12 \<Longrightarrow> month_lengths y ! nat m \<le> 31"
proof -
  assume "0 \<le> m \<and> m < 12"
  then have "month_lengths y ! nat m \<in> set (month_lengths y)"
    by (intro nth_mem) (simp add: month_lengths_def nat_less_iff)
  then show ?thesis by (auto simp: month_lengths_def split: if_splits)
qed

lemma date_text_parts:
  assumes "four_digit_day n"
  shows "length (date_text n) = 10" and "scan_date (date_text n @ s) = Some (n, s)"
proof -
  obtain y m d where c: "civil n = (y, m, d)" by (cases "civil n")
  note p = make_day_civil [OF c]
  have y: "0 \<le> y \<and> y < 10000"
    using four_digit_year [OF assms] c by (auto simp: civil_def Let_def split: prod.splits)
  have d: "0 \<le> d" "d < 100" using p(3) month_lengths_le [OF p(2), of y] by auto
  have t: "date_text n = pad_start 4 (CHR ''0'') (dec_digits y) @ ''-'' @ pad2 (m + 1) @ ''-'' @ pad2 d"
    using y by (simp add: date_text_def c year_text_def)
  show "length (date_text n) = 10"
    using y d p(2) length_dec_digits_le [of y 4] by (simp add: t length_pad_start pad2_props)
  show "scan_date (date_text n @ s) = Some (n, s)"
    using y d p by (simp add: t scan_date_def pad2_props)
qed

lemma noon_suffix:
  "fixed_int 2 ''12:00:00Z'' = Some (12, '':00:00Z'')" "fixed_int 2 ''00:00Z'' = Some (0, '':00Z'')"
  "fixed_int 2 ''00Z'' = Some (0, ''Z'')"
  by (simp_all add: fixed_int_def is_digit_def code_def digits_val_def digit_val_def)

lemma parse_noon:
  assumes "four_digit_day n"
  shows "date_parse (date_text n @ ''T12:00:00Z'') = Some (n * ms_per_day + 43200000)"
  by (simp add: date_parse_def date_text_parts [OF assms] noon_suffix scan_fraction_def scan_zone_def)

lemma toISOString_day:
  assumes "four_digit_day n" and "0 \<le> r" and "r < ms_per_day"
  shows "take 10 (toISOString (n * ms_per_day + r)) = date_text n"
proof -
  have "(n * ms_per_day + r) div ms_per_day = n" using assms(2,3) by (simp add: ms_per_day_def)
  then show ?thesis by (simp add: toISOString_def Let_def date_text_parts(1) [OF assms(1)])
qed

lemma make_day_add: "make_day y m (d + k) = make_day y m d + k"
  by (simp add: make_day_def Let_def)

lemma shortcut_shift:
  assumes "key \<in> {''+'', ''='', ''-''}"
    and "k = (if key = ''-'' then -1 else 1) * (if shift then 7 else 1)"
    and "four_digit_day n" and "four_digit_day (n + k)"
  shows "handleDateShortcut now key shift (date_text n) = (True, Some (date_text (n + k)))"
proof -
  obtain y m d where c: "civil n = (y, m, d)" by (cases "civil n")
  have "date_text n \<noteq> []" using date_text_parts(1) [OF assms(3)] by auto
  moreover have "(n * ms_per_day + 43200000) div ms_per_day = n"
    "(n * ms_per_day + 43200000) mod ms_per_day = 43200000" by (simp_all add: ms_per_day_def)
  moreover have "take 10 (toISOString (make_day y m (d + k) * ms_per_day + 43200000)) = date_text (n + k)"
    unfolding make_day_add make_day_civil(1) [OF c]
    by (rule toISOString_day) (simp_all add: assms(4) ms_per_day_def)
  ultimately show ?thesis
    using assms(1) c unfolding assms(2) handleDateShortcut_def
    by (auto simp: parse_noon [OF assms(3)] Let_def)
qed

section \<open>Properties\<close>

text \<open>
  C14. The shortcuts of a date field move the date by exactly one day, or by seven with the shift
  key, forwards for plus and equals and backwards for minus, across month and year ends, for
  every date whose year has four digits before and after.
\<close>

theorem date_shortcut_shift:
  assumes "key \<in> {''+'', ''='', ''-''}"
    and "k = (if key = ''-'' then -1 else 1) * (if shift then 7 else 1)"
    and "four_digit_day n" and "four_digit_day (n + k)"
  shows "handleDateShortcut now key shift (date_text n) = (True, Some (date_text (n + k)))"
  using assms by (rule shortcut_shift)

theorem date_shortcut_shift_witness:
  "handleDateShortcut 0 ''+'' True ''2024-02-26'' = (True, Some ''2024-03-04'')"
proof -
  have "date_text 19779 = ''2024-02-26''" "date_text 19786 = ''2024-03-04''" by code_simp+
  then show ?thesis
    using date_shortcut_shift [of "''+''" 7 True 19779 0] by (simp add: four_digit_day_def)
qed

text \<open>
  Plus followed by minus, with the same shift state, restores the date in the field.
\<close>

theorem date_shortcut_undo:
  assumes "four_digit_day n" and "four_digit_day (n + (if shift then 7 else 1))"
  shows "\<exists>v. handleDateShortcut now ''+'' shift (date_text n) = (True, Some v)
    \<and> handleDateShortcut now' ''-'' shift v = (True, Some (date_text n))"
proof -
  let ?k = "if shift then 7 else 1 :: int"
  have "handleDateShortcut now ''+'' shift (date_text n) = (True, Some (date_text (n + ?k)))"
    by (rule shortcut_shift) (simp_all add: assms)
  moreover have "handleDateShortcut now' ''-'' shift (date_text (n + ?k))
      = (True, Some (date_text (n + ?k + - ?k)))"
    by (rule shortcut_shift) (simp_all add: assms)
  ultimately show ?thesis by simp
qed

theorem date_shortcut_undo_witness:
  "\<exists>v. handleDateShortcut 0 ''+'' False (date_text 19788) = (True, Some v)
    \<and> handleDateShortcut 5 ''-'' False v = (True, Some (date_text 19788))"
  using date_shortcut_undo [of 19788 False 0 5] by (simp add: four_digit_day_def)

end
