(* ===== verification/TransactionFormLaws.thy ===== *)
theory TransactionFormLaws
  imports TransactionForm AmountText DateShortcut
begin

text \<open>
  What the transaction editor guarantees: amounts in cents survive an edit unchanged, the
  second of two splits follows the first so that the total is zero, invalid input never
  reaches the server, and the busy flag spans each submission.
\<close>

section \<open>Amounts in cents\<close>

lemma sanitize_plain:
  assumes "plain s q"
  shows "sanitize ((if neg then ''-'' else '''') @ s) = (if neg then ''-'' else '''') @ s"
proof -
  have "\<not> is_digit (CHR '','')" by (simp add: is_digit_def code_def)
  then have "\<forall>c\<in>set s. (is_digit c \<or> c = CHR ''.'') \<and> c \<noteq> CHR '',''"
    using plain_chars [OF assms] by auto
  then have "filter (\<lambda>c. is_digit c \<or> c \<in> set ''-()/*+., '') s = s"
    "map (\<lambda>c. if c = CHR '','' then CHR ''.'' else c) s = s"
    by - (rule filter_True, force, rule map_idI, force)
  then show ?thesis by (simp add: sanitize_def)
qed

lemma evaluateMath_cents:
  assumes "\<bar>n\<bar> \<le> 2 ^ 50"
  shows "evaluateMath pow (num_to_string (cents n)) = num_to_string (cents n)"
proof -
  obtain s q where t: "num_to_string (cents n) = (if n < 0 then ''-'' else '''') @ s" and p: "plain s q"
    and q: "num_of q = Num False (round_mag (of_int \<bar>n\<bar> / 100))"
    using cents_text [OF assms] by blast
  have "(if n < 0 then num_neg (num_of q) else num_of q) = cents n"
    using q cents_mag(1) [OF assms] by simp
  then have "js_eval pow (''('' @ num_to_string (cents n) @ '')'') = Some (JNum (cents n))"
    using js_eval_plain [OF p, of pow "n < 0"] by (simp add: t)
  moreover have "is_finite (cents n)" using cents_mag(1) [OF assms] by simp
  moreover have "num_to_string (cents n) \<noteq> []" using plain_hd [OF p] by (auto simp: t)
  ultimately show ?thesis
    using sanitize_plain [OF p, of "n < 0"] parse_fixed2_cents [OF assms]
    by (simp add: evaluateMath_def flip: t)
qed

lemma replace_char_absent [simp]: "a \<notin> set s \<Longrightarrow> replace_char a b s = s"
  by (induction s) auto

lemma read_amount_cents:
  assumes "\<bar>n\<bar> \<le> 2 ^ 50"
  shows "read_amount (num_to_string (cents n)) = cents n"
proof -
  obtain s q where t: "num_to_string (cents n) = (if n < 0 then ''-'' else '''') @ s" and p: "plain s q"
    using cents_text [OF assms] by blast
  have "CHR '','' \<notin> set (num_to_string (cents n))"
    using plain_chars [OF p, of "CHR '',''"] by (auto simp: t is_digit_def code_def)
  then show ?thesis by (simp add: read_amount_def parse_cents [OF assms])
qed

text \<open>A split in whole cents, within the range where the arithmetic is exact\<close>

definition cent_split :: "split \<Rightarrow> bool" where
  "cent_split s \<longleftrightarrow> sp_value_denom s = num_of_int 100 \<and> (\<exists>n. \<bar>n\<bar> \<le> 2 ^ 50 \<and> sp_value_num s = num_of_int n)"

definition echo_split :: "split \<Rightarrow> request_split" where
  "echo_split s =
     \<lparr>rs_account = sp_account s, rs_memo = sp_memo s,
      rs_value_num = sp_value_num s, rs_value_denom = num_of_int 100,
      rs_quantity_num = sp_value_num s, rs_quantity_denom = num_of_int 100\<rparr>"

lemma cent_split_amount:
  assumes "cent_split s"
  obtains n where "\<bar>n\<bar> \<le> 2 ^ 50" "sp_value_num s = num_of_int n" "split_amount s = cents n"
  using assms by (auto simp: cent_split_def split_amount_def cents_def num_or_def num_of_int_100)

lemma parse_split_loaded:
  assumes "cent_split s"
  shows "parse_split pow (split_to_input s) = Some (echo_split s)"
proof -
  obtain n where n: "\<bar>n\<bar> \<le> 2 ^ 50" "sp_value_num s = num_of_int n" "split_amount s = cents n"
    using cent_split_amount [OF assms] .
  have "\<not> is_nan (cents n)" using cents_mag(1) [OF n(1)] by simp
  then show ?thesis
    by (simp add: parse_split_def split_to_input_def echo_split_def n evaluateMath_cents [OF n(1)]
        read_amount_cents [OF n(1)] round_cents [OF n(1)] Let_def)
qed

lemma validSplits_loaded:
  "\<forall>s\<in>set ss. sp_account s \<noteq> [] \<Longrightarrow> validSplits (map split_to_input ss) = map split_to_input ss"
  by (auto simp: validSplits_def split_to_input_def)

section \<open>Numbers read from text\<close>

lemma digits_val_nonneg: "list_all is_digit s \<Longrightarrow> 0 \<le> digits_val s"
  using digits_val_bounds by blast

lemma take_digits_all: "take_digits s = (ds, r) \<Longrightarrow> list_all is_digit ds"
  by (auto simp: take_digits_def list_all_iff dest: set_takeWhileD)

lemma scan_decimal_nonneg:
  assumes "scan_decimal s = Some (q, r)"
  shows "0 \<le> q"
proof -
  let ?frac = "\<lambda>ip u. case u of c # z \<Rightarrow>
      (if c = CHR ''.'' \<and> (ip \<noteq> [] \<or> takeWhile is_digit z \<noteq> []) then take_digits z else ([], u))
    | [] \<Rightarrow> ([], u)"
  obtain ip u where ip: "take_digits s = (ip, u)" by fastforce
  obtain fp v where fp: "?frac ip u = (fp, v)" by fastforce
  obtain e w where e: "scan_exponent v = (e, w)" by fastforce
  have "list_all is_digit fp"
    using fp by (auto split: list.splits if_splits dest!: take_digits_all)
  then have "0 \<le> digits_val (ip @ fp)" using take_digits_all [OF ip] by (intro digits_val_nonneg) simp
  moreover have "q = of_int (digits_val (ip @ fp)) * 10 powi (e - int (length fp))"
    using assms ip fp e by (auto simp: scan_decimal_def split: if_splits)
  ultimately show ?thesis by simp
qed

lemma is_double_parse_float [simp]: "is_double (parse_float s)"
  by (auto simp: parse_float_def parse_unsigned_def split: list.splits option.splits
      dest: scan_decimal_nonneg)

lemma is_double_read_amount [simp]: "is_double (read_amount s)"
  by (simp add: read_amount_def)

lemma comma_free_format:
  assumes "list_all is_digit ds"
  shows "CHR '','' \<notin> set (format_decimal ds n)"
proof -
  have d: "\<not> is_digit (CHR '','')" by (simp add: is_digit_def code_def)
  have "CHR '','' \<notin> set ds" "CHR '','' \<notin> set (dec_digits \<bar>n - 1\<bar>)"
    using assms dec_digits_all [of "\<bar>n - 1\<bar>"] d by (auto simp: list_all_iff)
  then show ?thesis
    by (auto simp: format_decimal_def Let_def dest: in_set_takeD in_set_dropD)
qed

text \<open>The text the form writes for a finite number is read back as the number.\<close>

lemma read_amount_to_string:
  assumes "double_mag m"
  shows "read_amount (num_to_string (Num s m)) = (if m = 0 then zero else Num s m)"
proof (cases "m = 0")
  case False
  with double_mag_nonneg [OF assms] have "0 < m" by simp
  then obtain ds n where "num_to_string (Num s m) = (if s then ''-'' else '''') @ format_decimal ds n"
    "list_all is_digit ds" using num_to_string_nonzero [OF assms] by blast
  then have "CHR '','' \<notin> set (num_to_string (Num s m))" using comma_free_format by auto
  then show ?thesis
    by (simp add: read_amount_def parse_float_to_string [OF assms] del: num_to_string.simps)
next
  case True
  then show ?thesis using parse_float_to_string [OF assms, of s] by (simp add: read_amount_def)
qed

lemma num_add_zero [simp]: "double_mag m \<Longrightarrow> num_add zero (Num s m) = (if m = 0 then zero else Num s m)"
  using double_mag_nonneg [of m] by (auto simp: num_of_def)

section \<open>The second split follows\<close>

lemma total_of_two:
  assumes "is_finite x" and "is_double x"
  shows "num_add (num_add zero x) (read_amount (num_to_string (num_neg x))) = zero"
    and "num_add (num_add zero (read_amount (num_to_string (num_neg x)))) x = zero"
proof -
  obtain s m where x: "x = Num s m" using assms(1) by (cases x) auto
  have m: "double_mag m" using assms(2) x by simp
  show "num_add (num_add zero x) (read_amount (num_to_string (num_neg x))) = zero"
    "num_add (num_add zero (read_amount (num_to_string (num_neg x)))) x = zero"
    using num_add_zero [OF m, of s] num_add_zero [OF m, of "\<not> s"]
    by (auto simp: x read_amount_to_string [OF m] simp del: num_add.simps num_to_string.simps)
      (auto)
qed

lemma form_total_pair:
  "form_total [a, b] =
     (let x = read_amount (si_amount a); y = read_amount (si_amount b)
      in num_add (num_add zero (if is_nan x then zero else x)) (if is_nan y then zero else y))"
  by (simp add: form_total_def Let_def)

lemma not_nan_neg: "is_finite x \<Longrightarrow> is_double x \<Longrightarrow> \<not> is_nan (read_amount (num_to_string (num_neg x)))"
  by (cases x) (auto simp: read_amount_to_string simp del: num_to_string.simps)

text \<open>The row index that is not \<open>i\<close>, of two\<close>

definition other_of :: "nat \<Rightarrow> nat" where
  "other_of i = (if i = 0 then 1 else 0)"

lemma auto_balance:
  assumes "length (fm_splits st) = 2" and "i < 2"
    and "follows (si_amount (fm_splits st ! i)) (si_amount (fm_splits st ! other_of i))"
    and "is_finite (read_amount v)"
  shows "form_total (fm_splits (updateSplit i FAmount v st)) = zero"
proof -
  obtain a b where ab: "fm_splits st = [a, b]"
    using assms(1) by (auto simp: numeral_2_eq_2 length_Suc_conv)
  have n: "\<not> is_nan (read_amount v)" using assms(4) by (cases "read_amount v") auto
  note tot = total_of_two [OF assms(4) is_double_read_amount] not_nan_neg [OF assms(4) is_double_read_amount]
  consider "i = 0" | "i = 1" using assms(2) by linarith
  then show ?thesis
    using assms(3) n tot
    by cases (auto simp: updateSplit_def other_of_def ab form_total_pair Let_def
        simp del: num_add.simps num_to_string.simps)
qed

section \<open>Submission\<close>

text \<open>The rows the form will send\<close>

definition submittable :: "(number \<Rightarrow> number \<Rightarrow> number) \<Rightarrow> form_state \<Rightarrow> bool" where
  "submittable pow st \<longleftrightarrow>
     validSplits (fm_splits st) \<noteq> [] \<and>
     (\<forall>s\<in>set (validSplits (fm_splits st)). parse_split pow s \<noteq> None \<and> si_account s \<noteq> [])"

definition form_payload :: "(number \<Rightarrow> number \<Rightarrow> number) \<Rightarrow> form_state \<Rightarrow> int \<Rightarrow> create_request" where
  "form_payload pow st ms =
     \<lparr>cr_custom_id = fm_custom_id st, cr_post_date = toISOString ms, cr_description = fm_description st,
      cr_splits = map (\<lambda>s. the (parse_split pow s)) (validSplits (fm_splits st))\<rparr>"

definition form_call :: "form_props \<Rightarrow> create_request \<Rightarrow> submit_call" where
  "form_call p payload = (if truthy (fp_edit p) then UpdateTx (the (fp_edit p)) payload else CreateTx payload)"

lemma parse_split_account: "parse_split pow s \<noteq> None \<Longrightarrow> rs_account (the (parse_split pow s)) = si_account s"
  by (auto simp: parse_split_def Let_def split: if_splits)

lemma bad_amount_iff:
  "list_ex (\<lambda>s. s = None) (map (parse_split pow) vs) \<longleftrightarrow> (\<exists>s\<in>set vs. parse_split pow s = None)"
  by (induction vs) auto

lemma no_account_iff:
  assumes "\<forall>s\<in>set vs. parse_split pow s \<noteq> None"
  shows "list_ex (\<lambda>s. rs_account (the s) = []) (map (parse_split pow) vs) \<longleftrightarrow> (\<exists>s\<in>set vs. si_account s = [])"
  using assms by (induction vs) (auto simp: parse_split_account simp del: not_None_eq)

lemma submittable_iff:
  "submittable pow st \<longleftrightarrow>
     (let vs = validSplits (fm_splits st); parsed = map (parse_split pow) vs
      in vs \<noteq> [] \<and> \<not> list_ex (\<lambda>s. s = None) parsed \<and> \<not> list_ex (\<lambda>s. rs_account (the s) = []) parsed)"
proof (cases "\<forall>s\<in>set (validSplits (fm_splits st)). parse_split pow s \<noteq> None")
  case True
  then show ?thesis by (auto simp: submittable_def Let_def bad_amount_iff no_account_iff)
next
  case False
  then show ?thesis by (auto simp: submittable_def Let_def bad_amount_iff)
qed

lemma handleSubmit_accept:
  assumes "submittable pow st" and "date_parse (fm_post_date st @ ''T11:00:00Z'') = Some ms"
  shows "handleSubmit pow lang p st
       = (st\<lparr>fm_error := None, fm_loading := True\<rparr>, Some (form_call p (form_payload pow st ms)))"
  using assms unfolding submittable_iff
  by (simp add: handleSubmit_def Let_def form_call_def form_payload_def comp_def)

lemma handleSubmit_reject:
  assumes "\<not> submittable pow st \<or> date_parse (fm_post_date st @ ''T11:00:00Z'') = None"
  shows "\<exists>m \<in> {t lang ''form.invalidAmount'', t lang ''form.selectAccountError'', ''Invalid time value''}.
    handleSubmit pow lang p st
      = (st\<lparr>fm_error := Some m, fm_loading := (if submittable pow st then False else fm_loading st)\<rparr>, None)"
  using assms unfolding submittable_iff
  by (auto simp: handleSubmit_def Let_def)

section \<open>The busy flag\<close>

lemma updateSplit_loading [simp]: "fm_loading (updateSplit i f v st) = fm_loading st"
  by (simp add: updateSplit_def Let_def)

lemma form_edit_loading: "fm_loading (form_edit pow ev st) = fm_loading st"
  by (cases ev) (simp_all add: handleAmountBlur_def Let_def addSplit_def removeSplit_def form_accounts_loaded_def)

lemma handleSubmit_loading:
  "handleSubmit pow lang p st = (st', Some c) \<Longrightarrow> fm_loading st'"
  "handleSubmit pow lang p st = (st', None) \<Longrightarrow> fm_loading st' \<Longrightarrow> fm_loading st"
  by (auto simp: handleSubmit_def Let_def split: if_splits option.splits)

interpretation submission: async_handler "handleSubmit pow lang p"
  "\<lambda>res st. fst (submit_settled lang res st)" "form_edit pow" fm_loading
  by unfold_locales
    (auto simp: form_edit_loading submit_settled_def split: sum.splits dest: handleSubmit_loading)

section \<open>Properties\<close>

lemma no_T_in_date_text:
  assumes "four_digit_day n"
  shows "before_char (CHR ''T'') (date_text n @ ''T'' @ rest) = date_text n"
proof -
  obtain y m d where c: "civil n = (y, m, d)" by (cases "civil n")
  have y: "0 \<le> y \<and> y \<le> 9999"
    using four_digit_year [OF assms] c by (auto simp: civil_def Let_def split: prod.splits)
  have "is_digit x \<or> x = CHR ''-''" if "x \<in> set (date_text n)" for x
    using that y make_day_civil(2,3) [OF c] dec_digits_all [of y] dec_digits_all [of "m + 1"] dec_digits_all [of d]
    by (auto simp: date_text_def c year_text_def pad2_def pad_start_def list_all_iff split: if_splits)
  moreover have "\<not> is_digit (CHR ''T'')" by (simp add: is_digit_def code_def)
  ultimately have "\<forall>x\<in>set (date_text n). x \<noteq> CHR ''T''" by fastforce
  then show ?thesis by (simp add: before_char_def takeWhile_append2)
qed

lemma eleven_suffix:
  "fixed_int 2 ''11:00:00Z'' = Some (11, '':00:00Z'')" "fixed_int 2 ''00:00Z'' = Some (0, '':00Z'')"
  "fixed_int 2 ''00Z'' = Some (0, ''Z'')"
  by (simp_all add: fixed_int_def is_digit_def code_def digits_val_def digit_val_def)

lemma parse_eleven:
  assumes "four_digit_day n"
  shows "date_parse (date_text n @ ''T11:00:00Z'') = Some (n * ms_per_day + 39600000)"
  by (simp add: date_parse_def date_text_parts [OF assms] eleven_suffix scan_fraction_def scan_zone_def)

lemma time_of_eleven: "pad2 11 = ''11''" "pad2 0 = ''00''" "pad_start 3 (CHR ''0'') (dec_digits 0) = ''000''"
  by code_simp+

lemma toISOString_eleven: "toISOString (n * ms_per_day + 39600000) = date_text n @ ''T11:00:00.000Z''"
proof -
  have "(n * ms_per_day + 39600000) div ms_per_day = n" "(n * ms_per_day + 39600000) mod ms_per_day = 39600000"
    by (simp_all add: ms_per_day_def)
  then show ?thesis by (simp add: toISOString_def Let_def time_of_eleven)
qed

text \<open>
  C1. Opening a transaction and saving it unchanged sends back exactly what was loaded: every
  split keeps its account, its memo and its amount in cents, for amounts up to \<open>2\<^sup>5\<^sup>0\<close> cents,
  although each amount goes through a division, a text, an expression evaluator, two roundings
  and a multiplication; the day of the transaction is kept too.
\<close>

theorem edit_round_trip:
  assumes "fp_edit p = Some g" and "g \<noteq> []" and "tx_splits tx \<noteq> []"
    and "\<forall>s\<in>set (tx_splits tx). sp_account s \<noteq> [] \<and> cent_split s"
    and "four_digit_day n" and "tx_post_date tx = date_text n @ ''T'' @ rest"
  shows "snd (handleSubmit pow lang p (form_tx_settled p (Inr tx) st))
    = Some (UpdateTx g \<lparr>cr_custom_id = tx_custom_id tx, cr_post_date = date_text n @ ''T11:00:00.000Z'',
        cr_description = tx_description tx, cr_splits = map echo_split (tx_splits tx)\<rparr>)"
proof -
  let ?st = "form_tx_settled p (Inr tx) st"
  have sp: "fm_splits ?st = map split_to_input (tx_splits tx)" by (simp add: form_tx_settled_def)
  have vs: "validSplits (fm_splits ?st) = map split_to_input (tx_splits tx)"
    unfolding sp using assms(4) by (intro validSplits_loaded) simp
  have ps: "parse_split pow (split_to_input s) = Some (echo_split s)" if "s \<in> set (tx_splits tx)" for s
    using that assms(4) parse_split_loaded by blast
  have "submittable pow ?st"
    unfolding submittable_def vs using assms(3,4) ps by (auto simp: split_to_input_def)
  moreover have "date_parse (fm_post_date ?st @ ''T11:00:00Z'') = Some (n * ms_per_day + 39600000)"
    using parse_eleven [OF assms(5)] by (simp add: form_tx_settled_def assms(6) no_T_in_date_text [OF assms(5), simplified])
  moreover have "form_payload pow ?st (n * ms_per_day + 39600000)
      = \<lparr>cr_custom_id = tx_custom_id tx, cr_post_date = date_text n @ ''T11:00:00.000Z'',
         cr_description = tx_description tx, cr_splits = map echo_split (tx_splits tx)\<rparr>"
    unfolding form_payload_def vs
    using ps assms(1,2) by (simp add: toISOString_eleven) (simp add: form_tx_settled_def)
  ultimately show ?thesis
    using assms(1,2) by (simp add: handleSubmit_accept form_call_def)
qed

definition sample_tx :: transaction where
  "sample_tx =
     (let mk = (\<lambda>g a v. \<lparr>sp_guid = g, sp_tx = ''t'', sp_account = a, sp_memo = ''m'',
        sp_value_num = num_of_int v, sp_value_denom = num_of_int 100,
        sp_quantity_num = num_of_int v, sp_quantity_denom = num_of_int 100,
        sp_state = ''n'', sp_account_name = None\<rparr>)
      in \<lparr>tx_guid = ''t'', tx_custom_id = ''7'', tx_post_date = ''2024-02-26T11:00:00Z'',
          tx_enter_date = ''2024-02-26T11:00:00Z'', tx_description = ''rent'', tx_metadata = [], tx_version = num_of_int 1,
          tx_splits = [mk ''s'' ''a'' 123457, mk ''u'' ''b'' (- 123457)]\<rparr>)"

definition sample_props :: form_props where
  "sample_props = \<lparr>fp_default = None, fp_edit = Some ''t'', fp_duplicate = None\<rparr>"

lemma sample_tx_facts:
  "tx_splits sample_tx \<noteq> []" "\<forall>s\<in>set (tx_splits sample_tx). sp_account s \<noteq> [] \<and> cent_split s"
  "tx_post_date sample_tx = date_text 19779 @ ''T'' @ ''11:00:00Z''"
proof -
  have "date_text 19779 = ''2024-02-26''" by code_simp
  then show "tx_splits sample_tx \<noteq> []" "tx_post_date sample_tx = date_text 19779 @ ''T'' @ ''11:00:00Z''"
    by (simp_all add: sample_tx_def Let_def)
  show "\<forall>s\<in>set (tx_splits sample_tx). sp_account s \<noteq> [] \<and> cent_split s"
    by (auto simp: sample_tx_def Let_def cent_split_def intro: exI [of _ 123457] exI [of _ "- 123457"])
qed

theorem edit_round_trip_witness:
  "snd (handleSubmit (\<lambda>x y. NaN) ''en'' sample_props
      (form_tx_settled sample_props (Inr sample_tx) (form_init 0 sample_props)))
   = Some (UpdateTx ''t'' \<lparr>cr_custom_id = ''7'', cr_post_date = ''2024-02-26T11:00:00.000Z'',
       cr_description = ''rent'', cr_splits = map echo_split (tx_splits sample_tx)\<rparr>)"
proof -
  have "date_text 19779 = ''2024-02-26''" by code_simp
  then show ?thesis
    using edit_round_trip [OF _ _ sample_tx_facts(1,2) _ sample_tx_facts(3), of sample_props "''t''"
        "\<lambda>x y. NaN" "''en''" "form_init 0 sample_props"]
    by (simp add: sample_props_def four_digit_day_def) (simp add: sample_tx_def Let_def)
qed

text \<open>
  Leaving an amount field of a transaction that was just loaded changes nothing: the field's
  arithmetic is the identity on the texts the form writes.
\<close>

theorem blur_keeps_loaded:
  assumes "\<forall>s\<in>set (tx_splits tx). cent_split s" and "i < length (tx_splits tx)"
  shows "handleAmountBlur pow i (form_tx_settled p (Inr tx) st) = form_tx_settled p (Inr tx) st"
proof -
  have "cent_split (tx_splits tx ! i)" using assms by simp
  then obtain n where "\<bar>n\<bar> \<le> 2 ^ 50" "split_amount (tx_splits tx ! i) = cents n"
    using cent_split_amount by blast
  then show ?thesis
    using assms(2)
    by (simp add: handleAmountBlur_def form_tx_settled_def split_to_input_def Let_def
        evaluateMath_cents [of n])
qed

theorem blur_keeps_loaded_witness:
  "handleAmountBlur (\<lambda>x y. NaN) 1 (form_tx_settled sample_props (Inr sample_tx) (form_init 0 sample_props))
   = form_tx_settled sample_props (Inr sample_tx) (form_init 0 sample_props)"
  using blur_keeps_loaded [of sample_tx 1 "\<lambda>x y. NaN" sample_props "form_init 0 sample_props"]
    sample_tx_facts(2)
  by (simp add: sample_tx_def Let_def)

text \<open>
  C6. With two splits of which the other is empty or mirrors this one, entering any finite
  amount makes the other split follow so that the total is exactly zero and the form shows the
  transaction as balanced, whatever the rounding of the amount.
\<close>

theorem auto_balance_total:
  assumes "length (fm_splits st) = 2" and "i < 2"
    and "follows (si_amount (fm_splits st ! i)) (si_amount (fm_splits st ! other_of i))"
    and "is_finite (read_amount v)"
  shows "form_total (fm_splits (updateSplit i FAmount v st)) = zero
    \<and> form_balanced (fm_splits (updateSplit i FAmount v st))"
proof -
  have "num_less (num_abs zero) (num_of (5 / 1000))" by code_simp
  with auto_balance [OF assms] show ?thesis by (simp add: form_balanced_def)
qed

theorem auto_balance_total_witness:
  "form_total (fm_splits (updateSplit 0 FAmount ''0,1'' (form_init 0 sample_props))) = zero
    \<and> form_balanced (fm_splits (updateSplit 0 FAmount ''0,1'' (form_init 0 sample_props)))"
proof (rule auto_balance_total)
  show "is_finite (read_amount ''0,1'')" by code_simp
qed (simp_all add: form_init_def follows_def empty_split_def sample_props_def other_of_def)

text \<open>
  C7. What reaches the server has been validated: there is at least one split, every split has
  an account and an amount that is a number, sent in hundredths; the call is an update exactly
  when a transaction is being edited; and the form is busy with no error shown.
\<close>

theorem submit_validated:
  assumes "handleSubmit pow lang p st = (st', Some call)"
  shows "\<exists>req. call = (if truthy (fp_edit p) then UpdateTx (the (fp_edit p)) req else CreateTx req)
    \<and> cr_splits req \<noteq> [] \<and> fm_loading st' \<and> fm_error st' = None
    \<and> length (cr_splits req) = length (validSplits (fm_splits st))
    \<and> (\<forall>r\<in>set (cr_splits req). rs_account r \<noteq> [] \<and> \<not> is_nan (rs_value_num r)
          \<and> rs_value_denom r = num_of_int 100 \<and> rs_quantity_num r = rs_value_num r)"
proof -
  have ok: "submittable pow st" and dp: "date_parse (fm_post_date st @ ''T11:00:00Z'') \<noteq> None"
    using assms handleSubmit_reject [of pow st lang p] by force+
  from dp obtain ms where ms: "date_parse (fm_post_date st @ ''T11:00:00Z'') = Some ms" by blast
  note acc = handleSubmit_accept [OF ok ms, of lang p]
  have nan: "\<not> is_nan x \<Longrightarrow> \<not> is_nan (math_round (num_mul x (num_of_int 100)))" for x
    by (cases x) (auto simp: num_of_int_100 num_of_mag_def Let_def)
  have r: "rs_account (the (parse_split pow s)) \<noteq> [] \<and> \<not> is_nan (rs_value_num (the (parse_split pow s)))
      \<and> rs_value_denom (the (parse_split pow s)) = num_of_int 100
      \<and> rs_quantity_num (the (parse_split pow s)) = rs_value_num (the (parse_split pow s))"
    if "s \<in> set (validSplits (fm_splits st))" for s
    using ok that nan by (auto simp: submittable_def parse_split_def Let_def split: if_splits)
  show ?thesis
    using assms acc ok r
    by (intro exI [of _ "form_payload pow st ms"])
      (auto simp: form_call_def form_payload_def submittable_def)
qed

definition sample_state :: form_state where
  "sample_state = form_tx_settled sample_props (Inr sample_tx) (form_init 0 sample_props)"

lemma sample_submits:
  "\<exists>st' call. handleSubmit (\<lambda>x y. NaN) ''en'' sample_props sample_state = (st', Some call)"
proof -
  have n: "four_digit_day 19779" by (simp add: four_digit_day_def)
  have "date_parse (fm_post_date sample_state @ ''T11:00:00Z'') = Some (19779 * ms_per_day + 39600000)"
    using parse_eleven [OF n] no_T_in_date_text [OF n, of "''11:00:00Z''"]
    by (simp add: sample_state_def form_tx_settled_def sample_tx_facts(3))
  moreover have "submittable (\<lambda>x y. NaN) sample_state"
    using sample_tx_facts(1,2) parse_split_loaded
    by (auto simp: sample_state_def submittable_def form_tx_settled_def validSplits_loaded split_to_input_def)
  ultimately show ?thesis using handleSubmit_accept by blast
qed

theorem submit_validated_witness:
  "\<exists>st' req. handleSubmit (\<lambda>x y. NaN) ''en'' sample_props sample_state = (st', Some (UpdateTx ''t'' req))
    \<and> cr_splits req \<noteq> []"
proof -
  obtain st' call where c: "handleSubmit (\<lambda>x y. NaN) ''en'' sample_props sample_state = (st', Some call)"
    using sample_submits by blast
  show ?thesis using submit_validated [OF c] c by (auto simp: sample_props_def)
qed

text \<open>
  A submission either calls the server or shows an error, never both and never neither.
\<close>

theorem submit_calls_or_reports:
  "(snd (handleSubmit pow lang p st) = None) = (fm_error (fst (handleSubmit pow lang p st)) \<noteq> None)"
proof (cases "submittable pow st \<and> date_parse (fm_post_date st @ ''T11:00:00Z'') \<noteq> None")
  case True
  then show ?thesis using handleSubmit_accept by fastforce
next
  case False
  then show ?thesis using handleSubmit_reject [of pow st lang p] by auto
qed

text \<open>
  From the moment a submission calls the server until the call settles, the submit button
  stays disabled whatever the user edits; afterwards it is enabled again, so that no second
  submission can overlap the first and none is lost.
\<close>

theorem submit_not_reentrant:
  assumes "handleSubmit pow lang p st = (st', Some call)"
  shows "\<not> submit_enabled (fold (form_edit pow) evs st')
    \<and> submit_enabled (fst (submit_settled lang res (fold (form_edit pow) evs st')))"
  using submission.busy_while_pending [OF assms] submission.finish_idle
  by (simp add: submit_enabled_def)

theorem submit_not_reentrant_witness:
  "\<exists>st'. \<not> submit_enabled (form_edit (\<lambda>x y. NaN) AddSplit st')
    \<and> submit_enabled (fst (submit_settled ''en'' (Inl Thrown) (form_edit (\<lambda>x y. NaN) AddSplit st')))"
proof -
  obtain st' call where c: "handleSubmit (\<lambda>x y. NaN) ''en'' sample_props sample_state = (st', Some call)"
    using sample_submits by blast
  show ?thesis using submit_not_reentrant [OF c, of "[AddSplit]" "Inl Thrown"] by auto
qed

text \<open>
  Amounts are read with the syntax of JavaScript expressions: a leading zero makes a literal
  octal, letters are dropped before evaluation, and a comma is a decimal point.
\<close>

theorem amount_surprises:
  "evaluateMath pow ''010'' = ''8'' \<and> evaluateMath pow ''1e3'' = ''13'' \<and> evaluateMath pow ''1,000'' = ''1''"
proof -
  have js: "js_eval pow ''(010)'' = Some (JNum (num_of 8))" "js_eval pow ''(13)'' = Some (JNum (num_of 13))"
    "js_eval pow ''(1.000)'' = Some (JNum (num_of 1))" by code_simp+
  have "sanitize ''010'' = ''010''" "sanitize ''1e3'' = ''13''" "sanitize ''1,000'' = ''1.000''" by code_simp+
  moreover have "num_to_string (parse_float (to_fixed2 (num_of 8))) = ''8''"
    "num_to_string (parse_float (to_fixed2 (num_of 13))) = ''13''"
    "num_to_string (parse_float (to_fixed2 (num_of 1))) = ''1''"
    "is_finite (num_of 8)" "is_finite (num_of 13)" "is_finite (num_of 1)" by code_simp+
  ultimately show ?thesis using js by (simp add: evaluateMath_def)
qed

end
