(* ===== verification/RegisterUtils.thy ===== *)
theory RegisterUtils
  imports Types JsDate
begin

text \<open>
  The pure helpers of the account register: the order of entries
  (\<^verbatim>\<open>utils/registerSort.ts\<close>), text search (\<^verbatim>\<open>utils/registerSearch.ts\<close>) and
  the decision to synchronise a bank on opening (\<^verbatim>\<open>utils/plaidSync.ts\<close>). The collation
  behind \<^verbatim>\<open>localeCompare\<close> and the calendar day of a time in the user's time zone
  belong to the host: the parameters \<open>coll\<close> and \<open>day_of\<close>.
\<close>

section \<open>Order of entries\<close>

definition compareEntries :: "(string \<Rightarrow> string \<Rightarrow> int) \<Rightarrow> register_entry \<Rightarrow> register_entry \<Rightarrow> int" where
  "compareEntries coll a b =
     (if re_post_date a < re_post_date b then -1
      else if re_post_date a > re_post_date b then 1
      else coll (re_custom_id a) (re_custom_id b))"

text \<open>\<^verbatim>\<open>[...entries].sort(compareEntries)\<close>\<close>

definition sort_entries :: "(string \<Rightarrow> string \<Rightarrow> int) \<Rightarrow> register_entry list \<Rightarrow> register_entry list" where
  "sort_entries coll es = sort_by (\<lambda>a b. 0 < compareEntries coll a b) es"

section \<open>Search\<close>

definition entryHaystack :: "register_entry \<Rightarrow> string" where
  "entryHaystack e =
     (let amount = (case re_deposit e of Some d \<Rightarrow> Some d | None \<Rightarrow> re_withdrawal e);
          amountStr = (case amount of Some a \<Rightarrow> to_fixed2 (num_abs a) | None \<Rightarrow> [])
      in to_lower (js_join '' '' (filter (\<lambda>s. s \<noteq> [])
           [re_description e, re_transfer e, re_memo e, re_custom_id e, amountStr])))"

definition tokenize :: "string \<Rightarrow> string list" where
  "tokenize query = js_words (to_lower query)"

definition matchesTokens :: "register_entry \<Rightarrow> string list \<Rightarrow> bool" where
  "matchesTokens e tokens =
     (if tokens = [] then True
      else (let haystack = entryHaystack e in list_all (\<lambda>token. str_includes haystack token) tokens))"

definition entryMatchesQuery :: "register_entry \<Rightarrow> string \<Rightarrow> bool" where
  "entryMatchesQuery e query = matchesTokens e (tokenize query)"

definition filterRegisterEntries :: "register_entry list \<Rightarrow> string \<Rightarrow> register_entry list" where
  "filterRegisterEntries entries query =
     (let tokens = tokenize query
      in if tokens = [] then entries else filter (\<lambda>e. matchesTokens e tokens) entries)"

section \<open>Synchronising on opening\<close>

record plaid_meta =
  pm_item :: "string option"
  pm_last_synced :: "string option"
  pm_institution :: "string option"

definition sync_day :: "(int \<Rightarrow> string) \<Rightarrow> string \<Rightarrow> string" where
  "sync_day day_of s = (case date_parse s of Some ms \<Rightarrow> day_of ms | None \<Rightarrow> ''Invalid Date'')"

definition shouldAutoSyncToday :: "(int \<Rightarrow> string) \<Rightarrow> int \<Rightarrow> plaid_meta option \<Rightarrow> bool" where
  "shouldAutoSyncToday day_of now meta =
     (case meta of
        None \<Rightarrow> False
      | Some m \<Rightarrow>
          if \<not> truthy (pm_item m) then False
          else (let today = day_of now;
                    lastSynced = (if truthy (pm_last_synced m) then Some (sync_day day_of (the (pm_last_synced m)))
                                  else None)
                in \<not> truthy lastSynced \<or> the lastSynced < today))"

section \<open>Facts about searching\<close>

lemma str_includes_iff: "str_includes h n \<longleftrightarrow> (\<exists>a b. h = a @ n @ b)"
proof (induction h n rule: str_includes.induct)
  case (2 c h n)
  have "(\<exists>a b. c # h = a @ n @ b) \<longleftrightarrow> prefix n (c # h) \<or> (\<exists>a b. h = a @ n @ b)"
    by (auto simp: prefix_def Cons_eq_append_conv)
  with 2 show ?case by simp
qed auto

lemma split_words_snoc_space:
  "is_space c \<Longrightarrow> split_words (u @ c # v) acc = split_words u acc @ split_words v []"
  by (induction u acc rule: split_words.induct) auto

lemma js_words_append: "is_space c \<Longrightarrow> js_words (u @ c # v) = js_words u @ js_words v"
  by (simp add: js_words_def split_words_snoc_space)

lemma split_words_infix: "w \<in> set (split_words s acc) \<Longrightarrow> \<exists>a b. acc @ s = a @ w @ b"
proof (induction s acc rule: split_words.induct)
  case (1 acc)
  then show ?case by (auto split: if_splits intro: exI [of _ "[]"])
next
  case (2 c s acc)
  show ?case
  proof (cases "is_space c")
    case True
    with 2 consider "w = acc" | "w \<in> set (split_words s [])" by (auto split: if_splits)
    then show ?thesis
    proof cases
      case 1
      then show ?thesis by (auto intro: exI [of _ "[]"])
    next
      case 2
      then obtain a b where "s = a @ w @ b" using 2(1) True "2.IH" "2.prems" by (auto split: if_splits)
      then show ?thesis by (metis append_Cons append_assoc)
    qed
  next
    case False
    with 2 show ?thesis by auto
  qed
qed

lemma js_words_infix: "w \<in> set (js_words s) \<Longrightarrow> str_includes s w"
  using split_words_infix [of w s "[]"] by (simp add: js_words_def str_includes_iff)

lemma js_join_infix: "x \<in> set xs \<Longrightarrow> \<exists>a b. js_join sep xs = a @ x @ b"
proof (induction sep xs rule: js_join.induct)
  case (2 sep y)
  then have "js_join sep [y] = [] @ x @ []" by simp
  then show ?case by blast
next
  case (3 sep y z zs)
  show ?case
  proof (cases "x = y")
    case True
    then have "js_join sep (y # z # zs) = [] @ x @ (sep @ js_join sep (z # zs))" by simp
    then show ?thesis by blast
  next
    case False
    with 3 obtain a b where "js_join sep (z # zs) = a @ x @ b" by auto
    then have "js_join sep (y # z # zs) = (y @ sep @ a) @ x @ b" by simp
    then show ?thesis by blast
  qed
qed simp

lemma str_includes_trans: "str_includes h m \<Longrightarrow> str_includes m n \<Longrightarrow> str_includes h n"
  unfolding str_includes_iff by (metis append_assoc)

lemma str_includes_lower: "str_includes h n \<Longrightarrow> str_includes (to_lower h) (to_lower n)"
  unfolding str_includes_iff to_lower_def by (metis map_append)

lemma lower_code: "lower_char (lower_char c) = lower_char c"
proof -
  have "code c < 256" "0 \<le> code c" unfolding code_def by (simp_all add: of_char_def)
  then show ?thesis by (auto simp: lower_char_def Let_def)
qed

lemma to_lower_idem [simp]: "to_lower (to_lower s) = to_lower s"
  by (simp add: to_lower_def lower_code)

lemma matchesTokens_iff: "matchesTokens e ts \<longleftrightarrow> (\<forall>w\<in>set ts. str_includes (entryHaystack e) w)"
  by (auto simp: matchesTokens_def Let_def list_all_iff)

lemma filter_eq_matches: "filterRegisterEntries es q = filter (\<lambda>e. entryMatchesQuery e q) es"
  by (auto simp: filterRegisterEntries_def entryMatchesQuery_def Let_def matchesTokens_def intro!: filter_True [symmetric])

lemma tokenize_space: "tokenize (u @ '' '' @ v) = tokenize u @ tokenize v"
proof -
  have "lower_char (CHR '' '') = CHR '' ''" "is_space (CHR '' '')" by code_simp+
  then show ?thesis by (simp add: tokenize_def to_lower_def js_words_append)
qed

section \<open>Properties\<close>

lemma entries_comparator:
  assumes "comparator (\<lambda>x y. 0 < coll x y) (\<lambda>_. True)"
  shows "comparator (\<lambda>a b. 0 < compareEntries coll a b) (\<lambda>_. True)"
proof -
  have asym: "0 < coll x y \<Longrightarrow> 0 < coll y x \<Longrightarrow> False" for x y
    using comparator.asym [OF assms, of x y] by simp
  have trans: "\<not> 0 < coll x y \<Longrightarrow> \<not> 0 < coll y z \<Longrightarrow> 0 < coll x z \<Longrightarrow> False" for x y z
    using comparator.le_trans [OF assms, of x y z] by simp
  show ?thesis
    by unfold_locales (auto simp: compareEntries_def split: if_splits dest: asym trans)
qed

definition code_unit_order :: "string \<Rightarrow> string \<Rightarrow> int" where
  "code_unit_order x y = (if x < y then -1 else if y < x then 1 else 0)"

lemma code_unit_comparator: "comparator (\<lambda>x y. 0 < code_unit_order x y) (\<lambda>_. True)"
  by unfold_locales (auto simp: code_unit_order_def split: if_splits)

text \<open>
  C12. Sorting the register, for any collation that is a consistent comparator, keeps exactly the
  entries, puts them in the order of their dates and, among equal dates, of their ids, keeps
  entries that compare equal in their previous order, and changes nothing the second time.
\<close>

theorem register_order:
  assumes "comparator (\<lambda>x y. 0 < coll x y) (\<lambda>_. True)"
  shows "mset (sort_entries coll es) = mset es
    \<and> sorted_wrt (\<lambda>a b. re_post_date a \<le> re_post_date b
        \<and> (re_post_date a = re_post_date b \<longrightarrow> coll (re_custom_id a) (re_custom_id b) \<le> 0)) (sort_entries coll es)
    \<and> filter (\<lambda>y. compareEntries coll k y \<le> 0 \<and> compareEntries coll y k \<le> 0) (sort_entries coll es)
      = filter (\<lambda>y. compareEntries coll k y \<le> 0 \<and> compareEntries coll y k \<le> 0) es
    \<and> sort_entries coll (sort_entries coll es) = sort_entries coll es"
proof -
  note c = entries_comparator [OF assms]
  have "sorted_wrt (\<lambda>a b. \<not> 0 < compareEntries coll a b) (sort_entries coll es)"
    unfolding sort_entries_def by (rule comparator.sorted_sort_by [OF c]) simp
  then have "sorted_wrt (\<lambda>a b. re_post_date a \<le> re_post_date b
      \<and> (re_post_date a = re_post_date b \<longrightarrow> coll (re_custom_id a) (re_custom_id b) \<le> 0)) (sort_entries coll es)"
    by (rule sorted_wrt_mono_rel [rotated]) (auto simp: compareEntries_def not_less split: if_splits)
  then show ?thesis
    using comparator.stable_sort_by [OF c, of es k] comparator.sort_by_idem [OF c, of es]
    by (simp add: sort_entries_def not_less)
qed

definition sample_entry :: "string \<Rightarrow> string \<Rightarrow> register_entry" where
  "sample_entry d i =
     \<lparr>re_tx = i, re_custom_id = i, re_post_date = d, re_description = ''Rent'', re_transfer = ''Bank'',
      re_transfer_guid = ''b'', re_deposit = Some (num_of_int 5), re_withdrawal = None,
      re_balance = zero, re_memo = [], re_split = i, re_state = ''n''\<rparr>"

definition sample_bank :: account where
  "sample_bank =
     \<lparr>acc_guid = ''a'', acc_name = ''Bank'', acc_type = BANK, acc_parent = None, acc_placeholder = False,
      acc_description = [], acc_metadata = [], acc_version = zero, acc_balance = zero, acc_reconciled = zero,
      acc_agg_balance = None, acc_agg_reconciled = None, acc_last_reconciled = None\<rparr>"

theorem register_order_witness:
  "let es = [sample_entry ''2024-02'' ''1'', sample_entry ''2024-01'' ''2'']; sorted = sort_entries code_unit_order es
   in mset sorted = mset es \<and> sort_entries code_unit_order sorted = sorted
     \<and> sorted_wrt (\<lambda>a b. re_post_date a \<le> re_post_date b) sorted"
proof -
  let ?es = "[sample_entry ''2024-02'' ''1'', sample_entry ''2024-01'' ''2'']"
  note o = register_order [OF code_unit_comparator, of ?es]
  have "sorted_wrt (\<lambda>a b. re_post_date a \<le> re_post_date b) (sort_entries code_unit_order ?es)"
    by (rule sorted_wrt_mono_rel [OF _ o [THEN conjunct2, THEN conjunct1]]) blast
  with o show ?thesis by (simp add: Let_def)
qed

text \<open>
  Search terms combine with AND and in any split: filtering by two queries joined with a
  space is filtering by the second what the first left, and letter case does not matter.
\<close>

theorem search_conjunction:
  "filterRegisterEntries es (u @ '' '' @ v) = filterRegisterEntries (filterRegisterEntries es u) v
    \<and> filterRegisterEntries es (to_lower u) = filterRegisterEntries es u"
proof -
  have "entryMatchesQuery e (u @ '' '' @ v) = (entryMatchesQuery e u \<and> entryMatchesQuery e v)" for e
    by (auto simp: entryMatchesQuery_def matchesTokens_iff tokenize_space [simplified])
  moreover have "tokenize (to_lower u) = tokenize u" by (simp add: tokenize_def)
  ultimately show ?thesis
    by (simp add: filter_eq_matches entryMatchesQuery_def conj_commute)
qed

text \<open>
  An entry is found by its own description, transfer account, memo or id, and by any part
  of them, however many words the part has.
\<close>

theorem search_finds_field:
  assumes "f \<in> {re_description e, re_transfer e, re_memo e, re_custom_id e}" and "str_includes f q"
  shows "e \<in> set (filterRegisterEntries (es @ [e]) q)"
proof -
  have hay: "f = [] \<or> str_includes (entryHaystack e) (to_lower f)"
  proof (cases "f = []")
    case False
    let ?amount = "case (case re_deposit e of Some d \<Rightarrow> Some d | None \<Rightarrow> re_withdrawal e) of
        Some a \<Rightarrow> to_fixed2 (num_abs a) | None \<Rightarrow> []"
    let ?fs = "filter (\<lambda>s. s \<noteq> []) [re_description e, re_transfer e, re_memo e, re_custom_id e, ?amount]"
    have "f \<in> set ?fs" using assms(1) False by auto
    then have "str_includes (js_join '' '' ?fs) f" unfolding str_includes_iff by (rule js_join_infix)
    then show ?thesis unfolding entryHaystack_def Let_def by (intro disjI2 str_includes_lower)
  qed simp
  have "str_includes (entryHaystack e) w" if w: "w \<in> set (tokenize q)" for w
  proof -
    have "str_includes (to_lower q) w" using w by (simp add: tokenize_def js_words_infix)
    then have "str_includes (to_lower f) w"
      using str_includes_trans [OF str_includes_lower [OF assms(2)]] by blast
    then show ?thesis
      using hay str_includes_trans by (cases "f = []") (auto simp: to_lower_def str_includes_iff)
  qed
  then show ?thesis by (simp add: filter_eq_matches entryMatchesQuery_def matchesTokens_iff)
qed

theorem search_finds_field_witness:
  "sample_entry ''2024-01'' ''2'' \<in> set (filterRegisterEntries ([] @ [sample_entry ''2024-01'' ''2'']) ''en'')"
  by (rule search_finds_field [of "''Rent''"]) (simp_all add: sample_entry_def)

end
