(* ===== verification/DateOrder.thy ===== *)
theory DateOrder
  imports DateShortcut RegisterUtils
begin

text \<open>
  The components compare dates as text. For four-digit years the text order of
  \<^verbatim>\<open>YYYY-MM-DD\<close> is the order of the days.
\<close>

lemma append_less_iff:
  "length s = length t \<Longrightarrow> (s @ u < t @ v) \<longleftrightarrow> (s < t \<or> s = t \<and> (u :: string) < v)"
  by (induction s t rule: list_induct2) auto

lemma char_less_code: "c < d \<longleftrightarrow> code c < code d"
proof -
  have "(of_char x :: int) = of_nat (of_char x)" for x :: char by (simp only: of_nat_of_char)
  then show ?thesis unfolding less_char_def code_def by simp
qed

lemma digits_val_Cons: "digits_val (c # s) = digit_val c * 10 ^ length s + digits_val s"
  using digits_val_append [of "[c]" s] by simp

lemma digits_less_iff:
  assumes "length s = length t" and "list_all is_digit s" and "list_all is_digit t"
  shows "s < t \<longleftrightarrow> digits_val s < digits_val t"
  using assms
proof (induction s t rule: list_induct2)
  case (Cons c s d t)
  have b: "0 \<le> digits_val s" "digits_val s < 10 ^ length s" "0 \<le> digits_val t" "digits_val t < 10 ^ length s"
    using Cons digits_val_bounds [of s] digits_val_bounds [of t] by auto
  have step: "digit_val x * 10 ^ length s + digits_val u < digit_val y * 10 ^ length s + digits_val v"
    if "digit_val x < digit_val y" "digits_val u < 10 ^ length s" "0 \<le> digits_val v" for x y u v
  proof -
    have "(digit_val x + 1) * 10 ^ length s \<le> digit_val y * 10 ^ length s"
      using that(1) by (intro mult_right_mono) auto
    with that show ?thesis by (simp add: distrib_right)
  qed
  consider "code c < code d" | "code d < code c" | "c = d"
    by (metis char_less_code less_linear)
  then show ?case
  proof cases
    case 1
    then show ?thesis
      using step [of c d s t] b Cons(1) by (simp add: digits_val_Cons char_less_code digit_val_def)
  next
    case 2
    then have "c \<noteq> d" "\<not> c < d" by (auto simp: char_less_code)
    with 2 show ?thesis
      using step [of d c t s] b Cons(1) by (simp add: digits_val_Cons digit_val_def)
  next
    case 3
    with Cons show ?thesis by (simp add: digits_val_Cons)
  qed
qed simp

lemma pad_digits:
  assumes "0 \<le> n" and "n < 10 ^ k" and "1 \<le> k"
  shows "length (pad_start k (CHR ''0'') (dec_digits n)) = k"
    and "list_all is_digit (pad_start k (CHR ''0'') (dec_digits n))"
    and "digits_val (pad_start k (CHR ''0'') (dec_digits n)) = n"
  using length_dec_digits_le [OF assms] dec_digits_all [OF assms(1)] assms(1)
  by (simp_all add: pad_start_def digits_val_append)

lemma pad_less_iff:
  assumes "0 \<le> a" "a < 10 ^ k" "0 \<le> b" "b < 10 ^ k" "1 \<le> k"
  shows "pad_start k (CHR ''0'') (dec_digits a) < pad_start k (CHR ''0'') (dec_digits b) \<longleftrightarrow> a < b"
    and "pad_start k (CHR ''0'') (dec_digits a) = pad_start k (CHR ''0'') (dec_digits b) \<longleftrightarrow> a = b"
proof -
  note a = pad_digits [OF assms(1,2,5)] and b = pad_digits [OF assms(3-5)]
  have l: "length (pad_start k (CHR ''0'') (dec_digits a)) = length (pad_start k (CHR ''0'') (dec_digits b))"
    by (simp only: a b)
  show "pad_start k (CHR ''0'') (dec_digits a) < pad_start k (CHR ''0'') (dec_digits b) \<longleftrightarrow> a < b"
    by (simp only: digits_less_iff [OF l a(2) b(2)] a b)
  show "pad_start k (CHR ''0'') (dec_digits a) = pad_start k (CHR ''0'') (dec_digits b) \<longleftrightarrow> a = b"
    using a(3) b(3) by metis
qed

lemma sum_take_mono:
  assumes "\<forall>x\<in>set xs. 0 \<le> (x :: int)" and "i \<le> j"
  shows "sum_list (take i xs) \<le> sum_list (take j xs)"
proof -
  have "take j xs = take i xs @ take (j - i) (drop i xs)" using assms(2) by (metis le_add_diff_inverse take_add)
  moreover have "0 \<le> sum_list (take (j - i) (drop i xs))"
    using assms(1) by (intro sum_list_nonneg) (auto dest: in_set_takeD in_set_dropD)
  ultimately show ?thesis by simp
qed

lemma month_lengths_nonneg: "\<forall>x\<in>set (month_lengths y). 0 \<le> x"
  by (simp add: month_lengths_def)

text \<open>The calendar order of fields is the order of days.\<close>

lemma civil_mono:
  assumes "civil n = (y, m, d)" and "civil n' = (y', m', d')"
    and "y < y' \<or> y = y' \<and> (m < m' \<or> m = m' \<and> d < d')"
  shows "n < n'"
proof -
  note c = make_day_civil [OF assms(1)] and c' = make_day_civil [OF assms(2)]
  have y: "y = year_from_day n" "y' = year_from_day n'"
    using assms(1,2) by (auto simp: civil_def Let_def split: prod.splits)
  consider "y < y'" | "y = y'" "m < m'" | "y = y'" "m = m'" "d < d'" using assms(3) by blast
  then show ?thesis
  proof cases
    case 1
    then have "day_from_year (y + 1) \<le> day_from_year y'" by (intro day_from_year_mono) simp
    with year_from_day [of n] year_from_day [of n'] show ?thesis unfolding y by linarith
  next
    case 2
    let ?l = "month_lengths y"
    have "nat m < length ?l" using c(2) by (simp add: month_lengths_def nat_less_iff)
    then have "sum_list (take (Suc (nat m)) ?l) = sum_list (take (nat m) ?l) + ?l ! nat m"
      by (simp add: take_Suc_conv_app_nth)
    moreover have "sum_list (take (Suc (nat m)) ?l) \<le> sum_list (take (nat m') ?l)"
      using 2 c(2) month_lengths_nonneg by (intro sum_take_mono) (auto simp: Suc_le_eq)
    moreover have "n = day_from_year y + sum_list (take (nat m) ?l) + d - 1"
      "n' = day_from_year y + sum_list (take (nat m') ?l) + d' - 1"
      using c(1,2) c'(1,2) 2(1) by (simp_all add: make_day_def)
    ultimately show ?thesis using c(3) c'(3) by linarith
  next
    case 3
    with c(1) c'(1) show ?thesis by (simp add: make_day_def Let_def)
  qed
qed

lemma date_text_less_iff:
  assumes "four_digit_day n" and "four_digit_day n'"
  shows "date_text n < date_text n' \<longleftrightarrow> n < n'"
proof -
  obtain y m d y' m' d' where c: "civil n = (y, m, d)" "civil n' = (y', m', d')"
    by (cases "civil n", cases "civil n'") auto
  have b: "0 \<le> y" "y \<le> 9999" "0 \<le> m" "m < 12" "1 \<le> d" "d < 100"
    if "civil k = (y, m, d)" "four_digit_day k" for k y m d
    using four_digit_year [OF that(2)] that(1) make_day_civil(2,3) [OF that(1)] month_lengths_le [of m y]
    by (auto simp: civil_def Let_def split: prod.splits)
  note b1 = b [OF c(1) assms(1)] and b2 = b [OF c(2) assms(2)]
  have lex: "date_text n < date_text n' \<longleftrightarrow> y < y' \<or> y = y' \<and> (m < m' \<or> m = m' \<and> d < d')"
    using b1 b2
    by (simp add: date_text_def c year_text_def pad2_def append_less_iff pad_digits pad_less_iff) arith
  show ?thesis
  proof
    assume "date_text n < date_text n'"
    then show "n < n'" using civil_mono [OF c] lex by blast
  next
    assume l: "n < n'"
    have "\<not> (y' < y \<or> y' = y \<and> (m' < m \<or> m' = m \<and> d' < d))"
      using civil_mono [OF c(2,1)] l by force
    moreover have "(y, m, d) \<noteq> (y', m', d')"
      using make_day_civil(1) [OF c(1)] make_day_civil(1) [OF c(2)] l by auto
    ultimately show "date_text n < date_text n'" unfolding lex by auto
  qed
qed

text \<open>
  C13. On the dates the server sends, the register's order by text is chronological: an entry of an
  earlier day compares before one of a later day, whatever their times and ids.
\<close>

theorem entries_chronological:
  assumes "four_digit_day n" and "four_digit_day n'" and "n < n'"
    and "re_post_date a = date_text n @ u" and "re_post_date b = date_text n' @ v"
  shows "compareEntries coll a b = -1 \<and> compareEntries coll b a = 1"
proof -
  have "re_post_date a < re_post_date b"
    using date_text_parts(1) [OF assms(1)] date_text_parts(1) [OF assms(2)] assms(3)
    by (simp add: assms(4,5) append_less_iff date_text_less_iff [OF assms(1,2)])
  then show ?thesis by (auto simp: compareEntries_def)
qed

theorem entries_chronological_witness:
  "compareEntries (\<lambda>x y. 0) (sample_entry (date_text 19789 @ ''T'') ''9'') (sample_entry (date_text 19790) ''1'') = -1"
  using entries_chronological [of 19789 19790 "sample_entry (date_text 19789 @ ''T'') ''9''" "''T''"
      "sample_entry (date_text 19790) ''1''" "[]" "\<lambda>x y. 0"]
  by (simp add: four_digit_day_def sample_entry_def)

end
