(* ===== verification/AccountTree.thy ===== *)
theory AccountTree
  imports Types I18n
begin

text \<open>
  The chart of accounts (\<^verbatim>\<open>components/AccountTree.tsx\<close>): building the tree from the flat
  list through a map of mutable nodes, aggregating balances, and showing the rows. Nodes are
  shared objects named by their guid, so the node map is an explicit heap. The recursions over
  the finished graph run on fuel; \<open>None\<close> is a recursion deeper than the number of accounts, which
  only a cycle can cause and which the program answers with a stack overflow.
\<close>

section \<open>The node heap\<close>

record tree_node =
  tn_account :: account
  tn_children :: "string list"

type_synonym node_map = "string \<Rightarrow> tree_node option"

definition new_node :: "account \<Rightarrow> tree_node" where
  "new_node a =
     \<lparr>tn_account = a\<lparr>acc_agg_balance := Some (num_or (acc_balance a) zero),
                     acc_agg_reconciled := Some (num_or (acc_reconciled a) zero)\<rparr>,
      tn_children = []\<rparr>"

definition fill_nodes :: "(account \<Rightarrow> tree_node) \<Rightarrow> account list \<Rightarrow> node_map" where
  "fill_nodes mk accounts = fold (\<lambda>a m. m(acc_guid a \<mapsto> mk a)) accounts Map.empty"

text \<open>\<^verbatim>\<open>map.get(parent).children.push(node)\<close>\<close>

definition push_child :: "string \<Rightarrow> string \<Rightarrow> node_map \<Rightarrow> node_map" where
  "push_child p g m =
     (case m p of None \<Rightarrow> m | Some nd \<Rightarrow> m(p \<mapsto> nd\<lparr>tn_children := tn_children nd @ [g]\<rparr>))"

definition link_account :: "account \<Rightarrow> node_map \<times> string list \<Rightarrow> node_map \<times> string list" where
  "link_account a ms =
     (case ms of (m, roots) \<Rightarrow>
        if truthy (acc_parent a) \<and> m (the (acc_parent a)) \<noteq> None
        then (push_child (the (acc_parent a)) (acc_guid a) m, roots)
        else if \<not> truthy (acc_parent a) \<or> acc_type a = ROOT then (m, roots @ [acc_guid a])
        else (m, roots @ [acc_guid a]))"

definition link_accounts :: "(account \<Rightarrow> tree_node) \<Rightarrow> account list \<Rightarrow> node_map \<times> string list" where
  "link_accounts mk accounts = fold link_account accounts (fill_nodes mk accounts, [])"

section \<open>Aggregation\<close>

text \<open>The node with its descendants, and the two sums the recursion returns\<close>

fun aggregate :: "nat \<Rightarrow> node_map \<Rightarrow> string \<Rightarrow> (account_tree \<times> number \<times> number) option" where
  "aggregate 0 m g = None"
| "aggregate (Suc fuel) m g =
     (case m g of
        None \<Rightarrow> None
      | Some nd \<Rightarrow>
          (case those (map (aggregate fuel m) (tn_children nd)) of
             None \<Rightarrow> None
           | Some rs \<Rightarrow>
               (let a = tn_account nd;
                    bal = foldl num_add (num_or (acc_balance a) zero) (map (\<lambda>r. fst (snd r)) rs);
                    recBal = foldl num_add (num_or (acc_reconciled a) zero) (map (\<lambda>r. snd (snd r)) rs)
                in Some (AccNode (a\<lparr>acc_agg_balance := Some bal, acc_agg_reconciled := Some recBal\<rparr>)
                           (Some (map fst rs)), bal, recBal))))"

definition buildTree :: "account list \<Rightarrow> account_tree list option" where
  "buildTree accounts =
     (case link_accounts new_node accounts of
        (m, roots) \<Rightarrow> map_option (map fst) (those (map (aggregate (length accounts) m) roots)))"

fun collectGuids :: "account_tree \<Rightarrow> string list" where
  "collectGuids (AccNode a None) = [acc_guid a]"
| "collectGuids (AccNode a (Some cs)) = acc_guid a # concat (map collectGuids cs)"

section \<open>Rows\<close>

definition expanded_key :: "string \<Rightarrow> string" where
  "expanded_key guid = ''account-expanded-'' @ guid"

text \<open>The initial state of a row's node, and the toggle with its saved copy\<close>

definition initial_expanded :: "storage \<Rightarrow> int \<Rightarrow> string \<Rightarrow> bool" where
  "initial_expanded st depth guid =
     (case st (expanded_key guid) of Some saved \<Rightarrow> saved = ''true'' | None \<Rightarrow> depth < 2)"

definition save_expanded :: "string \<Rightarrow> bool \<Rightarrow> storage \<Rightarrow> storage" where
  "save_expanded guid b st = st(expanded_key guid \<mapsto> (if b then ''true'' else ''false''))"

definition toggleExpanded :: "string \<Rightarrow> bool \<times> storage \<Rightarrow> bool \<times> storage" where
  "toggleExpanded guid s = (case s of (expanded, st) \<Rightarrow> (\<not> expanded, save_expanded guid (\<not> expanded) st))"

datatype tone = Muted | Income | Expense

text \<open>The balance a row shows: negated for credit-normal accounts, with tiny values as zero\<close>

definition final_balance :: "bool \<Rightarrow> account \<Rightarrow> number" where
  "final_balance showReconciled a =
     (let displayBalance = num_or (case (if showReconciled then acc_agg_reconciled a else acc_agg_balance a) of
                               Some x \<Rightarrow> x | None \<Rightarrow> zero) zero;
          displayedValue = (if credit_normal (acc_type a) then num_neg displayBalance else displayBalance)
      in if num_less (num_abs displayedValue) (num_of (5 / 1000)) then zero else displayedValue)"

definition balance_tone :: "bool \<Rightarrow> account \<Rightarrow> tone" where
  "balance_tone showReconciled a =
     (let v = final_balance showReconciled a
      in if v = zero then Muted else if num_le zero v then Income else Expense)"

record tree_row =
  tr_guid :: string
  tr_name :: string
  tr_depth :: int
  tr_toggle :: bool
  tr_badge :: string
  tr_color :: string
  tr_link :: "string option"
  tr_balance :: number
  tr_tone :: tone

text \<open>\<open>expanded\<close> is the state of each mounted row. The top-level node of type root shows only its children.\<close>

fun tree_rows :: "language \<Rightarrow> bool \<Rightarrow> (string \<Rightarrow> bool) \<Rightarrow> int \<Rightarrow> account_tree \<Rightarrow> tree_row list" where
  "tree_rows lang rec expanded depth (AccNode a cs) =
     (let kids = (\<lambda>d. case cs of None \<Rightarrow> [] | Some ts \<Rightarrow> concat (map (tree_rows lang rec expanded d) ts))
      in if acc_type a = ROOT then kids depth
         else \<lparr>tr_guid = acc_guid a, tr_name = acc_name a, tr_depth = depth,
               tr_toggle = (case cs of None \<Rightarrow> False | Some ts \<Rightarrow> ts \<noteq> []),
               tr_badge = t lang (''type.'' @ account_type_name (acc_type a)),
               tr_color = ACCOUNT_TYPE_COLORS (acc_type a),
               tr_link = (if acc_placeholder a then None else Some (''/accounts/'' @ acc_guid a)),
               tr_balance = final_balance rec a, tr_tone = balance_tone rec a\<rparr>
              # (if expanded (acc_guid a) then kids (depth + 1) else []))"

text \<open>The whole table; an empty tree shows a message instead.\<close>

definition account_table ::
  "language \<Rightarrow> bool \<Rightarrow> (string \<Rightarrow> bool) \<Rightarrow> account list \<Rightarrow> (string + string list \<times> tree_row list) option" where
  "account_table lang rec expanded accounts =
     map_option (\<lambda>tree.
       if tree = [] then Inl (t lang ''accounts.noAccounts'')
       else Inr ([t lang ''accounts.lastReconciled'',
                  if rec then t lang ''accounts.reconciledBalance'' else t lang ''register.balance''],
                 concat (map (tree_rows lang rec expanded 0) tree)))
     (buildTree accounts)"

end
