(* ===== verification/AccountForm.thy ===== *)
theory AccountForm
  imports AccountTree
begin

text \<open>
  The account editor (\<^verbatim>\<open>components/AccountForm.tsx\<close>): the flattened tree offered as
  parents, the form's state, and saving. The line-drawing pieces of a row's prefix are the
  constructors of \<open>branch\<close>.
\<close>

section \<open>The list of possible parents\<close>

datatype branch = Corner | Tee | Bar | Gap

record flat_row =
  fr_account :: account
  fr_depth :: int
  fr_prefix :: "branch list"

definition is_root :: "account \<Rightarrow> bool" where
  "is_root a \<longleftrightarrow> acc_type a = ROOT"

definition row_prefix :: "int \<Rightarrow> branch list \<Rightarrow> bool \<Rightarrow> branch list" where
  "row_prefix depth parentPrefix is_last =
     parentPrefix @ (if depth = 0 then [] else if is_last then [Corner] else [Tee])"

definition child_prefix :: "int \<Rightarrow> branch list \<Rightarrow> bool \<Rightarrow> branch list" where
  "child_prefix depth parentPrefix is_last =
     (if depth = 0 then [] else parentPrefix @ (if is_last then [Gap] else [Bar]))"

text \<open>
  The two loops of \<open>flattenAccounts\<close>: the children of root accounts first, at the same depth,
  then the other accounts; an account is the last when no visible one follows it.
\<close>

fun flat_roots :: "int \<Rightarrow> branch list \<Rightarrow> account_tree list \<Rightarrow> flat_row list"
and flat_visible :: "int \<Rightarrow> branch list \<Rightarrow> account_tree list \<Rightarrow> flat_row list" where
  "flat_roots depth p [] = []"
| "flat_roots depth p (AccNode a cs # ts) =
     (if is_root a then (case cs of None \<Rightarrow> [] | Some c \<Rightarrow> flat_roots depth p c @ flat_visible depth p c) else [])
     @ flat_roots depth p ts"
| "flat_visible depth p [] = []"
| "flat_visible depth p (AccNode a cs # ts) =
     (if is_root a then flat_visible depth p ts
      else (let is_last = list_all (\<lambda>x. is_root (node_account x)) ts
            in \<lparr>fr_account = a, fr_depth = depth, fr_prefix = row_prefix depth p is_last\<rparr>
               # (case cs of None \<Rightarrow> []
                  | Some c \<Rightarrow> flat_roots (depth + 1) (child_prefix depth p is_last) c
                             @ flat_visible (depth + 1) (child_prefix depth p is_last) c)
               @ flat_visible depth p ts))"

definition flattenAccounts :: "account_tree list \<Rightarrow> flat_row list" where
  "flattenAccounts ts = flat_roots 0 [] ts @ flat_visible 0 [] ts"

section \<open>The form's own tree\<close>

definition plain_node :: "account \<Rightarrow> tree_node" where
  "plain_node a = \<lparr>tn_account = a, tn_children = []\<rparr>"

text \<open>The object graph below a node; fuel as for the aggregation\<close>

fun plain_tree :: "nat \<Rightarrow> node_map \<Rightarrow> string \<Rightarrow> account_tree option" where
  "plain_tree 0 m g = None"
| "plain_tree (Suc fuel) m g =
     (case m g of None \<Rightarrow> None
      | Some nd \<Rightarrow> map_option (\<lambda>cs. AccNode (tn_account nd) (Some cs))
                    (those (map (plain_tree fuel m) (tn_children nd))))"

definition form_buildTree :: "account list \<Rightarrow> account_tree list option" where
  "form_buildTree accounts =
     (case link_accounts plain_node accounts of
        (m, roots) \<Rightarrow> those (map (plain_tree (length accounts) m) roots))"

text \<open>The choices of the parent field: the value and label pieces of each option\<close>

definition parent_options :: "account list \<Rightarrow> account option \<Rightarrow> (string \<times> branch list \<times> string) list option" where
  "parent_options accounts editing =
     map_option (\<lambda>ts.
       map (\<lambda>f. (acc_guid (fr_account f), fr_prefix f, acc_name (fr_account f)))
         (filter (\<lambda>f. case editing of None \<Rightarrow> True | Some e \<Rightarrow> acc_guid (fr_account f) \<noteq> acc_guid e)
           (flattenAccounts ts)))
     (form_buildTree accounts)"

section \<open>State and saving\<close>

record account_form =
  af_name :: string
  af_description :: string
  af_type :: account_type
  af_parent :: string
  af_placeholder :: bool
  af_error :: "string option"
  af_loading :: bool

definition account_form_init :: "account option \<Rightarrow> account_form" where
  "account_form_init editing =
     (case editing of
        None \<Rightarrow> \<lparr>af_name = [], af_description = [], af_type = BANK, af_parent = [],
                 af_placeholder = False, af_error = None, af_loading = False\<rparr>
      | Some a \<Rightarrow> \<lparr>af_name = acc_name a, af_description = acc_description a, af_type = acc_type a,
                   af_parent = (case acc_parent a of Some p \<Rightarrow> p | None \<Rightarrow> []),
                   af_placeholder = acc_placeholder a, af_error = None, af_loading = False\<rparr>)"

record account_fields =
  fd_name :: string
  fd_type :: account_type
  fd_parent :: "string option"
  fd_placeholder :: bool
  fd_description :: string

datatype account_call = UpdateAccount string account_fields number | CreateAccount account_fields

text \<open>\<^verbatim>\<open>parentGuid || rootAccount?.guid || null\<close>\<close>

definition chosen_parent :: "account list \<Rightarrow> string \<Rightarrow> string option" where
  "chosen_parent accounts parentGuid =
     (if parentGuid \<noteq> [] then Some parentGuid
      else case List.find is_root accounts of
             Some r \<Rightarrow> if acc_guid r \<noteq> [] then Some (acc_guid r) else None
           | None \<Rightarrow> None)"

definition account_submit ::
  "language \<Rightarrow> account list \<Rightarrow> account option \<Rightarrow> account_form \<Rightarrow> account_form \<times> account_call option" where
  "account_submit lang accounts editing st0 =
     (let st = st0\<lparr>af_error := None\<rparr>
      in if js_trim (af_name st) = [] then (st\<lparr>af_error := Some (t lang ''accounts.nameRequired'')\<rparr>, None)
         else (let fields = \<lparr>fd_name = js_trim (af_name st), fd_type = af_type st,
                             fd_parent = chosen_parent accounts (af_parent st),
                             fd_placeholder = af_placeholder st, fd_description = js_trim (af_description st)\<rparr>
               in (st\<lparr>af_loading := True\<rparr>,
                   Some (case editing of
                           Some e \<Rightarrow> UpdateAccount (acc_guid e) fields (acc_version e)
                         | None \<Rightarrow> CreateAccount fields))))"

text \<open>The call settles: \<^verbatim>\<open>onSaved\<close> and \<^verbatim>\<open>onClose\<close> run exactly on success.\<close>

definition account_settled :: "js_error + unit \<Rightarrow> account_form \<Rightarrow> account_form \<times> bool" where
  "account_settled res st =
     (case res of
        Inr _ \<Rightarrow> (st\<lparr>af_loading := False\<rparr>, True)
      | Inl e \<Rightarrow> (st\<lparr>af_error := Some (error_message e ''Error saving account''), af_loading := False\<rparr>, False))"

datatype account_event =
    SetName string
  | SetAccountDescription string
  | SetParent string
  | SetType account_type
  | SetPlaceholder bool

fun account_edit :: "account_event \<Rightarrow> account_form \<Rightarrow> account_form" where
  "account_edit (SetName v) st = st\<lparr>af_name := v\<rparr>"
| "account_edit (SetAccountDescription v) st = st\<lparr>af_description := v\<rparr>"
| "account_edit (SetParent v) st = st\<lparr>af_parent := v\<rparr>"
| "account_edit (SetType ty) st = st\<lparr>af_type := ty\<rparr>"
| "account_edit (SetPlaceholder b) st = st\<lparr>af_placeholder := b\<rparr>"

text \<open>The type buttons, with the colour of the selected one\<close>

definition type_buttons :: "language \<Rightarrow> account_form \<Rightarrow> (account_type \<times> string \<times> string option) list" where
  "type_buttons lang st =
     map (\<lambda>ty. (ty, t lang (''type.'' @ account_type_name ty),
                if af_type st = ty then Some (ACCOUNT_TYPE_COLORS ty) else None)) USER_ACCOUNT_TYPES"

definition account_submit_label :: "language \<Rightarrow> account option \<Rightarrow> account_form \<Rightarrow> string" where
  "account_submit_label lang editing st =
     (if af_loading st then t lang ''common.loading''
      else if editing \<noteq> None then t lang ''accounts.save'' else t lang ''accounts.create'')"

interpretation account_saving: async_handler "account_submit lang accounts editing"
  "\<lambda>res st. fst (account_settled res st)" account_edit af_loading
proof
  fix ev s
  show "af_loading (account_edit ev s) = af_loading s" by (cases ev) simp_all
qed (auto simp: account_submit_def account_settled_def Let_def split: if_splits sum.splits)

end
