(* ===== verification/ParentChain.thy ===== *)
theory ParentChain
  imports Types
begin

text \<open>
  Following parent pointers. A chain leads from an account to one without a parent; chains are
  unique and repeat nothing, which bounds every recursion and loop along parents or children.
\<close>

inductive chain :: "('a \<Rightarrow> 'a option) \<Rightarrow> 'a \<Rightarrow> 'a list \<Rightarrow> bool" for par where
  chain_root: "par g = None \<Longrightarrow> chain par g [g]"
| chain_up: "par g = Some p \<Longrightarrow> chain par p xs \<Longrightarrow> chain par g (g # xs)"

inductive_cases chain_NoneE: "chain par g [x]"
inductive_cases chain_ConsE: "chain par g (x # xs)"
inductive_simps chain_Nil [simp]: "chain par g []"

abbreviation up :: "('a \<Rightarrow> 'a option) \<Rightarrow> 'a \<Rightarrow> 'a \<Rightarrow> bool" where
  "up par \<equiv> (\<lambda>h p. par h = Some p)\<^sup>*\<^sup>*"

lemma chain_unique: "chain par g xs \<Longrightarrow> chain par g ys \<Longrightarrow> xs = ys"
proof (induction arbitrary: ys rule: chain.induct)
  case (chain_root g)
  from chain_root(2,1) show ?case by cases auto
next
  case (chain_up g p xs)
  from chain_up(4,1) chain_up.IH show ?case by cases auto
qed

lemma chain_suffix: "chain par g xs \<Longrightarrow> h \<in> set xs \<Longrightarrow> \<exists>ys zs. chain par h ys \<and> xs = zs @ ys"
proof (induction rule: chain.induct)
  case (chain_root g)
  then show ?case by (intro exI [of _ "[g]"] exI [of _ "[]"]) (auto intro: chain.chain_root)
next
  case (chain_up g p xs)
  show ?case
  proof (cases "h = g")
    case True
    then show ?thesis using chain.chain_up [OF chain_up(1,2)] by (metis append_Nil)
  next
    case False
    with chain_up show ?thesis by (metis append_Cons set_ConsD)
  qed
qed

lemma chain_distinct: "chain par g xs \<Longrightarrow> distinct xs"
proof (induction rule: chain.induct)
  case (chain_up g p xs)
  have "g \<notin> set xs"
  proof
    assume "g \<in> set xs"
    then obtain ys zs where "chain par g ys" "xs = zs @ ys" using chain_suffix [OF chain_up(2)] by blast
    moreover have "ys = g # xs" using chain_unique [OF \<open>chain par g ys\<close> chain.chain_up [OF chain_up(1,2)]] .
    ultimately show False by (metis append_Cons length_append length_Cons not_add_less2 lessI)
  qed
  with chain_up show ?case by simp
qed simp

lemma chain_subset:
  "chain par g xs \<Longrightarrow> g \<in> A \<Longrightarrow> (\<And>h p. par h = Some p \<Longrightarrow> p \<in> A) \<Longrightarrow> set xs \<subseteq> A"
  by (induction rule: chain.induct) auto

lemma chain_bound:
  assumes "chain par g xs" and "g \<in> set gs" and "\<And>h p. par h = Some p \<Longrightarrow> p \<in> set gs"
  shows "length xs \<le> length gs"
proof -
  have "set xs \<subseteq> set gs" using chain_subset [OF assms(1)] assms(2,3) by blast
  then have "card (set xs) \<le> length gs" by (metis List.finite_set card_length card_mono le_trans)
  then show ?thesis using chain_distinct [OF assms(1)] by (simp add: distinct_card)
qed

lemma chain_extend: "up par h g \<Longrightarrow> chain par g xs \<Longrightarrow> \<exists>zs. chain par h (zs @ xs)"
proof (induction rule: converse_rtranclp_induct)
  case base
  then show ?case by (metis append_Nil)
next
  case (step h p)
  then show ?case by (metis append_Cons chain_up)
qed

lemma chain_to_root: "chain par g xs \<Longrightarrow> \<exists>r. up par g r \<and> par r = None"
proof (induction rule: chain.induct)
  case (chain_up g p xs)
  then show ?case by (metis (mono_tags) converse_rtranclp_into_rtranclp)
qed blast

lemma chain_iff_root: "(\<exists>xs. chain par g xs) \<longleftrightarrow> (\<exists>r. up par g r \<and> par r = None)"
  using chain_to_root chain_extend chain_root by metis

text \<open>Siblings have no common descendant.\<close>

lemma siblings_disjoint:
  assumes "up par h c" "up par h d" "chain par c (c # xs)" "chain par d (d # xs)"
  shows "c = d"
proof -
  obtain ys zs where "chain par h (ys @ c # xs)" "chain par h (zs @ d # xs)"
    using chain_extend [OF assms(1,3)] chain_extend [OF assms(2,4)] by blast
  then have "ys @ c # xs = zs @ d # xs" using chain_unique by metis
  then show ?thesis by simp
qed

lemma not_own_ancestor:
  assumes "par c = Some g" and "chain par g xs" shows "\<not> up par g c"
proof
  assume "up par g c"
  moreover have "chain par c (c # xs)" using assms by (rule chain_up)
  ultimately obtain zs where "chain par g (zs @ c # xs)" using chain_extend by metis
  then have "zs @ c # xs = xs" using assms(2) chain_unique by metis
  then show False by (metis append_self_conv2 append_Cons length_append length_Cons not_add_less2 lessI)
qed

end
