(* ===== verification/AccountTreeLaws.thy ===== *)
theory AccountTreeLaws
  imports AccountTree ParentChain
begin

text \<open>
  The account tree holds every account whose parents lead to the top exactly once, under its
  parent and in the order of the list; building it terminates; and every node's aggregate is
  its own balance plus its children's aggregates.
\<close>

section \<open>What linking does\<close>

definition guids :: "account list \<Rightarrow> string set" where
  "guids accounts = acc_guid ` set accounts"

text \<open>The parent an account is linked under, if the list has it\<close>

definition linked :: "account list \<Rightarrow> account \<Rightarrow> string option" where
  "linked accounts a =
     (if truthy (acc_parent a) \<and> the (acc_parent a) \<in> guids accounts then acc_parent a else None)"

definition parent_of :: "account list \<Rightarrow> string \<Rightarrow> string option" where
  "parent_of accounts g =
     (case List.find (\<lambda>a. acc_guid a = g) accounts of Some a \<Rightarrow> linked accounts a | None \<Rightarrow> None)"

definition kids_of :: "account list \<Rightarrow> string \<Rightarrow> string list" where
  "kids_of accounts p = map acc_guid (filter (\<lambda>a. linked accounts a = Some p) accounts)"

definition roots_of :: "account list \<Rightarrow> string list" where
  "roots_of accounts = map acc_guid (filter (\<lambda>a. linked accounts a = None) accounts)"

lemma fill_fold_dom: "dom (fold (\<lambda>a m. m(acc_guid a \<mapsto> mk a)) (xs :: account list) m0) = guids xs \<union> dom m0"
  by (induction xs arbitrary: m0) (auto simp: guids_def)

lemma fill_dom: "dom (fill_nodes mk xs) = guids xs"
  by (simp add: fill_nodes_def fill_fold_dom)

lemma fill_fold_other:
  "g \<notin> guids xs \<Longrightarrow> fold (\<lambda>a m. m(acc_guid a \<mapsto> mk a)) (xs :: account list) m0 g = m0 g"
  by (induction xs arbitrary: m0) (auto simp: guids_def)

lemma fill_fold_distinct:
  "distinct (map acc_guid xs) \<Longrightarrow> a \<in> set xs \<Longrightarrow>
     fold (\<lambda>a m. m(acc_guid a \<mapsto> mk a)) (xs :: account list) m0 (acc_guid a) = Some (mk a)"
proof (induction xs arbitrary: m0)
  case (Cons x xs)
  show ?case
  proof (cases "a = x")
    case True
    with Cons.prems(1) have "acc_guid a \<notin> guids xs" by (auto simp: guids_def)
    with True show ?thesis
      using fill_fold_other [of "acc_guid x" xs mk "m0(acc_guid x \<mapsto> mk x)"]
      by (simp add: fun_upd_same del: fun_upd_apply)
  next
    case False
    with Cons show ?thesis by simp
  qed
qed simp

lemma fill_distinct:
  "distinct (map acc_guid xs) \<Longrightarrow> a \<in> set xs \<Longrightarrow> fill_nodes mk xs (acc_guid a) = Some (mk a)"
  by (simp add: fill_nodes_def fill_fold_distinct)

lemma push_child_at:
  "push_child p g m q =
     (if q = p then map_option (\<lambda>nd. nd\<lparr>tn_children := tn_children nd @ [g]\<rparr>) (m p) else m q)"
  by (auto simp: push_child_def split: option.splits)

lemma push_child_dom [simp]: "dom (push_child p g m) = dom m"
  by (auto simp: push_child_def split: option.splits)

lemma link_fold:
  assumes "dom m = guids accounts"
  shows "fold link_account xs (m, r) =
    ((\<lambda>g. map_option (\<lambda>nd. nd\<lparr>tn_children := tn_children nd
        @ map acc_guid (filter (\<lambda>a. linked accounts a = Some g) xs)\<rparr>) (m g)),
     r @ map acc_guid (filter (\<lambda>a. linked accounts a = None) xs))"
  using assms
proof (induction xs arbitrary: m r)
  case Nil
  then show ?case by (simp add: option.map_ident)
next
  case (Cons x xs)
  show ?case
  proof (cases "linked accounts x")
    case None
    then have "link_account x (m, r) = (m, r @ [acc_guid x])"
      using Cons.prems by (auto simp: link_account_def linked_def dom_def split: if_splits)
    then show ?thesis using Cons None by simp
  next
    case (Some p)
    then have "truthy (acc_parent x)" "the (acc_parent x) = p" "p \<in> guids accounts"
      by (auto simp: linked_def split: if_splits)
    then have l: "link_account x (m, r) = (push_child p (acc_guid x) m, r)"
      using Cons.prems by (auto simp: link_account_def)
    have "fold link_account xs (push_child p (acc_guid x) m, r) =
      ((\<lambda>g. map_option (\<lambda>nd. nd\<lparr>tn_children := tn_children nd
          @ map acc_guid (filter (\<lambda>a. linked accounts a = Some g) xs)\<rparr>) (push_child p (acc_guid x) m g)),
       r @ map acc_guid (filter (\<lambda>a. linked accounts a = None) xs))"
      by (rule Cons.IH) (simp only: push_child_dom Cons.prems)
    then show ?thesis
      using Some by (simp add: l) (auto simp: push_child_at fun_eq_iff option.map_comp comp_def)
  qed
qed

lemma link_accounts_eq:
  "link_accounts mk accounts =
     ((\<lambda>g. map_option (\<lambda>nd. nd\<lparr>tn_children := tn_children nd @ kids_of accounts g\<rparr>) (fill_nodes mk accounts g)),
      roots_of accounts)"
  using link_fold [OF fill_dom [of mk accounts], of accounts "[]"]
  by (simp add: link_accounts_def kids_of_def roots_of_def)

lemma guid_unique:
  "distinct (map acc_guid xs) \<Longrightarrow> a \<in> set xs \<Longrightarrow> b \<in> set xs \<Longrightarrow> acc_guid a = acc_guid b \<Longrightarrow> a = b"
  by (metis distinct_map inj_onD)

lemma parent_of_account:
  assumes "distinct (map acc_guid accounts)" and "a \<in> set accounts"
  shows "parent_of accounts (acc_guid a) = linked accounts a"
proof (cases "List.find (\<lambda>b. acc_guid b = acc_guid a) accounts")
  case None
  with assms(2) show ?thesis by (auto simp: find_None_iff)
next
  case (Some b)
  from find_Some_mem [OF Some] have "b = a" using guid_unique [OF assms(1) _ assms(2)] by blast
  with Some show ?thesis by (simp add: parent_of_def)
qed

lemma parent_of_mem: "parent_of accounts g = Some p \<Longrightarrow> g \<in> guids accounts \<and> p \<in> guids accounts"
proof -
  assume p: "parent_of accounts g = Some p"
  then obtain a where a: "List.find (\<lambda>a. acc_guid a = g) accounts = Some a" "linked accounts a = Some p"
    by (auto simp: parent_of_def split: option.splits)
  from a(2) have "p \<in> guids accounts" by (auto simp: linked_def split: if_splits)
  with find_Some_mem [OF a(1)] show ?thesis by (auto simp: guids_def)
qed

lemma set_kids_of:
  assumes "distinct (map acc_guid accounts)"
  shows "set (kids_of accounts p) = {c. parent_of accounts c = Some p}"
proof -
  have "c \<in> set (kids_of accounts p)" if c: "parent_of accounts c = Some p" for c
  proof -
    obtain a where "a \<in> set accounts" "acc_guid a = c"
      using parent_of_mem [OF c] unfolding guids_def by blast
    with c parent_of_account [OF assms] show ?thesis by (auto simp: kids_of_def)
  qed
  then show ?thesis using parent_of_account [OF assms] by (auto simp: kids_of_def)
qed

lemma distinct_kids: "distinct (map acc_guid accounts) \<Longrightarrow> distinct (kids_of accounts p)"
  unfolding kids_of_def by (rule distinct_map_filter)

lemma set_roots_of:
  assumes "distinct (map acc_guid accounts)"
  shows "set (roots_of accounts) = {g \<in> guids accounts. parent_of accounts g = None}"
  using parent_of_account [OF assms] by (auto simp: roots_of_def guids_def)

lemma distinct_roots: "distinct (map acc_guid accounts) \<Longrightarrow> distinct (roots_of accounts)"
  unfolding roots_of_def by (rule distinct_map_filter)

lemma those_Some_iff: "those (map f xs) = Some ys \<longleftrightarrow> list_all2 (\<lambda>x y. f x = Some y) xs ys"
  by (induction xs arbitrary: ys) (auto simp: list_all2_Cons1 split: option.splits)

lemma those_total: "(\<And>x. x \<in> set xs \<Longrightarrow> f x \<noteq> None) \<Longrightarrow> those (map f xs) \<noteq> None"
  by (induction xs) (auto split: option.splits)

section \<open>The linked heap of a list with distinct guids\<close>

lemma chain_in_tree:
  assumes "chain (parent_of accounts) g xs" and "g \<in> guids accounts"
  shows "length xs \<le> length accounts"
  using chain_bound [OF assms(1), of "map acc_guid accounts"] assms(2) parent_of_mem
  by (simp add: guids_def)

lemma up_guids: "up (parent_of accounts) h g \<Longrightarrow> g \<in> guids accounts \<Longrightarrow> h \<in> guids accounts"
  by (induction rule: converse_rtranclp_induct) (auto dest: parent_of_mem)

lemma up_step_iff: "up par h g \<longleftrightarrow> h = g \<or> (\<exists>c. par c = Some g \<and> up par h c)"
  by (metis (mono_tags, lifting) rtranclp.simps)

lemma heap_at:
  assumes "distinct (map acc_guid accounts)"
  shows "fst (link_accounts mk accounts) g =
    (case List.find (\<lambda>a. acc_guid a = g) accounts of
       None \<Rightarrow> None
     | Some a \<Rightarrow> Some ((mk a)\<lparr>tn_children := tn_children (mk a) @ kids_of accounts g\<rparr>))"
proof (cases "List.find (\<lambda>a. acc_guid a = g) accounts")
  case None
  then have "g \<notin> dom (fill_nodes mk accounts)" by (auto simp: find_None_iff fill_dom guids_def)
  then have "fill_nodes mk accounts g = None" by blast
  with None show ?thesis by (simp add: link_accounts_eq)
next
  case (Some a)
  with find_Some_mem [OF Some] fill_distinct [OF assms, of a mk] show ?thesis
    by (auto simp: link_accounts_eq)
qed

lemma heap_new:
  assumes "distinct (map acc_guid accounts)" and "List.find (\<lambda>a. acc_guid a = g) accounts = Some a"
  shows "fst (link_accounts new_node accounts) g =
    Some \<lparr>tn_account = a\<lparr>acc_agg_balance := Some (num_or (acc_balance a) zero),
                          acc_agg_reconciled := Some (num_or (acc_reconciled a) zero)\<rparr>,
          tn_children = kids_of accounts g\<rparr>"
  by (subst heap_at [OF assms(1)]) (simp add: assms(2) new_node_def)

lemma heap_none:
  assumes "distinct (map acc_guid accounts)" and "List.find (\<lambda>a. acc_guid a = g) accounts = None"
  shows "fst (link_accounts new_node accounts) g = None"
  by (subst heap_at [OF assms(1)]) (simp add: assms(2))

lemma aggregate_total:
  assumes d: "distinct (map acc_guid accounts)"
  shows "chain (parent_of accounts) g xs \<Longrightarrow> g \<in> guids accounts \<Longrightarrow> length accounts < length xs + fuel
    \<Longrightarrow> aggregate fuel (fst (link_accounts new_node accounts)) g \<noteq> None"
proof (induction fuel arbitrary: g xs)
  case 0
  then show ?case using chain_in_tree by fastforce
next
  case (Suc fuel)
  let ?m = "fst (link_accounts new_node accounts)"
  obtain a where a: "List.find (\<lambda>a. acc_guid a = g) accounts = Some a"
    using Suc.prems(2) by (cases "List.find (\<lambda>a. acc_guid a = g) accounts") (auto simp: find_None_iff guids_def)
  have "aggregate fuel ?m c \<noteq> None" if "c \<in> set (kids_of accounts g)" for c
  proof (rule Suc.IH)
    have c: "parent_of accounts c = Some g" using that set_kids_of [OF d] by auto
    then show "chain (parent_of accounts) c (c # xs)" using Suc.prems(1) by (rule chain_up)
    show "c \<in> guids accounts" using parent_of_mem [OF c] by blast
    show "length accounts < length (c # xs) + fuel" using Suc.prems(3) by simp
  qed
  then have "those (map (aggregate fuel ?m) (kids_of accounts g)) \<noteq> None" by (rule those_total)
  then obtain rs where "those (map (aggregate fuel ?m) (kids_of accounts g)) = Some rs" by blast
  then show ?case by (simp add: heap_new [OF d a] Let_def)
qed

text \<open>What a finished recursion returned\<close>

lemma aggregate_result:
  assumes "distinct (map acc_guid accounts)"
    and "aggregate (Suc fuel) (fst (link_accounts new_node accounts)) g = Some (T, b, r)"
  obtains a rs where "a \<in> set accounts" "acc_guid a = g"
    and "list_all2 (\<lambda>c z. aggregate fuel (fst (link_accounts new_node accounts)) c = Some z) (kids_of accounts g) rs"
    and "b = foldl num_add (num_or (acc_balance a) zero) (map (\<lambda>z. fst (snd z)) rs)"
    and "r = foldl num_add (num_or (acc_reconciled a) zero) (map (\<lambda>z. snd (snd z)) rs)"
    and "T = AccNode (a\<lparr>acc_agg_balance := Some b, acc_agg_reconciled := Some r\<rparr>) (Some (map fst rs))"
proof -
  obtain a where a: "List.find (\<lambda>a. acc_guid a = g) accounts = Some a"
    using assms(2) heap_none [OF assms(1)] by fastforce
  obtain rs where rs: "those (map (aggregate fuel (fst (link_accounts new_node accounts))) (kids_of accounts g)) = Some rs"
    using assms(2) by (auto simp: heap_new [OF assms(1) a] split: option.splits)
  show thesis
    using assms(2) rs find_Some_mem [OF a]
    by (intro that [of a rs]) (auto simp: heap_new [OF assms(1) a] Let_def those_Some_iff)
qed

lemma list_all2_set2: "list_all2 P xs ys \<Longrightarrow> y \<in> set ys \<Longrightarrow> \<exists>x\<in>set xs. P x y"
  by (metis in_set_conv_nth list_all2_conv_all_nth)

lemma list_all2_set1: "list_all2 P xs ys \<Longrightarrow> x \<in> set xs \<Longrightarrow> \<exists>y\<in>set ys. P x y"
  by (metis in_set_conv_nth list_all2_conv_all_nth)

lemma list_all2_Union: "list_all2 (\<lambda>c z. F z = D c) cs zs \<Longrightarrow> (\<Union>z\<in>set zs. F z) = (\<Union>c\<in>set cs. D c)"
  by (induction rule: list_all2_induct) auto

lemma collect_set:
  assumes d: "distinct (map acc_guid accounts)"
  shows "aggregate fuel (fst (link_accounts new_node accounts)) g = Some (T, b, r) \<Longrightarrow>
    set (collectGuids T) = {h. up (parent_of accounts) h g}"
proof (induction fuel arbitrary: g T b r)
  case (Suc fuel)
  let ?m = "fst (link_accounts new_node accounts)"
  obtain a rs where a: "acc_guid a = g"
    and rs: "list_all2 (\<lambda>c z. aggregate fuel ?m c = Some z) (kids_of accounts g) rs"
    and T: "T = AccNode (a\<lparr>acc_agg_balance := Some b, acc_agg_reconciled := Some r\<rparr>) (Some (map fst rs))"
    using aggregate_result [OF d Suc.prems] by metis
  have IH: "set (collectGuids (fst z)) = {h. up (parent_of accounts) h c}"
    if "aggregate fuel ?m c = Some z" for c z
    using Suc.IH that by (metis prod.collapse)
  have "(\<Union>z\<in>set rs. set (collectGuids (fst z))) = (\<Union>c\<in>set (kids_of accounts g). {h. up (parent_of accounts) h c})"
    by (rule list_all2_Union, rule list.rel_mono_strong [OF rs]) (rule IH)
  then have "set (collectGuids T) = insert g (\<Union>c\<in>{c. parent_of accounts c = Some g}. {h. up (parent_of accounts) h c})"
    by (simp add: T a set_kids_of [OF d])
  also have "\<dots> = {h. up (parent_of accounts) h g}"
    using up_step_iff [of "parent_of accounts" _ g] by blast
  finally show ?case .
qed simp

lemma distinct_concat_map:
  assumes "list_all2 (\<lambda>c z. set (F z) = D c \<and> distinct (F z)) cs zs" and "distinct cs"
    and "\<And>c d. c \<in> set cs \<Longrightarrow> d \<in> set cs \<Longrightarrow> c \<noteq> d \<Longrightarrow> D c \<inter> D d = {}"
  shows "distinct (concat (map F zs))"
  using assms
proof (induction cs zs rule: list_all2_induct)
  case (Cons c cs z zs)
  have "(\<Union>y\<in>set zs. set (F y)) \<subseteq> (\<Union>d\<in>set cs. D d)"
    using list_all2_set2 [OF Cons.hyps(2)] by fastforce
  moreover have "D c \<inter> (\<Union>d\<in>set cs. D d) = {}"
    using Cons.prems by fastforce
  ultimately have "set (F z) \<inter> (\<Union>y\<in>set zs. set (F y)) = {}" using Cons.hyps(1) by blast
  with Cons show ?case by auto
qed simp

lemma collect_distinct:
  assumes d: "distinct (map acc_guid accounts)"
  shows "aggregate fuel (fst (link_accounts new_node accounts)) g = Some (T, b, r) \<Longrightarrow>
    chain (parent_of accounts) g xs \<Longrightarrow> distinct (collectGuids T)"
proof (induction fuel arbitrary: g T b r xs)
  case (Suc fuel)
  let ?m = "fst (link_accounts new_node accounts)" and ?p = "parent_of accounts"
  obtain a rs where a: "acc_guid a = g"
    and rs: "list_all2 (\<lambda>c z. aggregate fuel ?m c = Some z) (kids_of accounts g) rs"
    and T: "T = AccNode (a\<lparr>acc_agg_balance := Some b, acc_agg_reconciled := Some r\<rparr>) (Some (map fst rs))"
    using aggregate_result [OF d Suc.prems(1)] by metis
  have kid: "?p c = Some g" "chain ?p c (c # xs)" if "c \<in> set (kids_of accounts g)" for c
    using that set_kids_of [OF d] chain_up [OF _ Suc.prems(2)] by auto
  have "set (collectGuids (fst z)) = {h. up ?p h c} \<and> distinct (collectGuids (fst z))"
    if "c \<in> set (kids_of accounts g)" "aggregate fuel ?m c = Some z" for c z
    using that collect_set [OF d] Suc.IH kid(2) by (metis prod.collapse)
  with rs have each: "list_all2 (\<lambda>c z. set (collectGuids (fst z)) = {h. up ?p h c} \<and> distinct (collectGuids (fst z)))
      (kids_of accounts g) rs"
    by (rule list.rel_mono_strong) blast
  have "distinct (concat (map (\<lambda>z. collectGuids (fst z)) rs))"
  proof (rule distinct_concat_map [OF each distinct_kids [OF d]])
    fix c e
    assume "c \<in> set (kids_of accounts g)" "e \<in> set (kids_of accounts g)" "c \<noteq> e"
    then show "{h. up ?p h c} \<inter> {h. up ?p h e} = {}"
      using siblings_disjoint [OF _ _ kid(2) kid(2), of _ c e] by fast
  qed
  moreover have "g \<notin> set (concat (map (\<lambda>z. collectGuids (fst z)) rs))"
  proof
    assume "g \<in> set (concat (map (\<lambda>z. collectGuids (fst z)) rs))"
    then obtain c where "c \<in> set (kids_of accounts g)" "up ?p g c"
      using list_all2_set2 [OF each] by fastforce
    then show False using kid(1) not_own_ancestor [OF _ Suc.prems(2)] by blast
  qed
  ultimately show ?case by (simp add: T a comp_def)
qed simp

section \<open>The whole tree\<close>

lemma buildTree_Some:
  "buildTree accounts = Some ts \<longleftrightarrow>
     (\<exists>rs. list_all2 (\<lambda>g z. aggregate (length accounts) (fst (link_accounts new_node accounts)) g = Some z)
             (roots_of accounts) rs \<and> ts = map fst rs)"
  by (auto simp: buildTree_def link_accounts_eq those_Some_iff)

lemma root_chain:
  "distinct (map acc_guid accounts) \<Longrightarrow> g \<in> set (roots_of accounts) \<Longrightarrow>
     chain (parent_of accounts) g [g] \<and> g \<in> guids accounts"
  by (simp add: set_roots_of chain_root)

lemma buildTree_total:
  assumes "distinct (map acc_guid accounts)"
  shows "buildTree accounts \<noteq> None"
proof -
  have "aggregate (length accounts) (fst (link_accounts new_node accounts)) g \<noteq> None"
    if "g \<in> set (roots_of accounts)" for g
    using aggregate_total [OF assms, of g "[g]"] root_chain [OF assms that] by simp
  then have "those (map (aggregate (length accounts) (fst (link_accounts new_node accounts))) (roots_of accounts)) \<noteq> None"
    by (rule those_total)
  then show ?thesis by (auto simp: buildTree_def link_accounts_eq)
qed

text \<open>
  Every node is an account of the list whose children are, in the order of the list, the
  accounts linked under it, and whose aggregates add its own balances and its children's.
\<close>

definition agg_of :: "account_tree \<Rightarrow> number" where
  "agg_of T = (case acc_agg_balance (node_account T) of Some x \<Rightarrow> x | None \<Rightarrow> zero)"

definition rec_of :: "account_tree \<Rightarrow> number" where
  "rec_of T = (case acc_agg_reconciled (node_account T) of Some x \<Rightarrow> x | None \<Rightarrow> zero)"

fun well_shaped :: "account list \<Rightarrow> account_tree \<Rightarrow> bool" where
  "well_shaped accounts (AccNode a None) = False"
| "well_shaped accounts (AccNode a (Some cs)) =
     ((\<exists>x\<in>set accounts. a = x\<lparr>acc_agg_balance := acc_agg_balance a, acc_agg_reconciled := acc_agg_reconciled a\<rparr>)
      \<and> map (\<lambda>c. acc_guid (node_account c)) cs = kids_of accounts (acc_guid a)
      \<and> acc_agg_balance a = Some (foldl num_add (num_or (acc_balance a) zero) (map agg_of cs))
      \<and> acc_agg_reconciled a = Some (foldl num_add (num_or (acc_reconciled a) zero) (map rec_of cs))
      \<and> list_all (well_shaped accounts) cs)"

lemma aggregate_well_shaped:
  assumes d: "distinct (map acc_guid accounts)"
  shows "aggregate fuel (fst (link_accounts new_node accounts)) g = Some (T, b, r) \<Longrightarrow>
    well_shaped accounts T \<and> acc_guid (node_account T) = g \<and> agg_of T = b \<and> rec_of T = r"
proof (induction fuel arbitrary: g T b r)
  case (Suc fuel)
  let ?m = "fst (link_accounts new_node accounts)"
  obtain a rs where a: "a \<in> set accounts" "acc_guid a = g"
    and rs: "list_all2 (\<lambda>c z. aggregate fuel ?m c = Some z) (kids_of accounts g) rs"
    and b: "b = foldl num_add (num_or (acc_balance a) zero) (map (\<lambda>z. fst (snd z)) rs)"
    and r: "r = foldl num_add (num_or (acc_reconciled a) zero) (map (\<lambda>z. snd (snd z)) rs)"
    and T: "T = AccNode (a\<lparr>acc_agg_balance := Some b, acc_agg_reconciled := Some r\<rparr>) (Some (map fst rs))"
    using aggregate_result [OF d Suc.prems] by metis
  have each: "list_all2 (\<lambda>c z. well_shaped accounts (fst z) \<and> acc_guid (node_account (fst z)) = c
      \<and> agg_of (fst z) = fst (snd z) \<and> rec_of (fst z) = snd (snd z)) (kids_of accounts g) rs"
    using rs by (rule list.rel_mono_strong) (metis Suc.IH prod.collapse)
  have "map (\<lambda>z. acc_guid (node_account (fst z))) rs = kids_of accounts g"
    and "map (\<lambda>z. agg_of (fst z)) rs = map (\<lambda>z. fst (snd z)) rs"
    and "map (\<lambda>z. rec_of (fst z)) rs = map (\<lambda>z. snd (snd z)) rs"
    and "list_all (\<lambda>z. well_shaped accounts (fst z)) rs"
    using each by (induction rule: list_all2_induct) auto
  moreover from this have "b = foldl num_add (num_or (acc_balance a) zero) (map agg_of (map fst rs))"
    and "r = foldl num_add (num_or (acc_reconciled a) zero) (map rec_of (map fst rs))"
    unfolding b r by (simp_all only: map_map comp_def)
  ultimately have "well_shaped accounts T"
    using a by (auto simp: T list.pred_map comp_def intro!: bexI [of _ a])
  moreover have "acc_guid (node_account T) = g" "agg_of T = b" "rec_of T = r"
    using a(2) by (simp_all add: T agg_of_def rec_of_def)
  ultimately show ?case by blast
qed simp

lemma tree_guids:
  assumes "distinct (map acc_guid accounts)" and "buildTree accounts = Some ts"
  shows "distinct (concat (map collectGuids ts))
    \<and> set (concat (map collectGuids ts)) = {g \<in> guids accounts. \<exists>xs. chain (parent_of accounts) g xs}"
proof -
  let ?p = "parent_of accounts" and ?m = "fst (link_accounts new_node accounts)"
  obtain rs where rs: "list_all2 (\<lambda>g z. aggregate (length accounts) ?m g = Some z) (roots_of accounts) rs"
    and ts: "ts = map fst rs" using assms(2) unfolding buildTree_Some by blast
  have root: "chain ?p g [g]" "g \<in> guids accounts" if "g \<in> set (roots_of accounts)" for g
    using root_chain [OF assms(1) that] by auto
  have one: "set (collectGuids (fst z)) = {h. up ?p h g} \<and> distinct (collectGuids (fst z))"
    if "g \<in> set (roots_of accounts)" "aggregate (length accounts) ?m g = Some z" for g z
    using collect_set [OF assms(1)] collect_distinct [OF assms(1) _ root(1) [OF that(1)]] that(2)
    by (metis prod.collapse)
  have each: "list_all2 (\<lambda>g z. set (collectGuids (fst z)) = {h. up ?p h g} \<and> distinct (collectGuids (fst z)))
      (roots_of accounts) rs"
    by (rule list.rel_mono_strong [OF rs]) (rule one)
  have "distinct (concat (map (\<lambda>z. collectGuids (fst z)) rs))"
  proof (rule distinct_concat_map [OF each distinct_roots [OF assms(1)]])
    fix c e
    assume "c \<in> set (roots_of accounts)" "e \<in> set (roots_of accounts)" "c \<noteq> e"
    then show "{h. up ?p h c} \<inter> {h. up ?p h e} = {}"
      using siblings_disjoint [OF _ _ root(1) root(1), of _ c e] by fast
  qed
  moreover have "(\<Union>z\<in>set rs. set (collectGuids (fst z))) = (\<Union>g\<in>set (roots_of accounts). {h. up ?p h g})"
    by (rule list_all2_Union, rule list.rel_mono_strong [OF each]) simp
  moreover have "(\<Union>g\<in>set (roots_of accounts). {h. up ?p h g}) = {g \<in> guids accounts. \<exists>xs. chain ?p g xs}"
    using set_roots_of [OF assms(1)] up_guids chain_iff_root [of ?p] rtranclp.rtrancl_refl
    by (auto simp: chain_iff_root) (metis (mono_tags) rtranclp.cases parent_of_mem)
  ultimately show ?thesis by (simp add: ts comp_def)
qed

lemma tree_nodes:
  assumes "distinct (map acc_guid accounts)" and "buildTree accounts = Some ts"
  shows "list_all (well_shaped accounts) ts \<and> map (\<lambda>T. acc_guid (node_account T)) ts = roots_of accounts"
proof -
  let ?m = "fst (link_accounts new_node accounts)"
  obtain rs where rs: "list_all2 (\<lambda>g z. aggregate (length accounts) ?m g = Some z) (roots_of accounts) rs"
    and ts: "ts = map fst rs" using assms(2) unfolding buildTree_Some by blast
  have "list_all2 (\<lambda>g z. well_shaped accounts (fst z) \<and> acc_guid (node_account (fst z)) = g) (roots_of accounts) rs"
    using rs by (rule list.rel_mono_strong) (metis aggregate_well_shaped [OF assms(1)] prod.collapse)
  then have "list_all (\<lambda>z. well_shaped accounts (fst z)) rs
      \<and> map (\<lambda>z. acc_guid (node_account (fst z))) rs = roots_of accounts"
    by (induction rule: list_all2_induct) auto
  then show ?thesis by (simp add: ts list.pred_map comp_def)
qed

section \<open>Properties\<close>

text \<open>
  C4. The account tree is built for every list of accounts with distinct guids: neither the
  recursion that aggregates nor any later walk runs forever, even when parents form a cycle.
\<close>

theorem tree_terminates:
  assumes "distinct (map acc_guid accounts)"
  shows "\<exists>ts. buildTree accounts = Some ts"
  using buildTree_total [OF assms] by blast

definition sample_account :: "string \<Rightarrow> string option \<Rightarrow> account_type \<Rightarrow> int \<Rightarrow> account" where
  "sample_account g p ty b =
     \<lparr>acc_guid = g, acc_name = g, acc_type = ty, acc_parent = p, acc_placeholder = False,
      acc_description = [], acc_metadata = [], acc_version = num_of_int 1,
      acc_balance = num_of_int b, acc_reconciled = zero, acc_agg_balance = None,
      acc_agg_reconciled = None, acc_last_reconciled = None\<rparr>"

definition sample_accounts :: "account list" where
  "sample_accounts =
     [sample_account ''c'' (Some ''b'') BANK 5, sample_account ''r'' None ROOT 0,
      sample_account ''b'' (Some ''r'') ASSET 2]"

lemma sample_accounts_distinct: "distinct (map acc_guid sample_accounts)"
  by (simp add: sample_accounts_def sample_account_def)

theorem tree_terminates_witness: "\<exists>ts. buildTree sample_accounts = Some ts"
  by (rule tree_terminates) (rule sample_accounts_distinct)

text \<open>
  C3. The tree contains exactly the accounts whose parents lead to the top, and each of them
  once: accounts on or below a cycle of parents are the only ones that go missing.
\<close>

theorem tree_contents:
  assumes "distinct (map acc_guid accounts)" and "buildTree accounts = Some ts"
  shows "distinct (concat (map collectGuids ts))
    \<and> set (concat (map collectGuids ts)) = {g \<in> guids accounts. \<exists>xs. chain (parent_of accounts) g xs}"
  using assms by (rule tree_guids)

theorem tree_contents_witness:
  "\<exists>ts. buildTree sample_accounts = Some ts \<and> distinct (concat (map collectGuids ts))
    \<and> set (concat (map collectGuids ts))
      = {g \<in> guids sample_accounts. \<exists>xs. chain (parent_of sample_accounts) g xs}"
proof -
  obtain ts where "buildTree sample_accounts = Some ts"
    using buildTree_total [OF sample_accounts_distinct] by blast
  then show ?thesis using tree_contents [OF sample_accounts_distinct] by blast
qed

text \<open>
  C5. Throughout the tree every node is an account of the list, its children are exactly the
  accounts that name it as parent, in the order of the list, and both of its aggregates are its
  own balance plus the aggregates of its children.
\<close>

theorem tree_shape:
  assumes "distinct (map acc_guid accounts)" and "buildTree accounts = Some ts"
  shows "list_all (well_shaped accounts) ts \<and> map (\<lambda>T. acc_guid (node_account T)) ts = roots_of accounts"
  using assms by (rule tree_nodes)

theorem tree_shape_witness:
  "\<exists>ts. buildTree sample_accounts = Some ts \<and> list_all (well_shaped sample_accounts) ts"
proof -
  obtain ts where "buildTree sample_accounts = Some ts"
    using buildTree_total [OF sample_accounts_distinct] by blast
  then show ?thesis using tree_shape [OF sample_accounts_distinct] by blast
qed

text \<open>
  Two accounts that are each other's parent vanish from the chart of accounts, together with
  everything below them, whatever else the list holds.
\<close>

theorem parent_cycle_vanishes:
  assumes "distinct (map acc_guid accounts)" and "buildTree accounts = Some ts"
    and "parent_of accounts g = Some h" and "parent_of accounts h = Some g"
  shows "g \<notin> set (concat (map collectGuids ts)) \<and> h \<notin> set (concat (map collectGuids ts))"
proof -
  have "\<not> chain (parent_of accounts) k xs" if "k = g \<or> k = h" for k xs
  proof
    assume "chain (parent_of accounts) k xs"
    then show False using that
      by (induction rule: chain.induct) (use assms(3,4) in auto)
  qed
  moreover have "set (concat (map collectGuids ts)) = {g \<in> guids accounts. \<exists>xs. chain (parent_of accounts) g xs}"
    using tree_guids [OF assms(1,2)] by blast
  ultimately show ?thesis by auto
qed

theorem parent_cycle_vanishes_witness:
  "\<exists>ts. buildTree [sample_account ''a'' (Some ''b'') BANK 1, sample_account ''b'' (Some ''a'') BANK 1] = Some ts
    \<and> ''a'' \<notin> set (concat (map collectGuids ts))"
proof -
  let ?l = "[sample_account ''a'' (Some ''b'') BANK 1, sample_account ''b'' (Some ''a'') BANK 1]"
  have d: "distinct (map acc_guid ?l)" by (simp add: sample_account_def)
  obtain ts where ts: "buildTree ?l = Some ts" using buildTree_total [OF d] by blast
  have "parent_of ?l ''a'' = Some ''b''" "parent_of ?l ''b'' = Some ''a''"
    by (simp_all add: parent_of_def linked_def guids_def sample_account_def)
  then show ?thesis using parent_cycle_vanishes [OF d ts, of "''a''" "''b''"] ts by blast
qed

end
