(* ===== verification/AccountFormLaws.thy ===== *)
theory AccountFormLaws
  imports AccountForm AccountTreeLaws
begin

text \<open>
  The account editor offers every other visible account as a parent, builds the same tree as the
  chart of accounts, and saves only under a name.
\<close>

section \<open>The two tree builders\<close>

text \<open>The tree without its aggregates\<close>

fun forget :: "account_tree \<Rightarrow> account_tree" where
  "forget (AccNode a cs) =
     AccNode (a\<lparr>acc_agg_balance := None, acc_agg_reconciled := None\<rparr>) (map_option (map forget) cs)"

lemma fill_fold_map:
  "fold (\<lambda>a m. m(acc_guid a \<mapsto> mk a)) (xs :: account list) (\<lambda>g. map_option mk (m0 g)) g
    = map_option mk (fold (\<lambda>a m. m(acc_guid a \<mapsto> a)) xs m0 g)"
proof (induction xs arbitrary: m0)
  case (Cons x xs)
  have "(\<lambda>g. map_option mk (m0 g))(acc_guid x \<mapsto> mk x) = (\<lambda>g. map_option mk ((m0(acc_guid x \<mapsto> x)) g))"
    by auto
  with Cons show ?case by (simp del: fun_upd_apply)
qed simp

lemma fill_nodes_map:
  "fill_nodes mk xs g = map_option mk (fold (\<lambda>a m. m(acc_guid a \<mapsto> a)) xs Map.empty g)"
  using fill_fold_map [of mk xs Map.empty g] by (simp add: fill_nodes_def)

lemma map_option_those:
  "map_option (map f) (those (map h xs)) = those (map (\<lambda>x. map_option f (h x)) xs)"
proof (induction xs)
  case (Cons x xs)
  show ?case
    by (cases "h x") (simp_all add: Cons.IH [symmetric] option.map_comp comp_def)
qed simp

lemma trees_agree:
  "map_option forget (plain_tree fuel (fst (link_accounts plain_node accounts)) g)
   = map_option (\<lambda>z. forget (fst z)) (aggregate fuel (fst (link_accounts new_node accounts)) g)"
proof (induction fuel arbitrary: g)
  case (Suc fuel)
  let ?p = "fst (link_accounts plain_node accounts)" and ?m = "fst (link_accounts new_node accounts)"
  let ?f = "fold (\<lambda>a m. m(acc_guid a \<mapsto> a)) accounts Map.empty"
  show ?case
  proof (cases "?f g")
    case None
    then have "?p g = None" "?m g = None" by (simp_all add: link_accounts_eq fill_nodes_map)
    then show ?thesis by simp
  next
    case (Some a)
    have p: "?p g = Some \<lparr>tn_account = a, tn_children = kids_of accounts g\<rparr>"
      and m: "?m g = Some \<lparr>tn_account = a\<lparr>acc_agg_balance := Some (num_or (acc_balance a) zero),
          acc_agg_reconciled := Some (num_or (acc_reconciled a) zero)\<rparr>, tn_children = kids_of accounts g\<rparr>"
      using Some by (simp_all add: link_accounts_eq fill_nodes_map plain_node_def new_node_def)
    have "map_option (map forget) (those (map (plain_tree fuel ?p) (kids_of accounts g)))
        = map_option (map (\<lambda>z. forget (fst z))) (those (map (aggregate fuel ?m) (kids_of accounts g)))"
      unfolding map_option_those Suc.IH ..
    then show ?thesis
      by (auto simp: p m Let_def comp_def split: option.splits)
  qed
qed simp

lemma forget_trees:
  "map_option (map forget) (form_buildTree accounts) = map_option (map forget) (buildTree accounts)"
proof -
  have "map_option (map forget) (those (map (plain_tree n (fst (link_accounts plain_node accounts))) gs))
      = map_option (map (\<lambda>z. forget (fst z))) (those (map (aggregate n (fst (link_accounts new_node accounts))) gs))"
    for n gs
    unfolding map_option_those trees_agree ..
  then show ?thesis
    by (simp add: form_buildTree_def buildTree_def option.map_comp comp_def case_prod_unfold link_accounts_eq)
qed

lemma form_tree_total: "distinct (map acc_guid accounts) \<Longrightarrow> form_buildTree accounts \<noteq> None"
  using buildTree_total [of accounts] forget_trees [of accounts] by (cases "form_buildTree accounts") auto

section \<open>The flattened list\<close>

fun visible_accounts :: "account_tree \<Rightarrow> account list" where
  "visible_accounts (AccNode a cs) =
     (if is_root a then [] else [a]) @ (case cs of None \<Rightarrow> [] | Some ts \<Rightarrow> concat (map visible_accounts ts))"

lemma visible_split:
  "mset (concat (map visible_accounts (filter (\<lambda>x. is_root (node_account x)) ts)))
   + mset (concat (map visible_accounts (filter (\<lambda>x. \<not> is_root (node_account x)) ts)))
   = mset (concat (map visible_accounts ts))"
  by (induction ts) auto

lemma flat_mset:
  "mset (map fr_account (flat_roots d p ts))
     = mset (concat (map visible_accounts (filter (\<lambda>x. is_root (node_account x)) ts)))"
  "mset (map fr_account (flat_visible d p ts))
     = mset (concat (map visible_accounts (filter (\<lambda>x. \<not> is_root (node_account x)) ts)))"
proof (induction d p ts and d p ts rule: flat_roots_flat_visible.induct)
  case (2 depth p a cs ts)
  then show ?case by (auto simp: visible_split split: option.splits)
next
  case (4 depth p a cs ts)
  then show ?case by (auto simp: Let_def visible_split split: option.splits)
qed auto

lemma flatten_mset: "mset (map fr_account (flattenAccounts ts)) = mset (concat (map visible_accounts ts))"
  using flat_mset [of 0 "[]" ts] visible_split [of ts] by (simp add: flattenAccounts_def)

section \<open>Properties\<close>

text \<open>
  C9. The account editor and the chart of accounts build the same tree from the same list,
  except for the aggregates that only the chart computes.
\<close>

theorem form_tree_equivalent:
  "map_option (map forget) (form_buildTree accounts) = map_option (map forget) (buildTree accounts)"
  by (rule forget_trees)

text \<open>
  The parents offered when editing an account are all visible accounts of the tree except the
  edited one, each as often as it occurs. Nothing keeps the descendants of the edited account
  out, so that saving can close a cycle of parents.
\<close>

theorem parent_options_all:
  assumes "form_buildTree accounts = Some ts"
  shows "map_option (\<lambda>opts. mset (map fst opts)) (parent_options accounts editing)
    = Some (mset (map acc_guid (filter (\<lambda>a. case editing of None \<Rightarrow> True | Some e \<Rightarrow> acc_guid a \<noteq> acc_guid e)
        (concat (map visible_accounts ts)))))"
proof -
  let ?P = "\<lambda>a. case editing of None \<Rightarrow> True | Some e \<Rightarrow> acc_guid a \<noteq> acc_guid e"
  have "mset (map acc_guid (map fr_account (filter (\<lambda>f. ?P (fr_account f)) (flattenAccounts ts))))
      = image_mset acc_guid (filter_mset ?P (mset (map fr_account (flattenAccounts ts))))"
    by (simp add: filter_mset_image_mset multiset.map_comp flip: mset_filter)
  then show ?thesis
    by (simp add: parent_options_def assms flatten_mset comp_def multiset.map_comp flip: mset_filter mset_map)
qed

definition cyclic_choice :: "account list" where
  "cyclic_choice = [sample_account ''p'' None ASSET 0, sample_account ''c'' (Some ''p'') BANK 0]"

theorem parent_options_all_witness:
  "\<exists>opts. parent_options cyclic_choice (Some (sample_account ''p'' None ASSET 0)) = Some opts
    \<and> mset (map fst opts) = {#''c''#}"
proof -
  obtain ts where ts: "form_buildTree cyclic_choice = Some ts" "map visible_accounts ts = [cyclic_choice]"
    by (simp add: cyclic_choice_def form_buildTree_def link_accounts_def fill_nodes_def link_account_def
        push_child_def plain_node_def sample_account_def is_root_def)
  then show ?thesis
    using parent_options_all [OF ts(1), of "Some (sample_account ''p'' None ASSET 0)"]
    by (auto simp: cyclic_choice_def sample_account_def)
qed

text \<open>
  Saving an account calls the server exactly when its trimmed name is not empty; otherwise
  the form shows that a name is required and stays usable.
\<close>

theorem account_name_required:
  "(case account_submit lang accounts editing st of
      (st', None) \<Rightarrow> js_trim (af_name st) = [] \<and> af_error st' = Some (t lang ''accounts.nameRequired'')
        \<and> af_loading st' = af_loading st
    | (st', Some call) \<Rightarrow> js_trim (af_name st) \<noteq> [] \<and> af_error st' = None \<and> af_loading st'
        \<and> (\<exists>f. fd_name f = js_trim (af_name st)
              \<and> call = (case editing of None \<Rightarrow> CreateAccount f | Some e \<Rightarrow> UpdateAccount (acc_guid e) f (acc_version e))))"
  by (auto simp: account_submit_def Let_def split: option.splits)

end
