(* ===== verification/AccountBreadcrumbs.thy ===== *)
theory AccountBreadcrumbs
  imports ParentChain I18n
begin

text \<open>
  The path above an account (\<^verbatim>\<open>components/AccountBreadcrumbs.tsx\<close>). The loop follows parent
  pointers without any bound, so it is a partial function: \<open>None\<close> is a loop that never ends.
\<close>

text \<open>The account the loop moves to: the parent, unless it is missing or the root\<close>

definition crumb_parent :: "account list \<Rightarrow> account \<Rightarrow> account option" where
  "crumb_parent allAccounts cur =
     (if truthy (acc_parent cur)
      then (case List.find (\<lambda>a. acc_guid a = the (acc_parent cur)) allAccounts of
              Some parent \<Rightarrow> if acc_type parent \<noteq> ROOT then Some parent else None
            | None \<Rightarrow> None)
      else None)"

partial_function (option) crumb_loop :: "account list \<Rightarrow> account \<Rightarrow> account list \<Rightarrow> account list option" where
  "crumb_loop allAccounts cur path =
     (case crumb_parent allAccounts cur of
        Some parent \<Rightarrow> crumb_loop allAccounts parent (parent # path)
      | None \<Rightarrow> Some path)"

definition buildPath :: "account list \<Rightarrow> account \<Rightarrow> account list option" where
  "buildPath allAccounts acc = crumb_loop allAccounts acc [acc]"

text \<open>The crumbs shown: a link for every account but the current one\<close>

definition crumbs :: "language \<Rightarrow> account \<Rightarrow> account list \<Rightarrow> (string \<times> string option) list option" where
  "crumbs lang currentAccount allAccounts =
     map_option (\<lambda>path.
       (t lang ''accounts.title'', Some ''/accounts'')
       # map (\<lambda>a. (acc_name a, if acc_guid a = acc_guid currentAccount then None
                               else Some (''/accounts/'' @ acc_guid a))) path)
     (buildPath allAccounts currentAccount)"

section \<open>When the loop ends\<close>

lemma crumb_loop_chain:
  "chain (crumb_parent accts) a xs \<Longrightarrow> crumb_loop accts a path = Some (rev (tl xs) @ path)"
proof (induction arbitrary: path rule: chain.induct)
  case (chain_root g)
  then show ?case by (subst crumb_loop.simps) simp
next
  case (chain_up g p xs)
  obtain ys where xs: "xs = p # ys" using chain_up(2) by cases auto
  have "crumb_loop accts g path = crumb_loop accts p (p # path)"
    by (subst crumb_loop.simps) (simp add: chain_up(1))
  with chain_up.IH xs show ?case by simp
qed

lemma crumb_loop_returns:
  assumes "crumb_loop accts a path = Some r"
  shows "\<exists>xs. chain (crumb_parent accts) a xs"
  using assms
proof (rule crumb_loop.raw_induct [where P = "\<lambda>al c pth y. \<exists>xs. chain (crumb_parent al) c xs", rotated])
  fix loop al c pth z
  assume IH: "\<And>al d q y. loop al d q = Some y \<Longrightarrow> \<exists>xs. chain (crumb_parent al) d xs"
    and r: "(case crumb_parent al c of Some p \<Rightarrow> loop al p (p # pth) | None \<Rightarrow> Some pth) = Some z"
  show "\<exists>xs. chain (crumb_parent al) c xs"
  proof (cases "crumb_parent al c")
    case None
    then show ?thesis by (blast intro: chain_root)
  next
    case (Some p)
    with r IH obtain xs where "chain (crumb_parent al) p xs" by fastforce
    with Some show ?thesis by (blast intro: chain_up)
  qed
qed

section \<open>Properties\<close>

text \<open>
  C10. The breadcrumb loop returns exactly when the account's parents lead to the top, and then
  with the path from the highest ancestor down to the account, without repetition. When parents
  form a cycle it never returns: opening such an account hangs the page.
\<close>

theorem breadcrumbs_terminate:
  "(buildPath accts a = None \<longleftrightarrow> (\<nexists>xs. chain (crumb_parent accts) a xs))
    \<and> (\<forall>xs. chain (crumb_parent accts) a xs \<longrightarrow> buildPath accts a = Some (rev xs) \<and> distinct xs)"
proof -
  have ret: "buildPath accts a = Some (rev xs) \<and> distinct xs" if c: "chain (crumb_parent accts) a xs" for xs
  proof -
    obtain ys where "xs = a # ys" using c by cases auto
    then show ?thesis using crumb_loop_chain [OF c] chain_distinct [OF c] by (simp add: buildPath_def)
  qed
  moreover have "\<exists>xs. chain (crumb_parent accts) a xs" if "buildPath accts a \<noteq> None"
    using that crumb_loop_returns unfolding buildPath_def by blast
  ultimately show ?thesis by fastforce
qed

definition crumb_account :: "string \<Rightarrow> string option \<Rightarrow> account" where
  "crumb_account g p =
     \<lparr>acc_guid = g, acc_name = g, acc_type = BANK, acc_parent = p, acc_placeholder = False,
      acc_description = [], acc_metadata = [], acc_version = num_of_int 1,
      acc_balance = zero, acc_reconciled = zero, acc_agg_balance = None,
      acc_agg_reconciled = None, acc_last_reconciled = None\<rparr>"

theorem breadcrumbs_terminate_witness:
  "buildPath [crumb_account ''b'' None, crumb_account ''a'' (Some ''b'')] (crumb_account ''a'' (Some ''b''))
   = Some [crumb_account ''b'' None, crumb_account ''a'' (Some ''b'')]"
proof -
  let ?l = "[crumb_account ''b'' None, crumb_account ''a'' (Some ''b'')]"
  have "crumb_parent ?l (crumb_account ''a'' (Some ''b'')) = Some (crumb_account ''b'' None)"
    "crumb_parent ?l (crumb_account ''b'' None) = None"
    by (simp_all add: crumb_parent_def crumb_account_def)
  then have "chain (crumb_parent ?l) (crumb_account ''a'' (Some ''b''))
      [crumb_account ''a'' (Some ''b''), crumb_account ''b'' None]"
    by (intro chain_up [OF _ chain_root])
  then show ?thesis using breadcrumbs_terminate [of ?l "crumb_account ''a'' (Some ''b'')"] by fastforce
qed

end
