(* ===== verification/Shortcuts.thy ===== *)
theory Shortcuts
  imports JsString
begin

text \<open>
  The keyboard shortcut registry (\<^verbatim>\<open>hooks/useShortcuts.ts\<close>): registration in mount order,
  removal by object identity, and the document-level key handler, which runs in the capture
  phase before any component's own handler. Actions are values of a type \<open>'a\<close> that the
  caller interprets; a registered object is named by the number of its registration.
\<close>

section \<open>The registry\<close>

record 'a shortcut =
  sh_key :: string
  sh_ctrl :: bool
  sh_alt :: bool
  sh_shift :: bool
  sh_action :: 'a
  sh_description :: string
  sh_scope :: "string option"

record 'a registry =
  rg_next :: nat
  rg_entries :: "(nat \<times> 'a shortcut) list"

definition empty_registry :: "'a registry" where
  "empty_registry = \<lparr>rg_next = 0, rg_entries = []\<rparr>"

definition registerShortcut :: "'a shortcut \<Rightarrow> 'a registry \<Rightarrow> nat \<times> 'a registry" where
  "registerShortcut s r =
     (rg_next r, r\<lparr>rg_next := Suc (rg_next r), rg_entries := rg_entries r @ [(rg_next r, s)]\<rparr>)"

text \<open>The returned clean-up: \<^verbatim>\<open>indexOf\<close> the object, then \<^verbatim>\<open>splice\<close> it out\<close>

fun remove_first :: "nat \<Rightarrow> (nat \<times> 'b) list \<Rightarrow> (nat \<times> 'b) list" where
  "remove_first i [] = []"
| "remove_first i (e # es) = (if fst e = i then es else e # remove_first i es)"

definition unregister :: "nat \<Rightarrow> 'a registry \<Rightarrow> 'a registry" where
  "unregister i r = r\<lparr>rg_entries := remove_first i (rg_entries r)\<rparr>"

definition getShortcuts :: "'a registry \<Rightarrow> 'a shortcut list" where
  "getShortcuts r = map snd (rg_entries r)"

section \<open>The key handler\<close>

record key_event =
  ke_key :: string
  ke_ctrl :: bool
  ke_meta :: bool
  ke_alt :: bool
  ke_shift :: bool
  ke_target :: string

definition is_input :: "key_event \<Rightarrow> bool" where
  "is_input e \<longleftrightarrow> ke_target e = ''INPUT'' \<or> ke_target e = ''TEXTAREA'' \<or> ke_target e = ''SELECT''"

definition shortcut_matches :: "key_event \<Rightarrow> 'a shortcut \<Rightarrow> bool" where
  "shortcut_matches e s \<longleftrightarrow>
     to_lower (sh_key s) = to_lower (ke_key e)
     \<and> \<not> (sh_ctrl s \<and> \<not> ke_ctrl e \<and> \<not> ke_meta e)
     \<and> \<not> (sh_alt s \<and> \<not> ke_alt e)
     \<and> \<not> (sh_shift s \<and> \<not> ke_shift e)
     \<and> \<not> (sh_key s \<noteq> ''Escape'' \<and> is_input e)"

text \<open>
  The action that runs, if any; then the event is consumed and no other handler sees it.
\<close>

definition handleKeyDown :: "key_event \<Rightarrow> 'a registry \<Rightarrow> 'a option" where
  "handleKeyDown e r = map_option sh_action (List.find (shortcut_matches e) (getShortcuts r))"

section \<open>Global navigation\<close>

definition nav_shortcut :: "string \<Rightarrow> 'a \<Rightarrow> string \<Rightarrow> 'a shortcut" where
  "nav_shortcut k act d =
     \<lparr>sh_key = k, sh_ctrl = False, sh_alt = True, sh_shift = False, sh_action = act,
      sh_description = d, sh_scope = Some ''global''\<rparr>"

definition global_shortcuts :: "(string \<Rightarrow> 'a) \<Rightarrow> 'a shortcut list" where
  "global_shortcuts navigate =
     [nav_shortcut ''1'' (navigate ''/'') ''Go to Dashboard'',
      nav_shortcut ''2'' (navigate ''/accounts'') ''Go to Accounts'',
      nav_shortcut ''3'' (navigate ''/transactions'') ''Go to Transactions'',
      nav_shortcut ''4'' (navigate ''/data'') ''Go to Data Management'']"

text \<open>
  The hook's effect: the first mount installs the listener and the shortcuts and keeps their
  numbers for the clean-up; while \<open>initialized\<close> is set, another mount does nothing.
\<close>

record 'a shortcut_system =
  ss_initialized :: bool
  ss_listening :: bool
  ss_registry :: "'a registry"

definition register_all :: "'a shortcut list \<Rightarrow> 'a registry \<Rightarrow> nat list \<times> 'a registry" where
  "register_all ss r =
     foldl (\<lambda>(ids, r) s. case registerShortcut s r of (i, r') \<Rightarrow> (ids @ [i], r')) ([], r) ss"

definition global_mount :: "(string \<Rightarrow> 'a) \<Rightarrow> 'a shortcut_system \<Rightarrow> nat list option \<times> 'a shortcut_system" where
  "global_mount navigate s =
     (if ss_initialized s then (None, s)
      else (case register_all (global_shortcuts navigate) (ss_registry s) of
              (ids, r) \<Rightarrow> (Some ids, s\<lparr>ss_initialized := True, ss_listening := True, ss_registry := r\<rparr>)))"

definition global_unmount :: "nat list option \<Rightarrow> 'a shortcut_system \<Rightarrow> 'a shortcut_system" where
  "global_unmount cleanup s =
     (case cleanup of
        None \<Rightarrow> s
      | Some ids \<Rightarrow> s\<lparr>ss_listening := False, ss_registry := fold unregister ids (ss_registry s),
                     ss_initialized := False\<rparr>)"

text \<open>\<^verbatim>\<open>useShortcut\<close>: a shortcut bound to a component's life\<close>

definition useShortcut :: "string \<Rightarrow> 'a \<Rightarrow> string \<Rightarrow> bool \<Rightarrow> bool \<Rightarrow> bool \<Rightarrow> 'a registry \<Rightarrow> nat \<times> 'a registry" where
  "useShortcut key action d ctrl alt shift r =
     registerShortcut \<lparr>sh_key = key, sh_ctrl = ctrl, sh_alt = alt, sh_shift = shift,
       sh_action = action, sh_description = d, sh_scope = None\<rparr> r"

text \<open>Which handler a key reaches: the listener, when installed, comes first.\<close>

definition dispatch_key :: "key_event \<Rightarrow> 'a shortcut_system \<Rightarrow> 'a option" where
  "dispatch_key e s = (if ss_listening s then handleKeyDown e (ss_registry s) else None)"

section \<open>Registries in use\<close>

definition registry_ok :: "'a registry \<Rightarrow> bool" where
  "registry_ok r \<longleftrightarrow> distinct (map fst (rg_entries r)) \<and> (\<forall>e\<in>set (rg_entries r). fst e < rg_next r)"

lemma registry_ok_empty [simp]: "registry_ok empty_registry"
  by (simp add: registry_ok_def empty_registry_def)

lemma registry_ok_register: "registry_ok r \<Longrightarrow> registry_ok (snd (registerShortcut s r))"
  by (auto simp: registry_ok_def registerShortcut_def)

lemma remove_first_subset: "set (remove_first i es) \<subseteq> set es"
  by (induction es) auto

lemma remove_first_filter:
  "distinct (map fst es) \<Longrightarrow> remove_first i es = filter (\<lambda>e. fst e \<noteq> i) es"
proof (induction es)
  case (Cons e es)
  then show ?case by (auto simp: image_iff intro!: filter_True [symmetric])
qed simp

lemma registry_ok_unregister: "registry_ok r \<Longrightarrow> registry_ok (unregister i r)"
  using remove_first_subset [of i "rg_entries r"]
  by (auto simp: registry_ok_def unregister_def remove_first_filter distinct_map_filter)

lemma entries_unregister:
  "registry_ok r \<Longrightarrow> rg_entries (unregister i r) = filter (\<lambda>e. fst e \<noteq> i) (rg_entries r)"
  by (simp add: unregister_def registry_ok_def remove_first_filter)

datatype 'a registry_op = Mount "'a shortcut" | Unmount nat

fun registry_step :: "'a registry_op \<Rightarrow> 'a registry \<Rightarrow> 'a registry" where
  "registry_step (Mount s) r = snd (registerShortcut s r)"
| "registry_step (Unmount i) r = unregister i r"

lemma registry_ok_step: "registry_ok r \<Longrightarrow> registry_ok (registry_step op r)"
  by (cases op) (auto intro: registry_ok_register registry_ok_unregister)

lemma registry_ok_steps: "registry_ok r \<Longrightarrow> registry_ok (fold registry_step ops r)"
  by (induction ops arbitrary: r) (auto intro: registry_ok_step)

lemma next_step: "rg_next r \<le> rg_next (registry_step op r)"
  by (cases op) (auto simp: registerShortcut_def unregister_def)

lemma next_steps: "rg_next r \<le> rg_next (fold registry_step ops r)"
proof (induction ops arbitrary: r)
  case (Cons op ops)
  then show ?case using le_trans [OF next_step] by fastforce
qed simp

text \<open>An identity that has been given out and removed never comes back.\<close>

definition retired :: "nat \<Rightarrow> 'a registry \<Rightarrow> bool" where
  "retired i r \<longleftrightarrow> registry_ok r \<and> i < rg_next r \<and> i \<notin> fst ` set (rg_entries r)"

lemma retired_step: "retired i r \<Longrightarrow> retired i (registry_step op r)"
proof (cases op)
  case (Mount s)
  assume "retired i r"
  with Mount registry_ok_step [of r op] show ?thesis by (auto simp: retired_def registerShortcut_def)
next
  case (Unmount j)
  assume i: "retired i r"
  then have "registry_ok r" by (simp add: retired_def)
  with i Unmount registry_ok_step [of r op] show ?thesis
    by (auto simp: retired_def entries_unregister) (simp add: unregister_def)
qed

lemma retired_steps: "retired i r \<Longrightarrow> retired i (fold registry_step ops r)"
  by (induction ops arbitrary: r) (auto intro: retired_step)

section \<open>Properties\<close>

text \<open>
  C16. Unmounting a component removes its shortcut for good and nothing else: whatever other
  components register and remove in between and afterwards, every other entry stays in its place.
\<close>

theorem unmount_exact:
  assumes "registry_ok r" and "registerShortcut s r = (i, r1)"
  shows "rg_entries (unregister i (fold registry_step ops r1))
      = filter (\<lambda>e. fst e \<noteq> i) (rg_entries (fold registry_step ops r1))
    \<and> i \<notin> fst ` set (rg_entries (fold registry_step ops' (unregister i (fold registry_step ops r1))))"
proof -
  let ?q = "fold registry_step ops r1"
  have ok: "registry_ok ?q"
    using registry_ok_steps registry_ok_register [OF assms(1), of s] assms(2) by simp
  have "i < rg_next r1" using assms(2) by (auto simp: registerShortcut_def)
  then have "i < rg_next ?q" using next_steps [of r1 ops] by simp
  then have "retired i (unregister i ?q)"
    using ok registry_ok_unregister [OF ok] by (auto simp: retired_def entries_unregister) (simp add: unregister_def)
  then show ?thesis using entries_unregister [OF ok] retired_steps unfolding retired_def by blast
qed

definition sample_shortcut :: "string \<Rightarrow> bool \<Rightarrow> nat \<Rightarrow> nat shortcut" where
  "sample_shortcut k ctrl act =
     \<lparr>sh_key = k, sh_ctrl = ctrl, sh_alt = False, sh_shift = False, sh_action = act,
      sh_description = k, sh_scope = None\<rparr>"

theorem unmount_exact_witness:
  "rg_entries (unregister 0 (fold registry_step [Mount (sample_shortcut ''b'' False 2)]
      (snd (registerShortcut (sample_shortcut ''a'' False 1) empty_registry))))
   = [(1, sample_shortcut ''b'' False 2)]"
proof -
  have "registerShortcut (sample_shortcut ''a'' False 1) empty_registry
      = (0, snd (registerShortcut (sample_shortcut ''a'' False 1) empty_registry))"
    by (simp add: registerShortcut_def empty_registry_def)
  from unmount_exact [OF registry_ok_empty this, of "[Mount (sample_shortcut ''b'' False 2)]" "[]"]
  show ?thesis by (simp add: registerShortcut_def empty_registry_def)
qed

text \<open>
  While the focus is in a field, only shortcuts on Escape run. In particular the submit
  shortcut on Ctrl and Enter, which the transaction form advertises, never runs from its fields.
\<close>

theorem fields_only_escape:
  assumes "is_input e" and "handleKeyDown e r = Some act"
  shows "\<exists>s\<in>set (getShortcuts r). sh_action s = act \<and> sh_key s = ''Escape''
    \<and> to_lower (ke_key e) = ''escape''"
proof -
  obtain s where s: "List.find (shortcut_matches e) (getShortcuts r) = Some s" "sh_action s = act"
    using assms(2) by (auto simp: handleKeyDown_def)
  have "to_lower ''Escape'' = ''escape''" by code_simp
  with find_Some_mem [OF s(1)] s(2) assms(1) show ?thesis by (auto simp: shortcut_matches_def)
qed

definition field_key :: "string \<Rightarrow> key_event" where
  "field_key k = \<lparr>ke_key = k, ke_ctrl = False, ke_meta = False, ke_alt = False, ke_shift = False,
     ke_target = ''INPUT''\<rparr>"

theorem fields_only_escape_witness:
  "\<exists>s\<in>set (getShortcuts (snd (registerShortcut (sample_shortcut ''Escape'' False 7) empty_registry))).
     sh_action s = 7 \<and> sh_key s = ''Escape'' \<and> to_lower (ke_key (field_key ''Escape'')) = ''escape''"
  by (rule fields_only_escape)
    (simp_all add: is_input_def field_key_def handleKeyDown_def getShortcuts_def registerShortcut_def
      empty_registry_def sample_shortcut_def shortcut_matches_def)

text \<open>
  The global navigation shortcuts are installed once: a second mount while the first is
  alive changes nothing, and unmounting the first leaves the registry as it was before.
\<close>

theorem global_shortcuts_once:
  assumes "\<not> ss_initialized s" and "\<not> ss_listening s" and "registry_ok (ss_registry s)"
    and "global_mount navigate s = (c, s1)"
  shows "global_mount navigate s1 = (None, s1)
    \<and> rg_entries (ss_registry (global_unmount c s1)) = rg_entries (ss_registry s)
    \<and> \<not> ss_initialized (global_unmount c s1) \<and> \<not> ss_listening (global_unmount c s1)"
proof -
  let ?n = "rg_next (ss_registry s)" and ?r = "ss_registry s"
  have fresh: "\<forall>e\<in>set (rg_entries ?r). fst e < ?n" using assms(3) by (simp add: registry_ok_def)
  have rem: "remove_first i (rg_entries ?r @ es) = rg_entries ?r @ remove_first i es" if "?n \<le> i" for i es
  proof -
    have "remove_first i (xs @ es) = xs @ remove_first i es" if "\<forall>e\<in>set xs. fst e < ?n" for xs :: "(nat \<times> 'a shortcut) list"
      using that \<open>?n \<le> i\<close> by (induction xs) auto
    then show ?thesis using fresh by blast
  qed
  have c: "c = Some [?n, Suc ?n, Suc (Suc ?n), Suc (Suc (Suc ?n))]" "ss_initialized s1"
    "rg_entries (ss_registry s1) = rg_entries ?r @ zip [?n, Suc ?n, Suc (Suc ?n), Suc (Suc (Suc ?n))] (global_shortcuts navigate)"
    using assms(1,4) by (auto simp: global_mount_def register_all_def registerShortcut_def global_shortcuts_def)
  then show ?thesis
    by (auto simp: global_mount_def global_unmount_def unregister_def rem global_shortcuts_def)
qed

theorem global_shortcuts_once_witness:
  "\<exists>c s1. global_mount (\<lambda>p. p) \<lparr>ss_initialized = False, ss_listening = False, ss_registry = empty_registry\<rparr> = (c, s1)
    \<and> rg_entries (ss_registry (global_unmount c s1)) = []"
proof -
  let ?s = "\<lparr>ss_initialized = False, ss_listening = False, ss_registry = empty_registry\<rparr> :: string shortcut_system"
  obtain c s1 where m: "global_mount (\<lambda>p. p) ?s = (c, s1)" by fastforce
  from global_shortcuts_once [OF _ _ _ m] m show ?thesis by (auto simp: empty_registry_def registry_ok_def)
qed

end
