(* ===== verification/AccountPicker.thy ===== *)
theory AccountPicker
  imports Types I18n Shortcuts AccountTreeLaws
begin

text \<open>
  The searchable account field (\<^verbatim>\<open>components/AccountPicker.tsx\<close>). Its key handler is attached
  to the trigger and, while the list is open, also to the search field inside the trigger: a
  key pressed in the search field bubbles and is handled twice, both times with the state of
  the last rendering, unless the handler stops the propagation.
\<close>

section \<open>State\<close>

datatype picker_focus = OnTrigger | OnSearch

record picker =
  pk_query :: string
  pk_open :: bool
  pk_highlight :: int
  pk_focus :: picker_focus

definition picker_init :: picker where
  "picker_init = \<lparr>pk_query = [], pk_open = False, pk_highlight = 0, pk_focus = OnTrigger\<rparr>"

definition picker_filtered :: "account list \<Rightarrow> string \<Rightarrow> account list" where
  "picker_filtered accounts query =
     (if query \<noteq> [] then
        filter (\<lambda>a. str_includes (to_lower (acc_name a)) (to_lower query)
                  \<or> str_includes (to_lower (account_type_name (acc_type a))) (to_lower query)) accounts
      else accounts)"

text \<open>An operation gives the new state and the guids handed to \<^verbatim>\<open>onChange\<close>.\<close>

definition handleSelect :: "string \<Rightarrow> picker \<Rightarrow> picker \<times> string list" where
  "handleSelect guid st = (st\<lparr>pk_open := False, pk_query := []\<rparr>, [guid])"

text \<open>The account under the highlight, with \<^verbatim>\<open>undefined\<close> outside the list\<close>

definition highlighted :: "account list \<Rightarrow> int \<Rightarrow> account option" where
  "highlighted xs i = (if 0 \<le> i \<and> i < int (length xs) then Some (xs ! nat i) else None)"

text \<open>
  One run of the handler: \<open>snap\<close> is the state of the last rendering, which the handler reads,
  \<open>st\<close> the current state, which it updates. The flag says whether the event stops here.
\<close>

definition picker_handler :: "account list \<Rightarrow> picker \<Rightarrow> string \<Rightarrow> picker \<Rightarrow> picker \<times> string list \<times> bool" where
  "picker_handler accounts snap key st =
     (let filtered = picker_filtered accounts (pk_query snap) in
      if \<not> pk_open snap then
        (if key = ''ArrowDown'' \<or> key = ''Enter'' then (st\<lparr>pk_open := True\<rparr>, [], False) else (st, [], False))
      else if key = ''ArrowDown'' then
        (st\<lparr>pk_highlight := min (pk_highlight st + 1) (int (length filtered) - 1)\<rparr>, [], False)
      else if key = ''ArrowUp'' then (st\<lparr>pk_highlight := max (pk_highlight st - 1) 0\<rparr>, [], False)
      else if key = ''Enter'' then
        (case highlighted filtered (pk_highlight snap) of
           Some a \<Rightarrow> (case handleSelect (acc_guid a) st of (st', out) \<Rightarrow> (st', out, False))
         | None \<Rightarrow> (st, [], False))
      else if key = ''Escape'' then (st\<lparr>pk_open := False, pk_query := []\<rparr>, [], True)
      else (st, [], False))"

text \<open>After a rendering with another query the highlight is reset; a closed list has no search field.\<close>

definition picker_commit :: "picker \<Rightarrow> picker \<Rightarrow> picker" where
  "picker_commit old st =
     st\<lparr>pk_highlight := (if pk_query st \<noteq> pk_query old then 0 else pk_highlight st),
        pk_focus := (if pk_open st then pk_focus st else OnTrigger)\<rparr>"

text \<open>A key press where the focus is\<close>

definition press_key :: "account list \<Rightarrow> string \<Rightarrow> picker \<Rightarrow> picker \<times> string list" where
  "press_key accounts key st =
     (case picker_handler accounts st key st of
        (st1, out1, stopped) \<Rightarrow>
          if pk_focus st = OnSearch \<and> \<not> stopped
          then (case picker_handler accounts st key st1 of
                  (st2, out2, _) \<Rightarrow> (picker_commit st st2, out1 @ out2))
          else (picker_commit st st1, out1))"

datatype picker_event =
    PressKey string
  | ClickTrigger
  | ClickOutside
  | TypeQuery string
  | HoverOption int
  | ClickOption string

fun picker_step :: "account list \<Rightarrow> picker_event \<Rightarrow> picker \<Rightarrow> picker \<times> string list" where
  "picker_step accounts (PressKey k) st = press_key accounts k st"
| "picker_step accounts ClickTrigger st = (st\<lparr>pk_open := True, pk_focus := OnSearch\<rparr>, [])"
| "picker_step accounts ClickOutside st = (picker_commit st (st\<lparr>pk_open := False, pk_query := []\<rparr>), [])"
| "picker_step accounts (TypeQuery q) st =
     (if pk_open st \<and> pk_focus st = OnSearch then (picker_commit st (st\<lparr>pk_query := q\<rparr>), []) else (st, []))"
| "picker_step accounts (HoverOption i) st =
     (if pk_open st \<and> highlighted (picker_filtered accounts (pk_query st)) i \<noteq> None
      then (st\<lparr>pk_highlight := i\<rparr>, []) else (st, []))"
| "picker_step accounts (ClickOption g) st =
     (if pk_open st \<and> g \<in> acc_guid ` set (picker_filtered accounts (pk_query st))
      then (case handleSelect g st of (st', out) \<Rightarrow> (picker_commit st st', out)) else (st, []))"

fun picker_run :: "account list \<Rightarrow> picker_event list \<Rightarrow> picker \<Rightarrow> picker \<times> string list" where
  "picker_run accounts [] st = (st, [])"
| "picker_run accounts (ev # evs) st =
     (case picker_step accounts ev st of (st1, out1) \<Rightarrow>
      case picker_run accounts evs st1 of (st2, out2) \<Rightarrow> (st2, out1 @ out2))"

text \<open>The text of the closed field\<close>

definition picker_label :: "language \<Rightarrow> account list \<Rightarrow> string \<Rightarrow> string" where
  "picker_label lang accounts value =
     (case List.find (\<lambda>a. acc_guid a = value) accounts of
        Some a \<Rightarrow> acc_name a @ '' ('' @ t lang (''type.'' @ account_type_name (acc_type a)) @ '')''
      | None \<Rightarrow> t lang ''form.selectAccount'')"

text \<open>The options shown: name, type, highlighted, selected\<close>

definition picker_options :: "language \<Rightarrow> account list \<Rightarrow> string \<Rightarrow> picker \<Rightarrow> (string \<times> string \<times> bool \<times> bool) list option" where
  "picker_options lang accounts value st =
     (if pk_open st then
        Some (map (\<lambda>(i, a). (acc_name a, t lang (''type.'' @ account_type_name (acc_type a)),
                              int i = pk_highlight st, acc_guid a = value))
                (enumerate 0 (picker_filtered accounts (pk_query st))))
      else None)"

section \<open>The picker under the global key handler\<close>

text \<open>
  The document's capturing listener sees the key first; when a shortcut runs, the event goes no
  further and the picker's own handler never runs.
\<close>

definition press_in_app ::
  "'a shortcut_system \<Rightarrow> account list \<Rightarrow> string \<Rightarrow> picker \<Rightarrow> 'a option \<times> picker \<times> string list" where
  "press_in_app sys accounts key st =
     (let e = \<lparr>ke_key = key, ke_ctrl = False, ke_meta = False, ke_alt = False, ke_shift = False,
               ke_target = (if pk_focus st = OnSearch then ''INPUT'' else ''DIV'')\<rparr>
      in case dispatch_key e sys of
           Some act \<Rightarrow> (Some act, st, [])
         | None \<Rightarrow> (None, press_key accounts key st))"

section \<open>Invariant\<close>



lemmas picker_defs =
  picker_handler_def press_key_def picker_commit_def handleSelect_def Let_def












section \<open>Properties\<close>




text \<open>
  With the focus in the search field every arrow key counts twice: from a highlight two or
  more before the end, arrow down skips an option.
\<close>

theorem arrow_down_twice:
  assumes "pk_open st" and "pk_focus st = OnSearch"
    and "pk_highlight st + 2 < int (length (picker_filtered accounts (pk_query st)))"
  shows "fst (press_key accounts ''ArrowDown'' st) = st\<lparr>pk_highlight := pk_highlight st + 2\<rparr>"
  using assms by (simp add: picker_defs)

theorem arrow_down_twice_witness:
  "\<exists>accounts. fst (picker_run accounts [ClickTrigger, PressKey ''ArrowDown''] picker_init)
    = (fst (picker_step accounts ClickTrigger picker_init))\<lparr>pk_highlight := 2\<rparr>"
proof -
  let ?l = "replicate 3 undefined :: account list"
  let ?st = "fst (picker_step ?l ClickTrigger picker_init)"
  have "fst (press_key ?l ''ArrowDown'' ?st) = ?st\<lparr>pk_highlight := pk_highlight ?st + 2\<rparr>"
    by (rule arrow_down_twice) (simp_all add: picker_init_def picker_filtered_def)
  then show ?thesis by (intro exI [of _ ?l]) (simp add: picker_init_def split: prod.splits)
qed

text \<open>
  Inside a dialog that registered Escape, the key closes the dialog and the open picker never
  sees it, although the picker's handler means to keep the dialog open.
\<close>

theorem escape_closes_dialog:
  assumes "ss_listening sys" and "shortcut_matches (field_key ''Escape'') s"
    and "List.find (shortcut_matches (field_key ''Escape'')) (getShortcuts (ss_registry sys)) = Some s"
    and "pk_open st" and "pk_focus st = OnSearch"
  shows "press_in_app sys accounts ''Escape'' st = (Some (sh_action s), st, [])"
  using assms by (simp add: press_in_app_def Let_def dispatch_key_def handleKeyDown_def field_key_def)

theorem escape_closes_dialog_witness:
  "\<exists>sys st. pk_open st \<and> press_in_app sys [] ''Escape'' st = (Some (1 :: nat), st, [])"
proof -
  let ?s = "sample_shortcut ''Escape'' False 1"
  let ?sys = "\<lparr>ss_initialized = True, ss_listening = True,
      ss_registry = snd (registerShortcut ?s empty_registry)\<rparr>"
  let ?st = "fst (picker_step [] ClickTrigger picker_init)"
  have "press_in_app ?sys [] ''Escape'' ?st = (Some (sh_action ?s), ?st, [])"
    by (rule escape_closes_dialog)
      (simp_all add: shortcut_matches_def sample_shortcut_def field_key_def registerShortcut_def
        empty_registry_def getShortcuts_def picker_init_def)
  then show ?thesis by (intro exI [of _ ?sys] exI [of _ ?st]) (simp add: sample_shortcut_def picker_init_def)
qed

end
