(* ===== verification/ReconcileWizard.thy ===== *)
theory ReconcileWizard
  imports I18n Types DateShortcut
begin

text \<open>
  Reconciling accounts with a bank statement (\<^verbatim>\<open>components/ReconcileWizard.tsx\<close>): the
  suggested ending balance, the entries offered and preselected, the selection, the totals the
  user balances, and the two calls to the server. The server answers \<^verbatim>\<open>null\<close> for the
  register of an account without entries, so a register is an \<open>option\<close>.
\<close>

section \<open>State\<close>

datatype wizard_page = InfoPage | SelectPage

record wizard =
  wz_page :: wizard_page
  wz_date :: string
  wz_ending :: string
  wz_starting :: number
  wz_entries :: "register_entry list"
  wz_selected :: "string list"
  wz_loading :: bool
  wz_error :: "string option"

definition wizard_init :: "int \<Rightarrow> wizard" where
  "wizard_init now =
     \<lparr>wz_page = InfoPage, wz_date = take 10 (toISOString now), wz_ending = [], wz_starting = zero,
      wz_entries = [], wz_selected = [], wz_loading = False, wz_error = None\<rparr>"

text \<open>The account's type is optional; without one the accounts count as debit-normal.\<close>

definition is_liability :: "account_type option \<Rightarrow> bool" where
  "is_liability ty \<longleftrightarrow> ty = Some LIABILITY \<or> ty = Some CREDIT"

definition is_credit_normal :: "account_type option \<Rightarrow> bool" where
  "is_credit_normal ty \<longleftrightarrow> is_liability ty \<or> ty = Some INCOME \<or> ty = Some EQUITY"

section \<open>Entries up to the statement date\<close>

definition cutoff :: "string \<Rightarrow> int option" where
  "cutoff statementDate = date_parse (statementDate @ ''T23:59:59Z'')"

text \<open>Comparisons with an invalid date are false.\<close>

definition not_after :: "int option \<Rightarrow> register_entry \<Rightarrow> bool" where
  "not_after c e =
     (case (date_parse (re_post_date e), c) of (Some d, Some c) \<Rightarrow> d \<le> c | _ \<Rightarrow> False)"

definition posted_later :: "register_entry \<Rightarrow> register_entry \<Rightarrow> bool" where
  "posted_later a b =
     (case (date_parse (re_post_date a), date_parse (re_post_date b)) of
        (Some x, Some y) \<Rightarrow> y < x | _ \<Rightarrow> False)"

fun flat_register :: "register_entry list option \<Rightarrow> register_entry option list" where
  "flat_register None = [None]"
| "flat_register (Some es) = map Some es"

definition flat_registers :: "register_entry list option list \<Rightarrow> register_entry option list" where
  "flat_registers regs = concat (map flat_register regs)"

section \<open>Effects\<close>

fun last_balance :: "int option \<Rightarrow> number \<Rightarrow> register_entry list \<Rightarrow> number" where
  "last_balance c b [] = b"
| "last_balance c b (e # es) = (if not_after c e then last_balance c (re_balance e) es else b)"

text \<open>
  The suggestion; a \<^verbatim>\<open>null\<close> among the entries throws, whether in the comparison of the
  sort or in the loop, and the failure is only logged.
\<close>

definition suggested_ending :: "bool \<Rightarrow> string \<Rightarrow> register_entry list option list \<Rightarrow> string option" where
  "suggested_ending cn statementDate regs =
     (let all = flat_registers regs
      in if None \<in> set all then None
         else (let b = last_balance (cutoff statementDate) zero (sort_by posted_later (map the all))
               in Some (to_fixed2 (if cn then num_neg b else b))))"

definition suggestion_settled ::
  "bool \<Rightarrow> string \<Rightarrow> js_error + register_entry list option list \<Rightarrow> wizard \<Rightarrow> wizard" where
  "suggestion_settled cn statementDate res st =
     (case res of
        Inr regs \<Rightarrow> (case suggested_ending cn statementDate regs of
                        Some s \<Rightarrow> st\<lparr>wz_ending := s\<rparr> | None \<Rightarrow> st)
      | Inl e \<Rightarrow> st)"

definition balances_settled :: "js_error + number list \<Rightarrow> wizard \<Rightarrow> wizard" where
  "balances_settled res st =
     (case res of Inr bs \<Rightarrow> st\<lparr>wz_starting := num_sum bs\<rparr> | Inl e \<Rightarrow> st)"

section \<open>From the first page to the second\<close>

text \<open>Up to the calls for the registers of the given accounts\<close>

definition handleStartReconcile ::
  "language \<Rightarrow> string list \<Rightarrow> wizard \<Rightarrow> wizard \<times> string list option" where
  "handleStartReconcile lang accountGuids st =
     (if js_trim (wz_ending st) = [] then
        (st\<lparr>wz_error := Some (t lang ''reconcile.endingRequired'')\<rparr>, None)
      else (st\<lparr>wz_error := None, wz_loading := True\<rparr>, Some accountGuids))"

definition unreconciled :: "string \<Rightarrow> register_entry list option list \<Rightarrow> register_entry list" where
  "unreconciled statementDate regs =
     sort_by posted_later
       (map the (filter (\<lambda>e. e \<noteq> None \<and> re_state (the e) \<noteq> ''y'' \<and> not_after (cutoff statementDate) (the e))
         (flat_registers regs)))"

text \<open>Adding to a \<^verbatim>\<open>Set\<close>, which keeps the order of insertion\<close>

definition set_add :: "string \<Rightarrow> string list \<Rightarrow> string list" where
  "set_add x xs = (if x \<in> set xs then xs else xs @ [x])"

definition set_of_list :: "string list \<Rightarrow> string list" where
  "set_of_list xs = fold set_add xs []"

definition preselected :: "register_entry list \<Rightarrow> string list" where
  "preselected es = set_of_list (map re_split (filter (\<lambda>e. re_state e = ''c'') es))"

text \<open>The calls settle; \<open>statementDate\<close> is the date when the handler ran.\<close>

definition start_settled ::
  "string \<Rightarrow> js_error + register_entry list option list \<Rightarrow> wizard \<Rightarrow> wizard" where
  "start_settled statementDate res st =
     (case res of
        Inr regs \<Rightarrow>
          (let es = unreconciled statementDate regs
           in st\<lparr>wz_entries := es, wz_selected := preselected es, wz_page := SelectPage,
                 wz_loading := False\<rparr>)
      | Inl e \<Rightarrow> st\<lparr>wz_error := Some ''Failed to load register'', wz_loading := False\<rparr>)"

section \<open>Selecting\<close>

definition toggleEntry :: "string \<Rightarrow> wizard \<Rightarrow> wizard" where
  "toggleEntry splitGuid st =
     st\<lparr>wz_selected := (if splitGuid \<in> set (wz_selected st)
                       then removeAll splitGuid (wz_selected st)
                       else wz_selected st @ [splitGuid])\<rparr>"

definition selectAll :: "wizard \<Rightarrow> wizard" where
  "selectAll st = st\<lparr>wz_selected := set_of_list (map re_split (wz_entries st))\<rparr>"

definition deselectAll :: "wizard \<Rightarrow> wizard" where
  "deselectAll st = st\<lparr>wz_selected := []\<rparr>"

section \<open>Totals\<close>

definition leftEntries :: "bool \<Rightarrow> register_entry list \<Rightarrow> register_entry list" where
  "leftEntries cn es =
     (if cn then filter (\<lambda>e. re_withdrawal e \<noteq> None) es else filter (\<lambda>e. re_deposit e \<noteq> None) es)"

definition rightEntries :: "bool \<Rightarrow> register_entry list \<Rightarrow> register_entry list" where
  "rightEntries cn es =
     (if cn then filter (\<lambda>e. re_deposit e \<noteq> None) es else filter (\<lambda>e. re_withdrawal e \<noteq> None) es)"

text \<open>\<^verbatim>\<open>e.deposit || e.withdrawal || 0\<close>\<close>

definition entry_amount :: "register_entry \<Rightarrow> number" where
  "entry_amount e =
     (case re_deposit e of
        Some d \<Rightarrow> if num_truthy d then d
                   else (case re_withdrawal e of Some w \<Rightarrow> num_or w zero | None \<Rightarrow> zero)
      | None \<Rightarrow> (case re_withdrawal e of Some w \<Rightarrow> num_or w zero | None \<Rightarrow> zero))"

definition selected_total :: "string list \<Rightarrow> register_entry list \<Rightarrow> number" where
  "selected_total sel es = num_sum (map entry_amount (filter (\<lambda>e. re_split e \<in> set sel) es))"

definition leftTotal :: "bool \<Rightarrow> wizard \<Rightarrow> number" where
  "leftTotal cn st = selected_total (wz_selected st) (leftEntries cn (wz_entries st))"

definition rightTotal :: "bool \<Rightarrow> wizard \<Rightarrow> number" where
  "rightTotal cn st = selected_total (wz_selected st) (rightEntries cn (wz_entries st))"

definition endingNum :: "wizard \<Rightarrow> number" where
  "endingNum st = num_or (parse_float (wz_ending st)) zero"

definition internalReconciledBalance :: "bool \<Rightarrow> wizard \<Rightarrow> number" where
  "internalReconciledBalance cn st =
     num_sub (num_add (wz_starting st) (leftTotal cn st)) (rightTotal cn st)"

definition displayStartingBalance :: "bool \<Rightarrow> wizard \<Rightarrow> number" where
  "displayStartingBalance cn st = (if cn then num_neg (wz_starting st) else wz_starting st)"

definition displayReconciledBalance :: "bool \<Rightarrow> wizard \<Rightarrow> number" where
  "displayReconciledBalance cn st =
     (if cn then num_neg (internalReconciledBalance cn st) else internalReconciledBalance cn st)"

definition difference :: "bool \<Rightarrow> wizard \<Rightarrow> number" where
  "difference cn st = num_sub (endingNum st) (displayReconciledBalance cn st)"

definition isBalanced :: "bool \<Rightarrow> wizard \<Rightarrow> bool" where
  "isBalanced cn st = num_less (num_abs (difference cn st)) (num_of (5 / 1000))"

section \<open>Finishing\<close>

definition handleFinish :: "bool \<Rightarrow> wizard \<Rightarrow> wizard \<times> string list option" where
  "handleFinish cn st =
     (if \<not> isBalanced cn st then (st, None) else (st\<lparr>wz_loading := True\<rparr>, Some (wz_selected st)))"

definition finish_enabled :: "bool \<Rightarrow> wizard \<Rightarrow> bool" where
  "finish_enabled cn st \<longleftrightarrow> \<not> (\<not> isBalanced cn st \<or> wz_loading st \<or> wz_selected st = [])"

text \<open>\<^verbatim>\<open>onFinished\<close> and \<^verbatim>\<open>onClose\<close> run exactly on success.\<close>

definition finish_settled :: "js_error + unit \<Rightarrow> wizard \<Rightarrow> wizard \<times> bool" where
  "finish_settled res st =
     (case res of
        Inr _ \<Rightarrow> (st\<lparr>wz_loading := False\<rparr>, True)
      | Inl e \<Rightarrow> (st\<lparr>wz_error := Some ''Failed to reconcile'', wz_loading := False\<rparr>, False))"

section \<open>What is shown\<close>

definition start_label :: "language \<Rightarrow> wizard \<Rightarrow> string" where
  "start_label lang st = (if wz_loading st then t lang ''common.loading'' else t lang ''reconcile.start'')"

definition finish_label :: "language \<Rightarrow> wizard \<Rightarrow> string" where
  "finish_label lang st = (if wz_loading st then t lang ''common.loading'' else t lang ''reconcile.finish'')"

record wizard_row =
  wr_checked :: bool
  wr_date :: string
  wr_description :: string
  wr_amount :: string

text \<open>\<open>money\<close> is \<open>formatCurrency\<close> in the current language.\<close>

definition renderRow :: "(int \<Rightarrow> int) \<Rightarrow> (number \<Rightarrow> string) \<Rightarrow> wizard \<Rightarrow> register_entry \<Rightarrow> wizard_row" where
  "renderRow offset money st e =
     \<lparr>wr_checked = (re_split e \<in> set (wz_selected st)),
      wr_date = formatDate offset (re_post_date e),
      wr_description = re_description e,
      wr_amount = (case re_deposit e of
                     Some d \<Rightarrow> money d
                   | None \<Rightarrow> money (case re_withdrawal e of Some w \<Rightarrow> num_or w zero | None \<Rightarrow> zero))\<rparr>"

definition wizard_columns ::
  "(int \<Rightarrow> int) \<Rightarrow> (number \<Rightarrow> string) \<Rightarrow> bool \<Rightarrow> wizard \<Rightarrow> wizard_row list \<times> wizard_row list" where
  "wizard_columns offset money cn st =
     (map (renderRow offset money st) (leftEntries cn (wz_entries st)),
      map (renderRow offset money st) (rightEntries cn (wz_entries st)))"

text \<open>The labels and values of the summary bar\<close>

definition summary_bar :: "language \<Rightarrow> (number \<Rightarrow> string) \<Rightarrow> bool \<Rightarrow> wizard \<Rightarrow> (string \<times> string) list" where
  "summary_bar lang money cn st =
     [(t lang ''reconcile.statementDate'', wz_date st),
      (t lang ''reconcile.startingBalance'', money (displayStartingBalance cn st)),
      (t lang ''reconcile.endingBalance'', money (endingNum st)),
      (t lang ''reconcile.reconciledBalance'', money (displayReconciledBalance cn st)),
      (t lang ''reconcile.difference'', if isBalanced cn st then money zero else money (difference cn st))]"

section \<open>What the user and the effects can do\<close>

text \<open>Only the rows of the two columns can be clicked, and the fields are on the first page.\<close>

datatype wizard_event =
    EnterDate string
  | EnterEnding string
  | DateKey int string bool
  | SuggestionArrives string "js_error + register_entry list option list"
  | BalancesArrive "js_error + number list"
  | ClickRow string
  | ClickAll
  | ClickNone

fun wizard_edit :: "bool \<Rightarrow> wizard_event \<Rightarrow> wizard \<Rightarrow> wizard" where
  "wizard_edit cn (EnterDate v) st = (if wz_page st = InfoPage then st\<lparr>wz_date := v\<rparr> else st)"
| "wizard_edit cn (EnterEnding v) st = (if wz_page st = InfoPage then st\<lparr>wz_ending := v\<rparr> else st)"
| "wizard_edit cn (DateKey now key shift) st =
     (if wz_page st = InfoPage then
        (case snd (handleDateShortcut now key shift (wz_date st)) of
           Some v \<Rightarrow> st\<lparr>wz_date := v\<rparr> | None \<Rightarrow> st)
      else st)"
| "wizard_edit cn (SuggestionArrives d res) st = suggestion_settled cn d res st"
| "wizard_edit cn (BalancesArrive res) st = balances_settled res st"
| "wizard_edit cn (ClickRow g) st =
     (if wz_page st = SelectPage
        \<and> g \<in> re_split ` (set (leftEntries cn (wz_entries st)) \<union> set (rightEntries cn (wz_entries st)))
      then toggleEntry g st else st)"
| "wizard_edit cn ClickAll st = (if wz_page st = SelectPage then selectAll st else st)"
| "wizard_edit cn ClickNone st = (if wz_page st = SelectPage then deselectAll st else st)"

end
