(* ===== verification/JsSum.thy ===== *)
theory JsSum
  imports JsRounding
begin

text \<open>
  How far sums of rounded numbers are from the exact sums: \<open>near x q d\<close> says that \<open>x\<close> is a finite
  double at most \<open>d\<close> away from \<open>q\<close>. The bounds are for magnitudes up to \<open>2\<^sup>3\<^sup>0\<close>, where one
  operation adds at most \<open>2\<^sup>-\<^sup>2\<^sup>4\<close>; this is enough to tell amounts that differ by a cent.
\<close>

definition near :: "number \<Rightarrow> rat \<Rightarrow> rat \<Rightarrow> bool" where
  "near x q d \<longleftrightarrow> is_finite x \<and> is_double x \<and> \<bar>num_val x - q\<bar> \<le> d"

lemma near_signed: "\<bar>r - \<bar>v\<bar>\<bar> \<le> d \<Longrightarrow> double_mag r \<Longrightarrow> near (Num (v < 0) r) v d"
  by (auto simp: near_def abs_if split: if_splits)

lemma near_mono: "near x q d \<Longrightarrow> d \<le> d' \<Longrightarrow> near x q d'"
  by (auto simp: near_def)

lemma near_weaken: "near x q d \<Longrightarrow> q = q' \<Longrightarrow> d \<le> d' \<Longrightarrow> near x q' d'"
  by (auto simp: near_def)

lemma near_zero: "near zero 0 0"
  by (simp add: near_def)

lemma near_neg: "near x q d \<Longrightarrow> near (num_neg x) (- q) d"
  by (cases x) (auto simp: near_def abs_le_iff)

lemma round_mag_small_error:
  assumes "0 \<le> q" and "q < 2 powi 30"
  shows "\<bar>round_mag q - q\<bar> \<le> 1 / 2 ^ 24"
proof (cases "q = 0")
  case False
  with assms have "ilog2 q < 30" by (subst ilog2_less_iff) simp_all
  then have "ulp_exp q \<le> - 23" by (simp add: ulp_exp_def)
  then have "(2 :: rat) powi ulp_exp q \<le> 2 powi - 23" by (simp only: two_powi_le_iff)
  also have "(2 :: rat) powi - 23 = 1 / 2 ^ 23" by simp
  finally show ?thesis using round_mag_error [of q] by simp
qed simp

lemma near_round:
  assumes "\<bar>v\<bar> < 2 ^ 30"
  shows "near (num_of v) v (1 / 2 ^ 24)"
proof -
  have e: "\<bar>round_mag \<bar>v\<bar> - \<bar>v\<bar>\<bar> \<le> 1 / 2 ^ 24"
    using assms by (intro round_mag_small_error) simp_all
  then have "round_mag \<bar>v\<bar> \<le> \<bar>v\<bar> + 1 / 2 ^ 24" by (simp only: abs_le_iff) linarith
  with assms have "round_mag \<bar>v\<bar> \<le> 2 ^ 100" by simp
  then have "num_of v = Num (v < 0) (round_mag \<bar>v\<bar>)"
    using not_overflows_small by (simp add: num_of_def num_of_mag_def)
  moreover have "is_double (num_of v)" by simp
  ultimately show ?thesis using near_signed [OF e] by simp
qed

lemma near_add:
  assumes "near x p a" and "near y q b" and "\<bar>p + q\<bar> + a + b < 2 ^ 30"
  shows "near (num_add x y) (p + q) (a + b + 1 / 2 ^ 24)"
proof -
  obtain s m u n where xy: "x = Num s m" "y = Num u n"
    using assms(1,2) by (cases x; cases y) (auto simp: near_def)
  define v where "v = num_val x + num_val y"
  have v: "\<bar>v - (p + q)\<bar> \<le> a + b"
    using assms(1,2) unfolding near_def v_def by (simp only: abs_le_iff) linarith
  with assms(3) have "\<bar>v\<bar> < 2 ^ 30" by (simp only: abs_le_iff abs_less_iff) linarith
  from near_round [OF this] have r: "is_finite (num_of v)" "\<bar>num_val (num_of v) - v\<bar> \<le> 1 / 2 ^ 24"
    by (simp_all add: near_def)
  have "num_add x y = (if v = 0 then Num (s \<and> u) 0 else num_of v)"
    by (simp only: xy num_add.simps v_def Let_def)
  moreover have "\<bar>num_val (num_of v) - (p + q)\<bar> \<le> a + b + 1 / 2 ^ 24"
    using r(2) v unfolding abs_le_iff by linarith
  moreover have "v = 0 \<Longrightarrow> \<bar>0 - (p + q)\<bar> \<le> a + b + 1 / 2 ^ 24"
    using v unfolding abs_le_iff by simp
  ultimately show ?thesis using r(1) by (cases "v = 0") (simp_all add: near_def)
qed

lemma near_sub:
  assumes "near x p a" and "near y q b" and "\<bar>p - q\<bar> + a + b < 2 ^ 30"
  shows "near (num_sub x y) (p - q) (a + b + 1 / 2 ^ 24)"
  using near_add [OF assms(1) near_neg [OF assms(2)]] assms(3) by (simp add: num_sub_def)

lemma near_cents:
  assumes "\<bar>n\<bar> \<le> 100 * 2 ^ 29"
  shows "near (cents n) (of_int n / 100) (1 / 2 ^ 24)"
proof -
  have "(of_int \<bar>n\<bar> :: rat) \<le> of_int (100 * 2 ^ 29)" using assms by (simp only: of_int_le_iff)
  then have "(of_int \<bar>n\<bar> / 100 :: rat) < 2 powi 30" by simp
  then have "\<bar>round_mag (of_int \<bar>n\<bar> / 100) - of_int \<bar>n\<bar> / 100\<bar> \<le> 1 / 2 ^ 24"
    by (intro round_mag_small_error) simp_all
  moreover have "cents n = Num (n < 0) (round_mag (of_int \<bar>n\<bar> / 100))"
    using assms by (intro cents_mag(1)) simp
  ultimately show ?thesis
    using near_signed [of _ "of_int n / 100 :: rat"] cents_double [of n] by simp
qed

lemma near_or: "near x q d \<Longrightarrow> near (num_or x zero) q d"
  by (cases x) (auto simp: near_def num_or_def split: if_splits)

text \<open>Adding up with an operation that is as exact as the sum of two numbers\<close>

lemma near_foldl_by:
  assumes add: "\<And>x y p q a b. near x p a \<Longrightarrow> near y q b \<Longrightarrow> \<bar>p + q\<bar> + a + b < 2 ^ 30
      \<Longrightarrow> near (add x y) (p + q) (a + b + 1 / 2 ^ 24)"
    and "near a p d" and "\<And>x. x \<in> set xs \<Longrightarrow> near (f x) (q x) (1 / 2 ^ 24)"
    and "\<bar>p\<bar> + (\<Sum>x\<leftarrow>xs. \<bar>q x\<bar>) + d + of_nat (length xs) / 2 ^ 23 < 2 ^ 30"
  shows "near (foldl add a (map f xs)) (p + (\<Sum>x\<leftarrow>xs. q x)) (d + of_nat (length xs) / 2 ^ 23)"
  using assms(2-)
proof (induction xs arbitrary: a p d)
  case (Cons x xs)
  define S L where "S = (\<Sum>x\<leftarrow>xs. \<bar>q x\<bar>)" and "L = (of_nat (length xs) :: rat)"
  have S: "0 \<le> S" "0 \<le> L" by (auto simp: S_def L_def intro!: sum_list_nonneg)
  have hyp: "\<bar>p\<bar> + (\<bar>q x\<bar> + S) + d + (1 + L) / 2 ^ 23 < 2 ^ 30"
    using Cons.prems(3) by (simp add: S_def L_def)
  have tri: "\<bar>p + q x\<bar> \<le> \<bar>p\<bar> + \<bar>q x\<bar>" by (rule abs_triangle_ineq)
  have "near (add a (f x)) (p + q x) (d + 1 / 2 ^ 24 + 1 / 2 ^ 24)"
    using Cons.prems(1,2) hyp tri S by (intro add) (auto simp: add_divide_distrib)
  then have step: "near (add a (f x)) (p + q x) (d + 1 / 2 ^ 23)" by (simp add: add.commute)
  have "near (foldl add (add a (f x)) (map f xs)) (p + q x + (\<Sum>x\<leftarrow>xs. q x))
      (d + 1 / 2 ^ 23 + of_nat (length xs) / 2 ^ 23)"
    using Cons.prems(2) hyp tri
    by (intro Cons.IH [OF step]) (auto simp: add_divide_distrib S_def L_def)
  then show ?case by (simp add: add_divide_distrib add.assoc)
qed simp

lemma near_num_sum:
  assumes "\<And>x. x \<in> set xs \<Longrightarrow> near (f x) (q x) (1 / 2 ^ 24)"
    and "(\<Sum>x\<leftarrow>xs. \<bar>q x\<bar>) + of_nat (length xs) / 2 ^ 23 < 2 ^ 30"
  shows "near (num_sum (map f xs)) (\<Sum>x\<leftarrow>xs. q x) (of_nat (length xs) / 2 ^ 23)"
  using near_foldl_by [where add = num_add, OF near_add near_zero assms(1)] assms(2) by (simp add: num_sum_def)

text \<open>A difference of whole cents is below half a cent exactly when it is zero.\<close>

lemma near_balanced:
  assumes "near x (of_int k / 100) d" and "d < 1 / 1000"
  shows "num_less (num_abs x) (num_of (5 / 1000)) \<longleftrightarrow> k = 0"
proof -
  obtain s m where x: "x = Num s m" using assms(1) by (cases x) (auto simp: near_def)
  have d: "\<bar>num_val x - of_int k / 100\<bar> \<le> d" using assms(1) by (simp add: near_def)
  have "0 \<le> d" using abs_ge_zero d by (rule order_trans)
  define h where "h = num_of (5 / 1000)"
  have "near h (5 / 1000) (1 / 2 ^ 24)" unfolding h_def by (rule near_round) simp
  then obtain u n where h: "h = Num u n" and hv: "\<bar>num_val h - 5 / 1000\<bar> \<le> 1 / 2 ^ 24"
    by (cases h) (auto simp: near_def)
  have half: "1 / 1000 < num_val h" "num_val h < 9 / 1000" using hv unfolding abs_le_iff by simp_all
  have less: "num_less (num_abs x) (num_of (5 / 1000)) \<longleftrightarrow> m < num_val h"
    unfolding h_def [symmetric] by (simp add: x h)
  have m: "m = num_val x \<or> m = - num_val x" "0 \<le> m"
    using assms(1) by (auto simp: x near_def double_mag_nonneg)
  show ?thesis
  proof (cases "k = 0")
    case True
    with d assms(2) m half have "m < num_val h" by (auto simp: abs_le_iff)
    with True show ?thesis unfolding less by simp
  next
    case False
    then have "1 \<le> k \<or> k \<le> - 1" by linarith
    then have "(1 :: rat) / 100 \<le> of_int k / 100 \<or> of_int k / 100 \<le> (- 1 :: rat) / 100"
      by (auto simp: divide_right_mono)
    moreover have "num_val x - of_int k / 100 \<le> d" "of_int k / 100 - num_val x \<le> d"
      using d unfolding abs_le_iff by linarith+
    ultimately have "9 / 1000 \<le> num_val x \<or> num_val x \<le> - 9 / 1000"
      using assms(2) by linarith
    with m half have "\<not> m < num_val h" by linarith
    with False show ?thesis unfolding less by simp
  qed
qed

section \<open>Sums of cents\<close>

lemma sum_list_of_int: "(\<Sum>x\<leftarrow>xs. (of_int (f x) :: rat) / 100) = of_int (\<Sum>x\<leftarrow>xs. f x) / 100"
  by (induction xs) (simp_all add: add_divide_distrib)

lemma sum_list_filter_le:
  fixes f :: "'a \<Rightarrow> int"
  assumes "\<And>x. 0 \<le> f x"
  shows "(\<Sum>x\<leftarrow>filter P xs. f x) \<le> (\<Sum>x\<leftarrow>xs. f x)"
  using assms by (induction xs) (auto intro: add_increasing)

end
