(* ===== verification/ReconcileLaws.thy ===== *)
theory ReconcileLaws
  imports ReconcileWizard JsSum AmountText RegisterUtils
begin

text \<open>
  What the reconcile wizard guarantees: which splits reach the server, what is preselected, that
  half a cent of tolerance makes the balance test exact to the cent, and how the suggested
  ending balance relates to it.
\<close>

section \<open>The two handlers\<close>

lemma wizard_edit_loading [simp]: "wz_loading (wizard_edit cn ev st) = wz_loading st"
  by (cases ev)
    (auto simp: suggestion_settled_def balances_settled_def toggleEntry_def selectAll_def
      deselectAll_def split: sum.splits option.splits)

interpretation starting: async_handler "handleStartReconcile lang guids" "start_settled d"
  "wizard_edit cn" wz_loading
  by unfold_locales
    (auto simp: handleStartReconcile_def start_settled_def Let_def split: if_splits sum.splits)

interpretation finishing: async_handler "handleFinish cn" "\<lambda>res st. fst (finish_settled res st)"
  "wizard_edit cn" wz_loading
  by unfold_locales
    (auto simp: handleFinish_def finish_settled_def split: if_splits sum.splits)

section \<open>Order of the entries\<close>

interpretation posted: comparator posted_later "\<lambda>e. date_parse (re_post_date e) \<noteq> None"
  by (rule key_comparator [where key = "\<lambda>e. the (date_parse (re_post_date e))"])
    (auto simp: posted_later_def)

lemma not_after_iff:
  "not_after c e \<longleftrightarrow> (\<exists>d c'. date_parse (re_post_date e) = Some d \<and> c = Some c' \<and> d \<le> c')"
  by (auto simp: not_after_def split: option.splits)

lemma set_flat_registers:
  "Some e \<in> set (flat_registers regs) \<longleftrightarrow> (\<exists>es. Some es \<in> set regs \<and> e \<in> set es)"
proof -
  have "Some e \<in> set (flat_register r) \<longleftrightarrow> (\<exists>es. r = Some es \<and> e \<in> set es)" for r
    by (cases r) auto
  then show ?thesis by (auto simp: flat_registers_def)
qed

lemma set_unreconciled:
  "e \<in> set (unreconciled d regs) \<longleftrightarrow>
    (\<exists>es. Some es \<in> set regs \<and> e \<in> set es) \<and> re_state e \<noteq> ''y'' \<and> not_after (cutoff d) e"
  unfolding set_flat_registers [symmetric] by (force simp: unreconciled_def)

lemma sorted_unreconciled:
  "sorted_wrt (\<lambda>a b. the (date_parse (re_post_date a)) \<le> the (date_parse (re_post_date b))) (unreconciled d regs)"
proof -
  let ?xs = "map the (filter (\<lambda>e. e \<noteq> None \<and> re_state (the e) \<noteq> ''y'' \<and> not_after (cutoff d) (the e))
      (flat_registers regs))"
  have "\<forall>e\<in>set ?xs. date_parse (re_post_date e) \<noteq> None" by (auto simp: not_after_iff)
  from posted.sorted_sort_by [OF this]
  have "sorted_wrt (\<lambda>a b. \<not> posted_later a b) (unreconciled d regs)"
    by (simp add: unreconciled_def)
  then show ?thesis
  proof (rule sorted_wrt_mono_rel [rotated])
    fix a b assume "a \<in> set (unreconciled d regs)" "b \<in> set (unreconciled d regs)" "\<not> posted_later a b"
    then show "the (date_parse (re_post_date a)) \<le> the (date_parse (re_post_date b))"
      unfolding set_unreconciled not_after_iff by (auto simp: posted_later_def)
  qed
qed

section \<open>Sets of selected splits\<close>

lemma set_fold_set_add: "set (fold set_add xs acc) = set acc \<union> set xs"
  by (induction xs arbitrary: acc) (auto simp: set_add_def)

lemma distinct_fold_set_add: "distinct acc \<Longrightarrow> distinct (fold set_add xs acc)"
  by (induction xs arbitrary: acc) (auto simp: set_add_def)

lemma set_of_list_simps [simp]: "set (set_of_list xs) = set xs" "distinct (set_of_list xs)"
  by (simp_all add: set_of_list_def set_fold_set_add distinct_fold_set_add)

text \<open>The selection never leaves the listed entries.\<close>

definition wizard_ok :: "wizard \<Rightarrow> bool" where
  "wizard_ok st \<longleftrightarrow> distinct (wz_selected st) \<and> set (wz_selected st) \<subseteq> re_split ` set (wz_entries st)"

lemma wizard_ok_init [inv_intros]: "wizard_ok (wizard_init now)"
  by (simp add: wizard_ok_def wizard_init_def)

lemma wizard_ok_start [inv_intros]: "wizard_ok st \<Longrightarrow> wizard_ok (start_settled d res st)"
  by (auto simp: wizard_ok_def start_settled_def Let_def preselected_def split: sum.splits)

lemma columns_subset: "set (leftEntries cn es) \<union> set (rightEntries cn es) \<subseteq> set es"
  by (auto simp: leftEntries_def rightEntries_def split: if_splits)

lemma wizard_edit_entries [simp]: "wz_entries (wizard_edit cn ev st) = wz_entries st"
  by (cases ev)
    (auto simp: suggestion_settled_def balances_settled_def toggleEntry_def selectAll_def
      deselectAll_def split: sum.splits option.splits)

lemma wizard_ok_edit [inv_intros]:
  assumes "wizard_ok st"
  shows "wizard_ok (wizard_edit cn ev st)"
proof (cases ev)
  case (ClickRow g)
  with assms columns_subset [of cn "wz_entries st"] show ?thesis
    by (auto simp: wizard_ok_def toggleEntry_def distinct_removeAll)
qed (use assms in \<open>auto simp: wizard_ok_def suggestion_settled_def balances_settled_def selectAll_def
    deselectAll_def split: sum.splits option.splits\<close>)

lemma wizard_edits_ok [inv_intros]: "wizard_ok st \<Longrightarrow> wizard_ok (fold (wizard_edit cn) evs st)"
  by (induction evs arbitrary: st) (simp_all add: wizard_ok_edit)

lemma wizard_edits_entries [simp]: "wz_entries (fold (wizard_edit cn) evs st) = wz_entries st"
  by (induction evs arbitrary: st) simp_all

lemma isBalanced_loading [simp]: "isBalanced cn (st\<lparr>wz_loading := b\<rparr>) = isBalanced cn st"
  by (simp add: isBalanced_def difference_def endingNum_def displayReconciledBalance_def
      internalReconciledBalance_def leftTotal_def rightTotal_def)

text \<open>
  C17. Whatever the user selects after the registers have arrived, a reconciliation sends only
  splits of unreconciled entries of the given accounts dated up to the statement date, each
  once, and only when the difference shown is below half a cent.
\<close>

theorem reconcile_sends:
  assumes "wizard_ok st"
    and "handleFinish cn (fold (wizard_edit cn) evs (start_settled d (Inr regs) st)) = (st', Some guids)"
  shows "distinct guids
    \<and> (\<forall>g\<in>set guids. \<exists>es e. Some es \<in> set regs \<and> e \<in> set es \<and> re_split e = g
         \<and> re_state e \<noteq> ''y'' \<and> not_after (cutoff d) e)
    \<and> isBalanced cn st'"
proof -
  let ?s = "fold (wizard_edit cn) evs (start_settled d (Inr regs) st)"
  have g: "isBalanced cn ?s" "guids = wz_selected ?s" "st' = ?s\<lparr>wz_loading := True\<rparr>"
    using assms(2) by (auto simp: handleFinish_def split: if_splits)
  have "wizard_ok ?s" using assms(1) by (intro inv_intros)
  moreover have "wz_entries ?s = unreconciled d regs" by (simp add: start_settled_def Let_def)
  ultimately have "distinct guids" "set guids \<subseteq> re_split ` set (unreconciled d regs)"
    by (simp_all add: wizard_ok_def g(2))
  moreover have "\<exists>es e. Some es \<in> set regs \<and> e \<in> set es \<and> re_split e = x
         \<and> re_state e \<noteq> ''y'' \<and> not_after (cutoff d) e"
    if "x \<in> re_split ` set (unreconciled d regs)" for x
    using that unfolding image_iff Bex_def set_unreconciled by blast
  ultimately show ?thesis unfolding g(3) isBalanced_loading using g(1) by blast
qed

section \<open>Exact to the cent\<close>

text \<open>An entry is a deposit or a withdrawal of \<open>c e\<close> cents.\<close>

definition one_sided :: "(register_entry \<Rightarrow> int) \<Rightarrow> register_entry \<Rightarrow> bool" where
  "one_sided c e \<longleftrightarrow>
     re_deposit e = Some (cents (c e)) \<and> re_withdrawal e = None
     \<or> re_deposit e = None \<and> re_withdrawal e = Some (cents (c e))"

text \<open>Its effect on the account, in the sign of the server's balances\<close>

definition effect :: "bool \<Rightarrow> (register_entry \<Rightarrow> int) \<Rightarrow> register_entry \<Rightarrow> int" where
  "effect cn c e = (if (re_deposit e \<noteq> None) = cn then - c e else c e)"

lemma near_or_zero: "near x q d \<Longrightarrow> near (num_or x zero) q d"
  by (cases x) (auto simp: near_def num_or_def split: if_splits)

lemma near_entry:
  assumes "one_sided c e" and "\<bar>c e\<bar> \<le> 100 * 2 ^ 29"
  shows "near (entry_amount e) (of_int (c e) / 100) (1 / 2 ^ 24)"
  using assms(1) near_or_zero [OF near_cents [OF assms(2)]]
  by (auto simp: one_sided_def entry_amount_def num_or_def)

lemma abs_le_sum: "e \<in> set es \<Longrightarrow> \<bar>c e :: int\<bar> \<le> (\<Sum>e\<leftarrow>es. \<bar>c e\<bar>)"
proof (induction es)
  case (Cons x xs)
  have "0 \<le> (\<Sum>e\<leftarrow>xs. \<bar>c e\<bar>)" by (rule sum_list_nonneg) auto
  with Cons show ?case by auto
qed simp

lemma near_total:
  assumes "\<forall>e\<in>set es. one_sided c e" and "(\<Sum>e\<leftarrow>es. \<bar>c e\<bar>) \<le> 2 * 10 ^ 10" and "length es \<le> 4000"
  shows "near (num_sum (map entry_amount es)) (of_int (\<Sum>e\<leftarrow>es. c e) / 100) (4000 / 2 ^ 23)"
proof -
  have c: "\<bar>c e\<bar> \<le> 100 * 2 ^ 29" if "e \<in> set es" for e
    using abs_le_sum [OF that, of c] assms(2) by simp
  have "(\<Sum>e\<leftarrow>es. \<bar>of_int (c e) / 100 :: rat\<bar>) = of_int (\<Sum>e\<leftarrow>es. \<bar>c e\<bar>) / 100"
    by (induction es) (simp_all add: add_divide_distrib)
  also have "\<dots> \<le> 2 * 10 ^ 10 / 100"
    using assms(2) by (intro divide_right_mono) (simp_all flip: of_int_le_numeral_iff)
  finally have "near (num_sum (map entry_amount es)) (\<Sum>e\<leftarrow>es. of_int (c e) / 100) (of_nat (length es) / 2 ^ 23)"
    using assms(1,3) c by (intro near_num_sum near_entry) auto
  moreover have "(\<Sum>e\<leftarrow>es. of_int (c e) / 100 :: rat) = of_int (\<Sum>e\<leftarrow>es. c e) / 100"
    by (induction es) (simp_all add: add_divide_distrib)
  ultimately show ?thesis using assms(3) by (auto elim!: near_mono)
qed

lemma sum_filter_le: "(\<Sum>e\<leftarrow>filter P es. \<bar>c e :: int\<bar>) \<le> (\<Sum>e\<leftarrow>es. \<bar>c e\<bar>)"
  by (induction es) auto

lemma abs_sum_le: "\<bar>\<Sum>e\<leftarrow>es. c e :: int\<bar> \<le> (\<Sum>e\<leftarrow>es. \<bar>c e\<bar>)"
  by (induction es) auto

lemma effect_split:
  assumes "\<forall>e\<in>set es. one_sided c e"
  shows "(\<Sum>e\<leftarrow>filter P es. effect cn c e)
    = (\<Sum>e\<leftarrow>filter P (leftEntries cn es). c e) - (\<Sum>e\<leftarrow>filter P (rightEntries cn es). c e)"
  using assms by (induction es) (auto simp: effect_def leftEntries_def rightEntries_def one_sided_def)

lemma cents_bound:
  assumes "\<bar>n\<bar> \<le> 2 * 10 ^ 10"
  shows "of_int n / 100 \<le> (2 * 10 ^ 8 :: rat)" "- (2 * 10 ^ 8) \<le> (of_int n / 100 :: rat)"
    "near (cents n) (of_int n / 100) (1 / 2 ^ 24)"
proof -
  from assms have "n \<le> 2 * 10 ^ 10" "- (2 * 10 ^ 10) \<le> n" by auto
  then have "of_int n \<le> (2 * 10 ^ 10 :: rat)" "- (2 * 10 ^ 10) \<le> (of_int n :: rat)"
    by (simp_all flip: of_int_le_numeral_iff)
  then show "of_int n / 100 \<le> (2 * 10 ^ 8 :: rat)" "- (2 * 10 ^ 8) \<le> (of_int n / 100 :: rat)" by simp_all
  show "near (cents n) (of_int n / 100) (1 / 2 ^ 24)" using assms by (intro near_cents) simp
qed

lemma balanced_exact:
  assumes "wz_starting st = cents s" and "parse_float (wz_ending st) = cents e"
    and "\<forall>x\<in>set (wz_entries st). one_sided c x" and "length (wz_entries st) \<le> 4000"
    and "\<bar>s\<bar> + \<bar>e\<bar> + (\<Sum>x\<leftarrow>wz_entries st. \<bar>c x\<bar>) \<le> 2 * 10 ^ 10"
  shows "isBalanced cn st \<longleftrightarrow>
    (if cn then - e else e) = s + (\<Sum>x\<leftarrow>filter (\<lambda>x. re_split x \<in> set (wz_selected st)) (wz_entries st). effect cn c x)"
proof -
  let ?P = "\<lambda>x. re_split x \<in> set (wz_selected st)" and ?es = "wz_entries st"
  define L R where "L = (\<Sum>x\<leftarrow>filter ?P (leftEntries cn ?es). c x)"
    and "R = (\<Sum>x\<leftarrow>filter ?P (rightEntries cn ?es). c x)"
  have A: "0 \<le> (\<Sum>x\<leftarrow>?es. \<bar>c x\<bar>)" by (rule sum_list_nonneg) auto
  have side: "near (selected_total (wz_selected st) xs) (of_int (\<Sum>x\<leftarrow>filter ?P xs. c x) / 100) (4000 / 2 ^ 23)
      \<and> \<bar>\<Sum>x\<leftarrow>filter ?P xs. c x\<bar> \<le> 2 * 10 ^ 10" if "xs = filter Q ?es" for Q xs
  proof -
    have xs: "filter ?P xs = filter (\<lambda>x. Q x \<and> ?P x) ?es" using that by simp
    have "length (filter ?P xs) \<le> 4000"
      unfolding xs using assms(4) length_filter_le order_trans by blast
    moreover have "(\<Sum>x\<leftarrow>filter ?P xs. \<bar>c x\<bar>) \<le> 2 * 10 ^ 10"
      unfolding xs using sum_filter_le [of c _ ?es] assms(5) by (smt (verit))
    ultimately show ?thesis
      using assms(3) abs_sum_le [of c "filter ?P xs"] unfolding selected_total_def
      by (intro conjI near_total) (auto simp: xs)
  qed
  have L: "near (leftTotal cn st) (of_int L / 100) (4000 / 2 ^ 23)" "\<bar>L\<bar> \<le> 2 * 10 ^ 10"
    unfolding leftTotal_def L_def leftEntries_def using side by auto
  have R: "near (rightTotal cn st) (of_int R / 100) (4000 / 2 ^ 23)" "\<bar>R\<bar> \<le> 2 * 10 ^ 10"
    unfolding rightTotal_def R_def rightEntries_def using side by auto
  have s: "\<bar>s\<bar> \<le> 2 * 10 ^ 10" and e: "\<bar>e\<bar> \<le> 2 * 10 ^ 10" using assms(5) A by linarith+
  note b = cents_bound [OF s] cents_bound [OF e] cents_bound [OF L(2)] cents_bound [OF R(2)]
  have "near (num_add (wz_starting st) (leftTotal cn st)) (of_int s / 100 + of_int L / 100) (8002 / 2 ^ 24)"
    unfolding assms(1) using b by (intro near_mono [OF near_add [OF b(3) L(1)]]) (auto simp: abs_less_iff)
  then have I: "near (internalReconciledBalance cn st) (of_int s / 100 + of_int L / 100 - of_int R / 100) (16003 / 2 ^ 24)"
    unfolding internalReconciledBalance_def using b
    by (intro near_mono [OF near_sub [OF _ R(1)]]) (auto simp: abs_less_iff)
  define k where "k = (if cn then e + (s + L - R) else e - (s + L - R))"
  have ending: "near (endingNum st) (of_int e / 100) (1 / 2 ^ 24)"
    unfolding endingNum_def assms(2) by (intro near_or_zero b)
  have "near (difference cn st) (of_int k / 100) (16005 / 2 ^ 24)"
  proof (cases cn)
    case True
    then have diff: "difference cn st = num_sub (endingNum st) (num_neg (internalReconciledBalance cn st))"
      by (simp add: difference_def displayReconciledBalance_def)
    show ?thesis unfolding diff using True b
      by - (rule near_weaken [OF near_sub [OF ending near_neg [OF I]]],
        auto simp: k_def abs_less_iff add_divide_distrib diff_divide_distrib)
  next
    case False
    then have diff: "difference cn st = num_sub (endingNum st) (internalReconciledBalance cn st)"
      by (simp add: difference_def displayReconciledBalance_def)
    show ?thesis unfolding diff using False b
      by - (rule near_weaken [OF near_sub [OF ending I]],
        auto simp: k_def abs_less_iff add_divide_distrib diff_divide_distrib)
  qed
  then have "isBalanced cn st \<longleftrightarrow> k = 0"
    unfolding isBalanced_def by (rule near_balanced) simp
  then show ?thesis
    unfolding effect_split [OF assms(3)] L_def [symmetric] R_def [symmetric] k_def by auto
qed

text \<open>
  C18. With amounts in whole cents, at most 4000 entries and 200 million in all, the wizard is
  balanced exactly when the ending balance entered is, to the cent, the starting balance plus
  the effects of the selected entries: rounding in the sums never opens or closes the gate.
\<close>

theorem balanced_to_the_cent:
  assumes "wz_starting st = cents s" and "parse_float (wz_ending st) = cents e"
    and "\<forall>x\<in>set (wz_entries st). one_sided c x" and "length (wz_entries st) \<le> 4000"
    and "\<bar>s\<bar> + \<bar>e\<bar> + (\<Sum>x\<leftarrow>wz_entries st. \<bar>c x\<bar>) \<le> 2 * 10 ^ 10"
  shows "isBalanced cn st \<longleftrightarrow>
    (if cn then - e else e) = s + (\<Sum>x\<leftarrow>filter (\<lambda>x. re_split x \<in> set (wz_selected st)) (wz_entries st). effect cn c x)"
  using balanced_exact [OF assms] .

section \<open>Examples\<close>

definition sample_line :: "string \<Rightarrow> int \<Rightarrow> int \<Rightarrow> register_entry" where
  "sample_line day amount balance =
     (sample_entry day day)\<lparr>re_deposit := Some (cents amount), re_withdrawal := None, re_balance := cents balance\<rparr>"

definition sample_wizard :: wizard where
  "sample_wizard =
     (start_settled ''2024-03-31'' (Inr [Some [sample_line ''2024-03-05'' 1250 1250]]) (wizard_init 0))
       \<lparr>wz_starting := cents 0, wz_ending := ''12.50''\<rparr>"

lemma sample_dates:
  "date_parse ''2024-03-05'' = Some 1709596800000" "date_parse ''2024-03-07'' = Some 1709769600000"
  "cutoff ''2024-03-31'' = Some 1711929599000"
  by code_simp+

lemma sample_line_simps [simp]:
  "re_post_date (sample_line d a b) = d" "re_state (sample_line d a b) = ''n''"
  "re_balance (sample_line d a b) = cents b"
  by (simp_all add: sample_line_def sample_entry_def)

lemma sample_wizard_facts:
  "wz_entries sample_wizard = [sample_line ''2024-03-05'' 1250 1250]"
  "wz_starting sample_wizard = cents 0" "wz_ending sample_wizard = ''12.50''"
  "wz_selected sample_wizard = []" "\<not> wz_loading sample_wizard"
  by (simp_all add: sample_wizard_def start_settled_def unreconciled_def flat_registers_def
      not_after_def sample_dates preselected_def set_of_list_def)

lemma sample_ending:
  "to_fixed2 (cents 1250) = ''12.50''" "to_fixed2 (num_neg (cents 1250)) = ''-12.50''"
  "to_fixed2 (cents 5000) = ''50.00''" "parse_float ''12.50'' = cents 1250"
  by code_simp+

lemma sample_one_sided:
  "one_sided (\<lambda>e. 1250) (sample_line ''2024-03-05'' 1250 1250)"
  "effect False (\<lambda>e. 1250) (sample_line ''2024-03-05'' 1250 1250) = 1250"
  by (simp_all add: one_sided_def effect_def sample_line_def)

theorem balanced_to_the_cent_witness: "\<not> isBalanced False sample_wizard"
  using balanced_to_the_cent [of sample_wizard 0 1250 "\<lambda>e. 1250" False]
  by (simp add: sample_wizard_facts sample_ending sample_one_sided)

lemma sample_balanced: "isBalanced False (selectAll sample_wizard)"
proof -
  have "filter (\<lambda>x. re_split x \<in> set (wz_selected (selectAll sample_wizard))) (wz_entries sample_wizard)
      = wz_entries sample_wizard"
    by (simp add: selectAll_def filter_id_conv)
  then show ?thesis
    using balanced_exact [of "selectAll sample_wizard" 0 1250 "\<lambda>e. 1250" False]
    by (simp add: sample_wizard_facts sample_ending sample_one_sided selectAll_def)
qed

theorem reconcile_sends_witness:
  "\<exists>st' guids. handleFinish False (fold (wizard_edit False) [BalancesArrive (Inl Thrown), ClickAll]
      (start_settled ''2024-03-31'' (Inr [Some [sample_line ''2024-03-05'' 1250 1250]])
        (sample_wizard\<lparr>wz_entries := []\<rparr>))) = (st', Some guids)
    \<and> distinct guids"
proof -
  let ?st = "sample_wizard\<lparr>wz_entries := []\<rparr>"
  have ok: "wizard_ok ?st" by (simp add: wizard_ok_def sample_wizard_facts)
  have "fold (wizard_edit False) [BalancesArrive (Inl Thrown), ClickAll]
      (start_settled ''2024-03-31'' (Inr [Some [sample_line ''2024-03-05'' 1250 1250]]) ?st) = selectAll sample_wizard"
    by (simp add: balances_settled_def selectAll_def sample_wizard_def start_settled_def Let_def)
  then obtain st' guids where "handleFinish False (fold (wizard_edit False) [BalancesArrive (Inl Thrown), ClickAll]
      (start_settled ''2024-03-31'' (Inr [Some [sample_line ''2024-03-05'' 1250 1250]]) ?st)) = (st', Some guids)"
    using sample_balanced by (simp add: handleFinish_def)
  with reconcile_sends [OF ok this] show ?thesis by blast
qed

section \<open>What is listed\<close>

text \<open>
  Starting lists exactly the entries of the accounts that are not reconciled and dated up to
  the statement date, as often as they occur and in the order of their dates, and selects those
  already marked as cleared.
\<close>

theorem start_lists:
  "mset (wz_entries (start_settled d (Inr regs) st))
     = mset (filter (\<lambda>e. re_state e \<noteq> ''y'' \<and> not_after (cutoff d) e) (List.map_filter (\<lambda>e. e) (flat_registers regs)))
   \<and> sorted_wrt (\<lambda>a b. the (date_parse (re_post_date a)) \<le> the (date_parse (re_post_date b)))
       (wz_entries (start_settled d (Inr regs) st))
   \<and> set (wz_selected (start_settled d (Inr regs) st))
     = re_split ` {e \<in> set (wz_entries (start_settled d (Inr regs) st)). re_state e = ''c''}
   \<and> wz_page (start_settled d (Inr regs) st) = SelectPage"
proof -
  have "map the (filter (\<lambda>e. e \<noteq> None \<and> P (the e)) xs) = filter P (List.map_filter (\<lambda>e. e) xs)"
    for P and xs :: "register_entry option list"
    by (induction xs) (auto simp: List.map_filter_def)
  from this [of "\<lambda>e. re_state e \<noteq> ''y'' \<and> not_after (cutoff d) e" "flat_registers regs"] show ?thesis
    using sorted_unreconciled [of d regs]
    by (simp add: start_settled_def Let_def unreconciled_def preselected_def)
qed

section \<open>The suggested ending balance\<close>

lemma last_balance_sorted:
  assumes "sorted_wrt (\<lambda>a b. \<not> posted_later a b) es" and "\<forall>e\<in>set es. date_parse (re_post_date e) \<noteq> None"
  shows "last_balance c b es = (case rev (filter (not_after c) es) of [] \<Rightarrow> b | e # _ \<Rightarrow> re_balance e)"
  using assms
proof (induction es arbitrary: b)
  case (Cons e es)
  show ?case
  proof (cases "not_after c e")
    case True
    with Cons show ?thesis by (auto split: list.splits)
  next
    case False
    have "\<not> not_after c x" if "x \<in> set es" for x
      using Cons.prems False that by (fastforce simp: not_after_def posted_later_def split: option.splits)
    then have "filter (not_after c) es = []" by (simp add: filter_empty_conv)
    with False show ?thesis by simp
  qed
qed simp

text \<open>
  C20. For one account whose register is in the order of its dates, the suggestion is the running
  balance after the last entry up to the statement date, with the sign the user expects; before
  any entry it is zero.
\<close>

theorem suggestion_one_account:
  assumes "sorted_wrt (\<lambda>a b. \<not> posted_later a b) es" and "\<forall>e\<in>set es. date_parse (re_post_date e) \<noteq> None"
  shows "suggested_ending cn d [Some es] =
    Some (to_fixed2 (case rev (filter (not_after (cutoff d)) es) of
            [] \<Rightarrow> if cn then num_neg zero else zero
          | e # _ \<Rightarrow> if cn then num_neg (re_balance e) else re_balance e))"
proof -
  have "flat_registers [Some es] = map Some es" by (simp add: flat_registers_def)
  then show ?thesis
    using last_balance_sorted [OF assms, of "cutoff d" zero] posted.sort_by_sorted_id [OF assms(1)]
    by (simp add: suggested_ending_def Let_def image_iff comp_def split: list.splits)
qed

theorem suggestion_one_account_witness:
  "suggested_ending True ''2024-03-31'' [Some [sample_line ''2024-03-05'' 1250 1250]] = Some ''-12.50''"
  using suggestion_one_account [of "[sample_line ''2024-03-05'' 1250 1250]" True "''2024-03-31''"]
  by (simp add: posted_later_def not_after_def sample_dates sample_ending)

text \<open>
  The suggestion fails for groups of accounts: one account without any entry suppresses it,
  and for two accounts with 100.00 and 50.00 it is the balance of one of them.
\<close>

theorem suggestion_gaps:
  "suggested_ending cn d (xs @ None # ys) = None
   \<and> suggested_ending False ''2024-03-31'' [Some [sample_line ''2024-03-05'' 10000 10000],
       Some [sample_line ''2024-03-07'' 5000 5000]] = Some ''50.00''"
proof
  have "None \<in> set (flat_registers (xs @ None # ys))" by (simp add: flat_registers_def)
  then show "suggested_ending cn d (xs @ None # ys) = None" by (simp add: suggested_ending_def Let_def)
  show "suggested_ending False ''2024-03-31'' [Some [sample_line ''2024-03-05'' 10000 10000],
       Some [sample_line ''2024-03-07'' 5000 5000]] = Some ''50.00''"
    by (simp add: suggested_ending_def flat_registers_def posted_later_def not_after_def sample_dates sample_ending)
qed

text \<open>
  Keeping the suggestion and selecting everything completes the reconciliation: when the
  balance suggested is the starting balance plus the effects of the entries listed, the button
  that finishes is enabled.
\<close>

theorem select_all_balances:
  assumes "wz_ending st = to_fixed2 (if cn then num_neg (cents b) else cents b)" and "wz_starting st = cents s"
    and "\<forall>x\<in>set (wz_entries st). one_sided c x" and "length (wz_entries st) \<le> 4000"
    and "\<bar>s\<bar> + \<bar>b\<bar> + (\<Sum>x\<leftarrow>wz_entries st. \<bar>c x\<bar>) \<le> 2 * 10 ^ 10"
    and "b = s + (\<Sum>x\<leftarrow>wz_entries st. effect cn c x)" and "wz_entries st \<noteq> []" and "\<not> wz_loading st"
  shows "finish_enabled cn (selectAll st)"
proof -
  have "0 \<le> (\<Sum>x\<leftarrow>wz_entries st. \<bar>c x\<bar>)" by (rule sum_list_nonneg) auto
  with assms(5) have b: "\<bar>b\<bar> \<le> 2 * 10 ^ 10" by linarith
  then have small: "\<bar>b\<bar> \<le> 2 ^ 50" "\<bar>- b\<bar> \<le> 2 ^ 50" by auto
  have "to_fixed2 (num_neg (cents b)) = to_fixed2 (cents (- b))"
  proof (cases "b = 0")
    case True
    have "to_fixed2 (num_neg (cents 0)) = to_fixed2 (cents (- 0))" by code_simp
    with True show ?thesis by simp
  next
    case False
    with cents_mag(1) [OF small(1)] cents_mag(1) [OF small(2)]
    have "num_neg (cents b) = cents (- b)" by auto
    then show ?thesis by simp
  qed
  with small have p: "parse_float (wz_ending st) = cents (if cn then - b else b)"
    by (simp add: assms(1) parse_fixed2_cents)
  let ?st = "selectAll st"
  have f: "wz_ending ?st = wz_ending st" "wz_starting ?st = wz_starting st" "wz_entries ?st = wz_entries st"
    "wz_loading ?st = wz_loading st" "set (wz_selected ?st) = re_split ` set (wz_entries st)"
    by (simp_all add: selectAll_def)
  have "filter (\<lambda>x. re_split x \<in> set (wz_selected ?st)) (wz_entries st) = wz_entries st"
    by (simp add: f(5) filter_id_conv)
  then have "isBalanced cn ?st"
    using balanced_exact [of ?st s "if cn then - b else b" c cn] assms(2-5) p f assms(6) [symmetric]
    by (cases cn) simp_all
  then show ?thesis using assms(7,8) f(4,5) by (auto simp: finish_enabled_def)
qed

theorem select_all_balances_witness:
  "finish_enabled False (selectAll sample_wizard)"
proof (rule select_all_balances [of sample_wizard False 1250 0 "\<lambda>e. 1250"])
  show "wz_ending sample_wizard = to_fixed2 (if False then num_neg (cents 1250) else cents 1250)"
    by (simp add: sample_wizard_facts sample_ending)
qed (simp_all add: sample_wizard_facts sample_one_sided)

end
