(* ===== verification/Register.thy ===== *)
theory Register
  imports I18n RegisterUtils DateShortcut
begin

text \<open>
  The register table (\<^verbatim>\<open>components/Register.tsx\<close>): loading more on scrolling, the marks
  of reconciliation, the row to scroll to, and what each row shows. \<open>offset\<close> is the host's time
  zone and \<open>now\<close> the current time.
\<close>

section \<open>Scrolling\<close>

datatype direction = Before | After

record scroll_box =
  scroll_top :: number
  scroll_height :: number
  client_height :: number

text \<open>The loads a scroll event asks for, in order\<close>

definition handleScroll :: "bool \<Rightarrow> bool \<Rightarrow> bool \<Rightarrow> bool \<Rightarrow> scroll_box option \<Rightarrow> direction list" where
  "handleScroll hasBefore hasAfter canLoad loadingMore container =
     (case container of
        None \<Rightarrow> []
      | Some b \<Rightarrow>
          if loadingMore then []
          else (if num_less (scroll_top b) (num_of_int 100) \<and> hasBefore \<and> canLoad then [Before] else [])
             @ (if num_less (num_sub (scroll_height b) (num_of_int 100)) (num_add (scroll_top b) (client_height b))
                   \<and> hasAfter \<and> canLoad then [After] else []))"

text \<open>In the next frame the content grown above is scrolled past.\<close>

definition preserved_top :: "scroll_box \<Rightarrow> scroll_box \<Rightarrow> scroll_box" where
  "preserved_top before after =
     after\<lparr>scroll_top := num_add (scroll_top before) (num_sub (scroll_height after) (scroll_height before))\<rparr>"

text \<open>The buttons above and below the table and the loading notes\<close>

definition load_controls :: "bool \<Rightarrow> bool \<Rightarrow> bool \<Rightarrow> bool \<times> bool \<times> bool \<times> bool" where
  "load_controls hasBefore hasAfter loadingMore =
     (loadingMore \<and> hasBefore, hasBefore \<and> \<not> loadingMore, hasAfter \<and> \<not> loadingMore, loadingMore \<and> hasAfter)"

section \<open>Marks of reconciliation\<close>

datatype mark = FullCircle | HalfCircle | OpenCircle

definition reconcileIcon :: "string \<Rightarrow> mark" where
  "reconcileIcon state = (if state = ''y'' then FullCircle else if state = ''c'' then HalfCircle else OpenCircle)"

definition reconcileColor :: "string \<Rightarrow> string" where
  "reconcileColor state =
     (if state = ''y'' then ''var(--color-income)''
      else if state = ''c'' then ''var(--color-info, #60a5fa)'' else ''var(--text-muted)'')"

definition reconcileTooltip :: "language \<Rightarrow> string \<Rightarrow> string" where
  "reconcileTooltip lang state =
     (if state = ''y'' then t lang ''register.reconcile.tooltip.y''
      else if state = ''c'' then t lang ''register.reconcile.tooltip.c''
      else t lang ''register.reconcile.tooltip.n'')"

text \<open>The request a click makes, and the change reported when the server has accepted it\<close>

definition handleReconcileClick :: "string \<Rightarrow> string \<Rightarrow> string \<times> string" where
  "handleReconcileClick splitGuid currentState = (splitGuid, if currentState = ''n'' then ''c'' else ''n'')"

definition reconcile_click_settled :: "js_error + unit \<Rightarrow> string \<times> string \<Rightarrow> (string \<times> string) option" where
  "reconcile_click_settled res req = (case res of Inr _ \<Rightarrow> Some req | Inl _ \<Rightarrow> None)"

section \<open>Days\<close>

definition local_date :: "(int \<Rightarrow> int) \<Rightarrow> int \<Rightarrow> string" where
  "local_date offset ms =
     (case civil ((ms + offset ms) div ms_per_day) of
        (y, m, d) \<Rightarrow> dec_int y @ ''-'' @ pad2 (m + 1) @ ''-'' @ pad2 d)"

definition post_date_str :: "(int \<Rightarrow> int) \<Rightarrow> register_entry \<Rightarrow> string" where
  "post_date_str offset e =
     (case date_parse (re_post_date e) of Some ms \<Rightarrow> local_date offset ms | None \<Rightarrow> ''NaN-NaN-NaN'')"

definition getRowClass :: "string \<Rightarrow> string \<Rightarrow> bool \<Rightarrow> string" where
  "getRowClass todayStr postDateStr isHoverable =
     (let d = before_char (CHR ''T'') postDateStr;
          timeClass = (if d < todayStr then ''row-past'' else if d = todayStr then ''row-today'' else ''row-future'')
      in js_join '' '' (filter (\<lambda>s. s \<noteq> []) [if isHoverable then ''hoverable-row'' else [], timeClass]))"

definition entry_day :: "register_entry \<Rightarrow> string" where
  "entry_day e = before_char (CHR ''T'') (re_post_date e)"

text \<open>The loop leaves at the first entry of the target day or later.\<close>

fun focus_loop :: "string \<Rightarrow> int \<Rightarrow> int \<Rightarrow> register_entry list \<Rightarrow> int" where
  "focus_loop targetDate i focus [] = focus"
| "focus_loop targetDate i focus (e # es) =
     (if targetDate \<le> entry_day e then (if entry_day e = targetDate then i else max 0 (i - 1))
      else focus_loop targetDate (i + 1) focus es)"

definition focusIndex :: "string \<Rightarrow> string option \<Rightarrow> register_entry list \<Rightarrow> int" where
  "focusIndex todayStr scrollTargetDate entries =
     focus_loop (case scrollTargetDate of Some d \<Rightarrow> d | None \<Rightarrow> todayStr) 0
       (if entries \<noteq> [] then int (length entries) - 1 else -1) entries"

section \<open>Rows\<close>

definition register_liability :: "account_type option \<Rightarrow> bool" where
  "register_liability ty \<longleftrightarrow> ty = Some LIABILITY \<or> ty = Some CREDIT"

definition register_credit_normal :: "account_type option \<Rightarrow> bool" where
  "register_credit_normal ty \<longleftrightarrow> register_liability ty \<or> ty = Some INCOME \<or> ty = Some EQUITY"

definition depositLabel :: "language \<Rightarrow> account_type option \<Rightarrow> string" where
  "depositLabel lang ty = (if register_liability ty then t lang ''register.decrease'' else t lang ''register.deposit'')"

definition withdrawalLabel :: "language \<Rightarrow> account_type option \<Rightarrow> string" where
  "withdrawalLabel lang ty =
     (if register_liability ty then t lang ''register.increase'' else t lang ''register.withdrawal'')"

definition register_header :: "language \<Rightarrow> account_type option \<Rightarrow> string list" where
  "register_header lang ty =
     [t lang ''register.num'', t lang ''register.date'', t lang ''register.description'', t lang ''register.transfer'',
      t lang ''register.reconcile'', depositLabel lang ty, withdrawalLabel lang ty, t lang ''register.balance'',
      t lang ''register.memo'', []]"

definition row_balance :: "account_type option \<Rightarrow> register_entry \<Rightarrow> number \<times> bool" where
  "row_balance ty e =
     (let displayBalance = (if register_credit_normal ty then num_neg (re_balance e) else re_balance e);
          isZero = num_less (num_abs displayBalance) (num_of (5 / 1000))
      in (if isZero then zero else displayBalance, isZero))"

definition optional_money :: "(number \<Rightarrow> string) \<Rightarrow> number option \<Rightarrow> string" where
  "optional_money money x = (case x of Some v \<Rightarrow> money v | None \<Rightarrow> [])"

record register_row =
  rr_focused :: bool
  rr_class :: string
  rr_num :: string
  rr_date :: string
  rr_description :: string
  rr_transfer :: string
  rr_jump :: "(string \<times> string) option"
  rr_mark :: mark
  rr_mark_color :: string
  rr_mark_title :: string
  rr_deposit :: string
  rr_withdrawal :: string
  rr_balance_color :: string
  rr_balance :: string
  rr_memo :: string

text \<open>\<open>rr_jump\<close> is the path of the transfer account and the day to open it at.\<close>

definition register_row_of ::
  "(int \<Rightarrow> int) \<Rightarrow> int \<Rightarrow> language \<Rightarrow> (number \<Rightarrow> string) \<Rightarrow> account_type option \<Rightarrow> bool \<Rightarrow> int \<Rightarrow> int
    \<Rightarrow> register_entry \<Rightarrow> register_row" where
  "register_row_of offset now lang money ty hoverable focus i e =
     (let (finalBalance, isZero) = row_balance ty e
      in \<lparr>rr_focused = (i = focus),
          rr_class = getRowClass (local_date offset now) (post_date_str offset e) hoverable,
          rr_num = (if re_custom_id e \<noteq> [] then re_custom_id e else dec_int (i + 1)),
          rr_date = formatDate offset (re_post_date e),
          rr_description = re_description e,
          rr_transfer = re_transfer e,
          rr_jump = (if re_transfer_guid e \<noteq> [] then Some (''/accounts/'' @ re_transfer_guid e, entry_day e) else None),
          rr_mark = reconcileIcon (re_state e),
          rr_mark_color = reconcileColor (re_state e),
          rr_mark_title = reconcileTooltip lang (re_state e),
          rr_deposit = optional_money money (if register_liability ty then re_withdrawal e else re_deposit e),
          rr_withdrawal = optional_money money (if register_liability ty then re_deposit e else re_withdrawal e),
          rr_balance_color = (if isZero then ''var(--text-muted)''
             else if num_le zero finalBalance then ''var(--color-income)'' else ''var(--color-expense)''),
          rr_balance = money finalBalance,
          rr_memo = re_memo e\<rparr>)"

fun rows_from :: "(int \<Rightarrow> register_entry \<Rightarrow> register_row) \<Rightarrow> int \<Rightarrow> register_entry list \<Rightarrow> register_row list" where
  "rows_from row i [] = []"
| "rows_from row i (e # es) = row i e # rows_from row (i + 1) es"

text \<open>The table, or the text shown for a register without entries\<close>

definition register_view ::
  "(int \<Rightarrow> int) \<Rightarrow> int \<Rightarrow> language \<Rightarrow> (number \<Rightarrow> string) \<Rightarrow> account_type option \<Rightarrow> bool \<Rightarrow> string \<Rightarrow> string option
    \<Rightarrow> register_entry list \<Rightarrow> string + register_row list" where
  "register_view offset now lang money ty hoverable accountName scrollTargetDate entries =
     (if entries = [] then Inl (t lang ''register.noEntries'' @ '' '' @ accountName)
      else Inr (rows_from
        (register_row_of offset now lang money ty hoverable
          (focusIndex (local_date offset now) scrollTargetDate entries)) 0 entries))"

text \<open>Deleting asks first; the transaction to delete, if confirmed.\<close>

definition handleDelete :: "bool \<Rightarrow> register_entry \<Rightarrow> string option" where
  "handleDelete confirmed e = (if confirmed then Some (re_tx e) else None)"

section \<open>The row to scroll to\<close>

lemma focus_loop_spec:
  assumes "sorted_wrt (\<le>) (map entry_day es)" and "0 \<le> i" and "es \<noteq> [] \<longrightarrow> focus = i + int (length es) - 1"
  shows "focus_loop d i focus es =
    (if d \<in> entry_day ` set es then i + int (length (takeWhile (\<lambda>e. entry_day e \<noteq> d) es))
     else if es = [] then focus
     else max 0 (i + int (length (filter (\<lambda>e. entry_day e < d) es)) - 1))"
  using assms
proof (induction es arbitrary: i)
  case (Cons e es)
  consider (eq) "entry_day e = d" | (less) "entry_day e < d" | (gt) "d < entry_day e" by fastforce
  then show ?case
  proof cases
    case gt
    with Cons.prems have "\<forall>x\<in>set (e # es). d < entry_day x" by fastforce
    then have "d \<notin> entry_day ` set (e # es)" "filter (\<lambda>e. entry_day e < d) (e # es) = []"
      by (auto simp: filter_empty_conv)
    moreover from gt have "d \<le> entry_day e" "entry_day e \<noteq> d" by auto
    ultimately show ?thesis by simp
  next
    case less
    show ?thesis
    proof (cases "es = []")
      case True
      with less Cons.prems show ?thesis by auto
    next
      case False
      with less Cons.IH [of "i + 1"] Cons.prems show ?thesis by (auto simp: algebra_simps)
    qed
  qed simp
qed simp

text \<open>
  The register opens at the right row: with entries in the order of their days, the first
  entry of the target day (the day jumped to, or today) when there is one, otherwise the last
  entry before that day, or the first of all; the index is always that of an entry.
\<close>

theorem register_focus:
  assumes "sorted_wrt (\<le>) (map entry_day es)" and "es \<noteq> []"
    and "d = (case target of Some x \<Rightarrow> x | None \<Rightarrow> today)"
  shows "focusIndex today target es =
      (if d \<in> entry_day ` set es then int (length (takeWhile (\<lambda>e. entry_day e \<noteq> d) es))
       else max 0 (int (length (filter (\<lambda>e. entry_day e < d) es)) - 1))
    \<and> 0 \<le> focusIndex today target es \<and> focusIndex today target es < int (length es)"
proof -
  have eq: "focusIndex today target es =
      (if d \<in> entry_day ` set es then int (length (takeWhile (\<lambda>e. entry_day e \<noteq> d) es))
       else max 0 (int (length (filter (\<lambda>e. entry_day e < d) es)) - 1))"
    using focus_loop_spec [OF assms(1), of 0] assms(2,3) by (simp add: focusIndex_def)
  have "length (takeWhile (\<lambda>e. entry_day e \<noteq> d) es) < length es" if "d \<in> entry_day ` set es"
    using that by (induction es) auto
  moreover have "length (filter (\<lambda>e. entry_day e < d) es) \<le> length es" by (rule length_filter_le)
  ultimately show ?thesis using assms(2) eq by (cases es) auto
qed

theorem register_focus_witness:
  "focusIndex ''2024-02-01'' None [sample_entry ''2024-01-05T11:00:00Z'' ''1'', sample_entry ''2024-03-01'' ''2''] = 0"
  using register_focus [of "[sample_entry ''2024-01-05T11:00:00Z'' ''1'', sample_entry ''2024-03-01'' ''2'']"
      "''2024-02-01''" "''2024-02-01''" None]
  by (simp add: entry_day_def sample_entry_def before_char_def)

end
