(* ===== verification/RegisterPage.thy ===== *)
theory RegisterPage
  imports Register
begin

text \<open>
  The page of one account (\<^verbatim>\<open>pages/AccountRegister.tsx\<close>): loading a page of the
  register around a day, loading more, search over the whole register, local changes of
  reconciliation marks, deleting, and synchronising with a bank. Handlers are split at the calls
  to the server; a continuation runs on the state at the time the call settles, whatever the user
  did in between. \<open>coll\<close> is the host's collation and \<open>today\<close> the local day.
\<close>

section \<open>State\<close>

definition PAGE_SIZE :: int where
  "PAGE_SIZE = 50"

definition getTodayStr :: "(int \<Rightarrow> int) \<Rightarrow> int \<Rightarrow> string" where
  "getTodayStr offset now = local_date offset now"

record account_page =
  ap_id :: string
  ap_account :: "account option"
  ap_all_accounts :: "account list"
  ap_entries :: "register_entry list"
  ap_loading :: bool
  ap_loading_more :: bool
  ap_show_form :: bool
  ap_edit :: "string option"
  ap_duplicate :: "string option"
  ap_show_reconcile :: bool
  ap_has_before :: bool
  ap_has_after :: bool
  ap_syncing :: bool
  ap_sync_message :: "string option"
  ap_suggestions :: "sync_suggestion list option"
  ap_institution :: string
  ap_search :: string
  ap_debounced :: string
  ap_all_entries :: "register_entry list option"
  ap_search_loading :: bool
  ap_search_error :: "string option"
  ap_first_offset :: "int option"
  ap_last_offset :: "int option"
  ap_cursor :: string
  ap_fetch :: int

text \<open>\<open>ap_fetch\<close> numbers the runs of the search effect: a run is cancelled by the next one.\<close>

definition page_init :: "string \<Rightarrow> string \<Rightarrow> account_page" where
  "page_init today guid =
     \<lparr>ap_id = guid, ap_account = None, ap_all_accounts = [], ap_entries = [], ap_loading = True,
      ap_loading_more = False, ap_show_form = False, ap_edit = None, ap_duplicate = None,
      ap_show_reconcile = False, ap_has_before = False, ap_has_after = False, ap_syncing = False,
      ap_sync_message = None, ap_suggestions = None, ap_institution = [], ap_search = [],
      ap_debounced = [], ap_all_entries = None, ap_search_loading = False, ap_search_error = None,
      ap_first_offset = None, ap_last_offset = None, ap_cursor = today, ap_fetch = 0\<rparr>"

definition isSearching :: "account_page \<Rightarrow> bool" where
  "isSearching st \<longleftrightarrow> js_trim (ap_debounced st) \<noteq> []"

definition clearSearch :: "account_page \<Rightarrow> account_page" where
  "clearSearch st = st\<lparr>ap_search := [], ap_debounced := [], ap_search_error := None\<rparr>"

section \<open>Loading pages\<close>

text \<open>A request for a page: the account, the cursor, the direction (none is around) and the size\<close>

record page_request =
  pr_id :: string
  pr_cursor :: string
  pr_direction :: "direction option"
  pr_limit :: int

definition loadInitialData ::
  "string \<Rightarrow> string option \<Rightarrow> account_page \<Rightarrow> account_page \<times> page_request option" where
  "loadInitialData today cursorDate st =
     (if ap_id st = [] then (st, None)
      else (let dateToUse = (case cursorDate of Some d \<Rightarrow> d | None \<Rightarrow> today)
            in (st\<lparr>ap_loading := True, ap_cursor := dateToUse\<rparr>,
                Some \<lparr>pr_id = ap_id st, pr_cursor = dateToUse, pr_direction = None, pr_limit = PAGE_SIZE\<rparr>)))"

definition initial_settled ::
  "(string \<Rightarrow> string \<Rightarrow> int) \<Rightarrow> js_error + account \<times> register_page \<times> account list \<Rightarrow> account_page \<Rightarrow> account_page" where
  "initial_settled coll res st =
     (case res of
        Inr (acc, page, all) \<Rightarrow>
          st\<lparr>ap_account := Some acc, ap_all_accounts := all,
             ap_entries := sort_entries coll (pg_entries page),
             ap_has_before := pg_has_before page, ap_has_after := pg_has_after page,
             ap_first_offset := Some (pg_first_offset page), ap_last_offset := Some (pg_last_offset page),
             ap_loading := False\<rparr>
      | Inl e \<Rightarrow> st\<lparr>ap_loading := False\<rparr>)"

text \<open>\<open>busy\<close> is \<open>loadingMore\<close> in the render that created the handler.\<close>

definition loadMore :: "bool \<Rightarrow> direction \<Rightarrow> account_page \<Rightarrow> account_page \<times> page_request option" where
  "loadMore busy dir st =
     (if ap_id st = [] \<or> busy then (st, None)
      else (case (if dir = Before then ap_first_offset st else ap_last_offset st) of
              None \<Rightarrow> (st, None)
            | Some cursor \<Rightarrow>
                (st\<lparr>ap_loading_more := True\<rparr>,
                 Some \<lparr>pr_id = ap_id st, pr_cursor = dec_int cursor, pr_direction = Some dir,
                       pr_limit = PAGE_SIZE\<rparr>)))"

definition merge_entries ::
  "(string \<Rightarrow> string \<Rightarrow> int) \<Rightarrow> direction \<Rightarrow> register_entry list \<Rightarrow> register_entry list \<Rightarrow> register_entry list" where
  "merge_entries coll dir newEntries prev =
     (let unique = filter (\<lambda>e. re_split e \<notin> set (map re_split prev)) newEntries
      in if unique = [] then prev
         else sort_entries coll (if dir = Before then unique @ prev else prev @ unique))"

definition more_settled ::
  "(string \<Rightarrow> string \<Rightarrow> int) \<Rightarrow> direction \<Rightarrow> js_error + register_page \<Rightarrow> account_page \<Rightarrow> account_page" where
  "more_settled coll dir res st =
     (case res of
        Inr page \<Rightarrow>
          (if pg_entries page = [] then
             (if dir = Before then st\<lparr>ap_has_before := False, ap_loading_more := False\<rparr>
              else st\<lparr>ap_has_after := False, ap_loading_more := False\<rparr>)
           else
             (let st' = st\<lparr>ap_entries := merge_entries coll dir (pg_entries page) (ap_entries st)\<rparr>
              in if dir = Before
                 then st'\<lparr>ap_has_before := pg_has_before page, ap_first_offset := Some (pg_first_offset page),
                          ap_loading_more := False\<rparr>
                 else st'\<lparr>ap_has_after := pg_has_after page, ap_last_offset := Some (pg_last_offset page),
                          ap_loading_more := False\<rparr>))
      | Inl e \<Rightarrow> st\<lparr>ap_loading_more := False\<rparr>)"

definition refreshCurrentPage :: "account_page \<Rightarrow> account_page \<times> page_request option" where
  "refreshCurrentPage st = loadInitialData (ap_cursor st) (Some (ap_cursor st)) st"

section \<open>Changes of the data\<close>

definition patch_state :: "string \<Rightarrow> string \<Rightarrow> register_entry \<Rightarrow> register_entry" where
  "patch_state splitGuid newState e = (if re_split e = splitGuid then e\<lparr>re_state := newState\<rparr> else e)"

definition handleReconcileStateChanged :: "string \<Rightarrow> string \<Rightarrow> account_page \<Rightarrow> account_page" where
  "handleReconcileStateChanged splitGuid newState st =
     st\<lparr>ap_entries := map (patch_state splitGuid newState) (ap_entries st),
        ap_all_entries := map_option (map (patch_state splitGuid newState)) (ap_all_entries st)\<rparr>"

definition handleDataChanged :: "account_page \<Rightarrow> account_page \<times> page_request option" where
  "handleDataChanged st = refreshCurrentPage (st\<lparr>ap_all_entries := None\<rparr>)"

text \<open>Deleting: on failure the message of the alert\<close>

definition delete_settled ::
  "js_error + unit \<Rightarrow> account_page \<Rightarrow> (account_page \<times> page_request option) \<times> string option" where
  "delete_settled res st =
     (case res of
        Inr _ \<Rightarrow> (handleDataChanged st, None)
      | Inl e \<Rightarrow> ((st, None), Some (error_message_or e ''Failed to delete transaction'')))"

section \<open>Search\<close>

definition setSearch :: "string \<Rightarrow> account_page \<Rightarrow> account_page" where
  "setSearch v st = st\<lparr>ap_search := v\<rparr>"

text \<open>200 ms after the last change of the input\<close>

definition debounce_fires :: "account_page \<Rightarrow> account_page" where
  "debounce_fires st = st\<lparr>ap_debounced := ap_search st\<rparr>"

text \<open>
  The effect runs when the account, \<open>isSearching\<close> or the cache changes, which cancels its
  previous run; the number of the run goes with the request.
\<close>

definition search_effect :: "account_page \<Rightarrow> account_page \<times> (int \<times> string) option" where
  "search_effect st0 =
     (let st = st0\<lparr>ap_fetch := ap_fetch st0 + 1\<rparr>
      in if ap_id st = [] \<or> \<not> isSearching st \<or> ap_all_entries st \<noteq> None then (st, None)
         else (st\<lparr>ap_search_loading := True, ap_search_error := None\<rparr>, Some (ap_fetch st, ap_id st)))"

definition search_settled ::
  "(string \<Rightarrow> string \<Rightarrow> int) \<Rightarrow> language \<Rightarrow> int \<Rightarrow> js_error + register_entry list option \<Rightarrow> account_page \<Rightarrow> account_page" where
  "search_settled coll lang run res st =
     (if run \<noteq> ap_fetch st then st
      else (case res of
              Inr all \<Rightarrow>
                st\<lparr>ap_all_entries := Some (sort_entries coll (case all of Some es \<Rightarrow> es | None \<Rightarrow> [])),
                   ap_search_loading := False\<rparr>
            | Inl e \<Rightarrow> st\<lparr>ap_search_error := Some (t lang ''register.searchError''), ap_search_loading := False\<rparr>))"

definition displayEntries :: "account_page \<Rightarrow> register_entry list" where
  "displayEntries st =
     (if isSearching st
      then filterRegisterEntries (case ap_all_entries st of Some es \<Rightarrow> es | None \<Rightarrow> []) (ap_debounced st)
      else ap_entries st)"

text \<open>The line beside the search field\<close>

definition search_note :: "language \<Rightarrow> account_page \<Rightarrow> string option" where
  "search_note lang st =
     (if isSearching st \<and> truthy (ap_search_error st) then ap_search_error st
      else if isSearching st \<and> \<not> ap_search_loading st \<and> \<not> truthy (ap_search_error st) then
        Some (if displayEntries st = [] then t lang ''register.searchNoMatch''
              else js_replace ''{{total}}''
                     (dec_int (case ap_all_entries st of Some es \<Rightarrow> int (length es) | None \<Rightarrow> 0))
                     (js_replace ''{{count}}'' (dec_int (int (length (displayEntries st))))
                       (t lang ''register.searchResults'')))
      else None)"

section \<open>Moving to another account\<close>

text \<open>
  The route changes: the effects reset the search and load the new account's page; everything
  else stays until the answer arrives.
\<close>

definition open_account ::
  "string \<Rightarrow> string \<Rightarrow> string option \<Rightarrow> account_page \<Rightarrow> account_page \<times> page_request option" where
  "open_account today guid jumpCursorDate st =
     loadInitialData today jumpCursorDate
       (st\<lparr>ap_id := guid, ap_search := [], ap_debounced := [], ap_all_entries := None, ap_search_error := None\<rparr>)"

section \<open>Synchronising with the bank\<close>

definition plaid_metadata :: "account \<Rightarrow> plaid_meta option" where
  "plaid_metadata acc =
     (case map_of (acc_metadata acc) ''plaid'' of
        Some j \<Rightarrow>
          if json_truthy j then
            Some \<lparr>pm_item = json_text (json_field j ''item_guid''),
                  pm_last_synced = json_text (json_field j ''last_synced_at''),
                  pm_institution = json_text (json_field j ''institution_name'')\<rparr>
          else None
      | None \<Rightarrow> None)"

definition triggerSync :: "language \<Rightarrow> string \<Rightarrow> string \<Rightarrow> account_page \<Rightarrow> account_page \<times> string option" where
  "triggerSync lang itemGUID institutionName st =
     (st\<lparr>ap_syncing := True,
         ap_sync_message := Some (js_replace ''{{institution}}'' institutionName (t lang ''plaid.syncing''))\<rparr>,
      Some itemGUID)"

text \<open>Also whether a timer is set that will clear the message\<close>

definition sync_settled ::
  "language \<Rightarrow> string \<Rightarrow> js_error + sync_result \<Rightarrow> account_page \<Rightarrow> account_page \<times> bool" where
  "sync_settled lang institutionName res st =
     (case res of
        Inr r \<Rightarrow>
          (let moreSuffix = (if sr_has_more r then '' '' @ t lang ''plaid.syncMore'' else [])
                          @ (if sr_in_progress r then '' '' @ t lang ''plaid.syncInProgress'' else [])
           in if num_less zero (sr_count r) then
                (st\<lparr>ap_sync_message := Some (js_replace ''{{count}}'' (num_to_string (sr_count r))
                                              (t lang ''plaid.syncSuccess'') @ moreSuffix),
                    ap_suggestions := Some (sr_suggestions r), ap_institution := institutionName,
                    ap_syncing := False\<rparr>, False)
              else (st\<lparr>ap_sync_message := Some (t lang ''plaid.syncNone'' @ moreSuffix), ap_syncing := False\<rparr>, True))
      | Inl e \<Rightarrow>
          (st\<lparr>ap_sync_message := Some (if e = Error ''reconnect_required'' then t lang ''plaid.reconnectNeeded''
                 else js_replace ''{{institution}}'' institutionName (t lang ''plaid.syncError'')),
              ap_syncing := False\<rparr>, False))"

definition message_timeout :: "account_page \<Rightarrow> account_page" where
  "message_timeout st = st\<lparr>ap_sync_message := None\<rparr>"

text \<open>\<open>plaidMeta.institution_name ?? account.name\<close>, and on opening the generic name as a last resort\<close>

definition institution_of :: "account \<Rightarrow> plaid_meta \<Rightarrow> string" where
  "institution_of acc m = (case pm_institution m of Some n \<Rightarrow> n | None \<Rightarrow> acc_name acc)"

text \<open>The effect on the account's identity: the first opening on a day synchronises.\<close>

definition auto_sync ::
  "(int \<Rightarrow> string) \<Rightarrow> int \<Rightarrow> language \<Rightarrow> account_page \<Rightarrow> account_page \<times> string option" where
  "auto_sync day_of now lang st =
     (case ap_account st of
        None \<Rightarrow> (st, None)
      | Some acc \<Rightarrow>
          (case plaid_metadata acc of
             None \<Rightarrow> (st, None)
           | Some m \<Rightarrow>
               if truthy (pm_item m) \<and> shouldAutoSyncToday day_of now (Some m)
               then triggerSync lang (the (pm_item m)) (institution_of acc m) st
               else (st, None)))"

text \<open>The button, shown for a linked account and disabled while synchronising, when it shows an ellipsis\<close>

definition sync_button :: "language \<Rightarrow> account_page \<Rightarrow> (bool \<times> string option) option" where
  "sync_button lang st =
     (case ap_account st of
        None \<Rightarrow> None
      | Some acc \<Rightarrow>
          (if plaid_metadata acc \<noteq> None
           then Some (\<not> ap_syncing st, if ap_syncing st then None else Some (t lang ''plaid.syncNow'')) else None))"

definition click_sync :: "language \<Rightarrow> account_page \<Rightarrow> account_page \<times> string option" where
  "click_sync lang st =
     (case ap_account st of
        None \<Rightarrow> (st, None)
      | Some acc \<Rightarrow>
          (case plaid_metadata acc of
             None \<Rightarrow> (st, None)
           | Some m \<Rightarrow>
               if truthy (pm_item m) \<and> \<not> ap_syncing st
               then triggerSync lang (the (pm_item m)) (institution_of acc m) st
               else (st, None)))"

section \<open>Dialogs\<close>

definition form_closed :: "account_page \<Rightarrow> account_page" where
  "form_closed st = st\<lparr>ap_show_form := False, ap_edit := None, ap_duplicate := None\<rparr>"

definition form_open :: "account_page \<Rightarrow> bool" where
  "form_open st \<longleftrightarrow> ap_show_form st \<or> truthy (ap_edit st) \<or> truthy (ap_duplicate st)"

definition matcher_closed :: "account_page \<Rightarrow> account_page" where
  "matcher_closed st = st\<lparr>ap_suggestions := None, ap_sync_message := None\<rparr>"

text \<open>The import is done: its message, which a timer clears, and a reload\<close>

definition matcher_imported ::
  "language \<Rightarrow> number \<Rightarrow> account_page \<Rightarrow> account_page \<times> page_request option" where
  "matcher_imported lang imported st =
     handleDataChanged (st\<lparr>ap_suggestions := None,
       ap_sync_message := Some (js_replace ''{{count}}'' (num_to_string imported) (t lang ''plaid.importSuccess''))\<rparr>)"

section \<open>What the page shows\<close>

datatype page_body =
    Loading string
  | NotFound string
  | SearchLoading string
  | NoBody
  | ShowRegister "register_entry list" "string option" bool bool bool bool

text \<open>
  The register gets its entries, the day to scroll to, the two flags of more data, whether it can
  load more and whether it is loading; while searching it shows the whole result at once.
\<close>

definition page_view :: "language \<Rightarrow> string option \<Rightarrow> account_page \<Rightarrow> page_body" where
  "page_view lang jumpCursorDate st =
     (if ap_loading st then Loading (t lang ''common.loading'')
      else if ap_account st = None then NotFound (t lang ''accounts.notFound'')
      else if isSearching st \<and> ap_search_loading st \<and> ap_all_entries st = None
        then SearchLoading (t lang ''common.loading'')
      else if isSearching st \<and> displayEntries st = [] then NoBody
      else ShowRegister (displayEntries st)
             (if isSearching st then None else jumpCursorDate)
             (if isSearching st then False else ap_has_before st)
             (if isSearching st then False else ap_has_after st)
             (\<not> isSearching st)
             (if isSearching st then False else ap_loading_more st))"

definition page_subtitle :: "account \<Rightarrow> string" where
  "page_subtitle acc =
     (if acc_description acc \<noteq> [] then acc_description acc else account_type_name (acc_type acc))"

end
