(* ===== verification/RegisterPaging.thy ===== *)
theory RegisterPaging
  imports RegisterPage
begin

text \<open>
  The server's side of paging
  (\<^verbatim>\<open>backend/internal/services/transaction_service.go\<close>,
  \<open>GetAccountRegisterPaged\<close>), over the list \<open>full\<close> of the account's entries in the order of the
  database, and the two sides together: the page keeps a window of that list, which every further
  load extends until it is all there. \<open>before\<close> and \<open>upTo\<close> are the counts of entries before and
  up to the cursor's day, which the database answers.

  Nothing is assumed about the order of \<open>full\<close>, only that all queries answer from the same list:
  the database orders by day, by the id as a text and by the time of entry, the page by day and by
  the collation of the ids, and the two differ (\<open>balances_out_of_order\<close>).
\<close>

section \<open>The server\<close>

text \<open>\<^verbatim>\<open>strconv.Atoi\<close> without the overflow of 64 bits\<close>

definition atoi :: "string \<Rightarrow> int option" where
  "atoi s =
     (let (sign, ds) = (case s of
                          c # r \<Rightarrow> if c = CHR ''-'' then (-1, r) else if c = CHR ''+'' then (1, r) else (1, s)
                        | [] \<Rightarrow> (1, []))
      in if ds \<noteq> [] \<and> list_all is_digit ds then Some (sign * digits_val ds) else None)"

text \<open>Offset and limit of the query\<close>

definition query_bounds :: "int \<Rightarrow> int \<Rightarrow> page_request \<Rightarrow> int \<times> int" where
  "query_bounds before upTo req =
     (let limit = pr_limit req in
      case pr_direction req of
        Some Before \<Rightarrow>
          (let c = (case atoi (pr_cursor req) of Some c \<Rightarrow> c | None \<Rightarrow> before)
           in if c - limit < 0 then (0, c) else (c - limit, limit))
      | Some After \<Rightarrow> ((case atoi (pr_cursor req) of Some c \<Rightarrow> c + 1 | None \<Rightarrow> upTo), limit)
      | None \<Rightarrow> (let off = before - limit * 3 div 4 in (if off < 0 then 0 else off, limit)))"

definition server_page :: "register_entry list \<Rightarrow> int \<Rightarrow> int \<Rightarrow> page_request \<Rightarrow> register_page" where
  "server_page full before upTo req =
     (let total = int (length full); (off, lim) = query_bounds before upTo req
      in if lim \<le> 0 then
           \<lparr>pg_entries = [], pg_has_before = (0 < off), pg_has_after = (off < total),
            pg_first_offset = 0, pg_last_offset = 0, pg_total = total\<rparr>
         else
           (let es = take (nat lim) (drop (nat off) full);
                end = (if es = [] then off else off + int (length es) - 1)
            in \<lparr>pg_entries = es, pg_has_before = (0 < off), pg_has_after = (end < total - 1),
                pg_first_offset = off, pg_last_offset = end, pg_total = total\<rparr>))"

lemma atoi_dec_int: "0 \<le> n \<Longrightarrow> atoi (dec_int n) = Some n"
proof -
  assume "0 \<le> n"
  moreover obtain c r where c: "dec_digits n = c # r" by (cases "dec_digits n") auto
  ultimately have "list_all is_digit (c # r)" using dec_digits_all [of n] by simp
  moreover from this have "c \<noteq> CHR ''-''" "c \<noteq> CHR ''+''" by (auto simp: is_digit_def code_def)
  ultimately show ?thesis
    using \<open>0 \<le> n\<close> c digits_val_dec_digits [of n] by (simp add: atoi_def dec_int_def)
qed

section \<open>Sorting in parts\<close>

text \<open>A stable sort may sort a part first; this holds for every consistent comparator.\<close>

context comparator
begin

lemma insert_by_commute:
  assumes "\<And>x. valid x" and "gt x z"
  shows "insert_by gt z (insert_by gt x ys) = insert_by gt x (insert_by gt z ys)"
proof (induction ys)
  case Nil
  show ?case using assms asym [of x z] by simp
next
  case (Cons y ys)
  have "gt z y \<Longrightarrow> gt x y" using assms asym [of z y] le_trans [of x y z] by blast
  with Cons show ?case using assms asym [of x z] by auto
qed

lemma sort_by_insert_append:
  assumes "\<And>x. valid x"
  shows "sort_by gt (insert_by gt x zs @ ys) = insert_by gt x (sort_by gt (zs @ ys))"
  by (induction zs) (auto intro: insert_by_commute [OF assms])

lemma sort_by_append_left:
  assumes "\<And>x. valid x"
  shows "sort_by gt (sort_by gt xs @ ys) = sort_by gt (xs @ ys)"
  by (induction xs) (simp_all add: sort_by_insert_append [OF assms])

lemma sort_by_append_right:
  assumes "\<And>x. valid x"
  shows "sort_by gt (xs @ sort_by gt ys) = sort_by gt (xs @ ys)"
  by (induction xs) (simp_all add: sort_by_idem assms)

end

section \<open>The window\<close>

text \<open>Entries \<open>f\<close> to \<open>l\<close> of a list\<close>

definition slice :: "'a list \<Rightarrow> int \<Rightarrow> int \<Rightarrow> 'a list" where
  "slice xs f l = take (nat (l + 1 - f)) (drop (nat f) xs)"

definition window :: "(string \<Rightarrow> string \<Rightarrow> int) \<Rightarrow> register_entry list \<Rightarrow> account_page \<Rightarrow> int \<Rightarrow> int \<Rightarrow> bool" where
  "window coll full st f l \<longleftrightarrow>
     0 \<le> f \<and> f \<le> l \<and> l < int (length full) \<and> ap_entries st = sort_entries coll (slice full f l)
     \<and> ap_first_offset st = Some f \<and> ap_last_offset st = Some l
     \<and> ap_has_before st = (0 < f) \<and> ap_has_after st = (l < int (length full) - 1)
     \<and> ap_id st \<noteq> []"

text \<open>Loading once: the handler, the server's answer, and its arrival\<close>

definition load_once ::
  "(string \<Rightarrow> string \<Rightarrow> int) \<Rightarrow> register_entry list \<Rightarrow> int \<Rightarrow> int \<Rightarrow> direction \<Rightarrow> account_page \<Rightarrow> account_page" where
  "load_once coll full before upTo dir st =
     (case loadMore False dir st of
        (st', Some req) \<Rightarrow> more_settled coll dir (Inr (server_page full before upTo req)) st'
      | (st', None) \<Rightarrow> st')"

text \<open>The specification: a window grows by a page in one direction.\<close>

fun grow :: "int \<Rightarrow> direction \<Rightarrow> int \<times> int \<Rightarrow> int \<times> int" where
  "grow n Before (f, l) = (max 0 (f - PAGE_SIZE), l)"
| "grow n After (f, l) = (f, min (n - 1) (l + PAGE_SIZE))"

lemma length_slice: "0 \<le> f \<Longrightarrow> l < int (length xs) \<Longrightarrow> f \<le> l + 1 \<Longrightarrow> length (slice xs f l) = nat (l + 1 - f)"
  by (simp add: slice_def)

lemma slice_append:
  assumes "0 \<le> f" and "f \<le> m + 1" and "m \<le> l"
  shows "slice xs f m @ slice xs (m + 1) l = slice xs f l"
proof -
  have "nat (l + 1 - f) = nat (m + 1 - f) + nat (l + 1 - (m + 1))" using assms by simp
  moreover have "nat (m + 1) = nat (m + 1 - f) + nat f" using assms by simp
  ultimately show ?thesis by (simp only: slice_def take_add drop_drop)
qed

lemma distinct_slice: "distinct (map f xs) \<Longrightarrow> distinct (map f (slice xs m l))"
  by (simp add: slice_def flip: take_map drop_map)

lemma slice_parts:
  assumes "distinct (map re_split full)" and "0 \<le> f" and "f \<le> m + 1" and "m \<le> l"
  shows "re_split ` set (slice full f m) \<inter> re_split ` set (slice full (m + 1) l) = {}"
proof -
  have "distinct (map re_split (slice full f m @ slice full (m + 1) l))"
    unfolding slice_append [OF assms(2-4)] by (rule distinct_slice [OF assms(1)])
  then show ?thesis by auto
qed

lemma filter_disjoint: "f ` set xs \<inter> f ` set ys = {} \<Longrightarrow> filter (\<lambda>x. f x \<notin> set (map f ys)) xs = xs"
  by (auto simp: filter_id_conv)

lemma set_sort_entries: "set (sort_entries coll es) = set es"
  by (simp add: sort_entries_def)

lemma sort_entries_append:
  assumes "comparator (\<lambda>x y. 0 < coll x y) (\<lambda>_. True)"
  shows "sort_entries coll (xs @ sort_entries coll ys) = sort_entries coll (xs @ ys)"
    and "sort_entries coll (sort_entries coll xs @ ys) = sort_entries coll (xs @ ys)"
  using comparator.sort_by_append_right [OF entries_comparator [OF assms]]
    comparator.sort_by_append_left [OF entries_comparator [OF assms]]
  by (simp_all add: sort_entries_def)

lemma merge_slices:
  assumes "comparator (\<lambda>x y. 0 < coll x y) (\<lambda>_. True)"
    and "distinct (map re_split full)" and "0 \<le> f" and "f \<le> m + 1" and "m \<le> l"
  shows "slice full f m \<noteq> [] \<Longrightarrow> merge_entries coll Before (slice full f m) (sort_entries coll (slice full (m + 1) l))
      = sort_entries coll (slice full f l)"
    and "slice full (m + 1) l \<noteq> [] \<Longrightarrow> merge_entries coll After (slice full (m + 1) l) (sort_entries coll (slice full f m))
      = sort_entries coll (slice full f l)"
proof -
  note d = slice_parts [OF assms(2-5)] and a = slice_append [OF assms(3-5), of full]
  have d1: "re_split ` set (slice full f m) \<inter> re_split ` set (sort_entries coll (slice full (m + 1) l)) = {}"
    and d2: "re_split ` set (slice full (m + 1) l) \<inter> re_split ` set (sort_entries coll (slice full f m)) = {}"
    using d by (auto simp: set_sort_entries)
  show "slice full f m \<noteq> [] \<Longrightarrow> merge_entries coll Before (slice full f m) (sort_entries coll (slice full (m + 1) l))
      = sort_entries coll (slice full f l)"
    unfolding merge_entries_def Let_def filter_disjoint [OF d1] using a sort_entries_append(1) [OF assms(1)] by simp
  show "slice full (m + 1) l \<noteq> [] \<Longrightarrow> merge_entries coll After (slice full (m + 1) l) (sort_entries coll (slice full f m))
      = sort_entries coll (slice full f l)"
    unfolding merge_entries_def Let_def filter_disjoint [OF d2] using a sort_entries_append(2) [OF assms(1)] by simp
qed

lemma slice_nonempty: "0 \<le> f \<Longrightarrow> f \<le> l \<Longrightarrow> l < int (length xs) \<Longrightarrow> slice xs f l \<noteq> []"
  by (simp add: slice_def)

lemma server_before:
  assumes "0 < f" and "f \<le> int (length full)"
  shows "server_page full b u \<lparr>pr_id = i, pr_cursor = dec_int f, pr_direction = Some Before, pr_limit = PAGE_SIZE\<rparr>
    = \<lparr>pg_entries = slice full (max 0 (f - PAGE_SIZE)) (f - 1), pg_has_before = (0 < max 0 (f - PAGE_SIZE)),
       pg_has_after = (f - 1 < int (length full) - 1), pg_first_offset = max 0 (f - PAGE_SIZE),
       pg_last_offset = f - 1, pg_total = int (length full)\<rparr>"
proof -
  define off where "off = max 0 (f - PAGE_SIZE)"
  have off: "0 \<le> off" "off \<le> f - 1" using assms(1) by (auto simp: off_def PAGE_SIZE_def)
  have lim: "query_bounds b u \<lparr>pr_id = i, pr_cursor = dec_int f, pr_direction = Some Before, pr_limit = PAGE_SIZE\<rparr>
      = (off, f - off)"
    using assms(1) by (auto simp: query_bounds_def atoi_dec_int off_def)
  have es: "take (nat (f - off)) (drop (nat off) full) = slice full off (f - 1)" by (simp add: slice_def)
  have len: "int (length (slice full off (f - 1))) = f - off" "slice full off (f - 1) \<noteq> []"
    using off assms(2) by (simp_all add: length_slice slice_nonempty)
  show ?thesis
    using off by (simp add: server_page_def lim Let_def es len flip: off_def)
qed

lemma server_after:
  assumes "0 \<le> l" and "l < int (length full) - 1"
  shows "server_page full b u \<lparr>pr_id = i, pr_cursor = dec_int l, pr_direction = Some After, pr_limit = PAGE_SIZE\<rparr>
    = (let l' = min (int (length full) - 1) (l + PAGE_SIZE)
       in \<lparr>pg_entries = slice full (l + 1) l', pg_has_before = True, pg_has_after = (l' < int (length full) - 1),
           pg_first_offset = l + 1, pg_last_offset = l', pg_total = int (length full)\<rparr>)"
proof -
  define l' where "l' = min (int (length full) - 1) (l + PAGE_SIZE)"
  have l': "l + 1 \<le> l'" "l' < int (length full)" using assms(2) by (auto simp: l'_def PAGE_SIZE_def)
  have lim: "query_bounds b u \<lparr>pr_id = i, pr_cursor = dec_int l, pr_direction = Some After, pr_limit = PAGE_SIZE\<rparr>
      = (l + 1, PAGE_SIZE)"
    using assms(1) by (simp add: query_bounds_def atoi_dec_int)
  have es: "take (nat PAGE_SIZE) (drop (nat (l + 1)) full) = slice full (l + 1) l'"
    using assms by (auto simp: slice_def l'_def PAGE_SIZE_def min_def)
  have len: "int (length (slice full (l + 1) l')) = l' - l" "slice full (l + 1) l' \<noteq> []"
    using l' assms(1) by (simp_all add: length_slice slice_nonempty)
  have "\<not> PAGE_SIZE \<le> 0" by (simp add: PAGE_SIZE_def)
  then show ?thesis
    using l' assms by (simp add: server_page_def lim Let_def es len flip: l'_def)
qed

lemma server_nothing_more:
  "pg_entries (server_page full b u \<lparr>pr_id = i, pr_cursor = dec_int 0, pr_direction = Some Before, pr_limit = PAGE_SIZE\<rparr>) = []"
  "0 < length full \<Longrightarrow> pg_entries (server_page full b u
     \<lparr>pr_id = i, pr_cursor = dec_int (int (length full) - 1), pr_direction = Some After, pr_limit = PAGE_SIZE\<rparr>) = []"
  by (simp_all add: server_page_def query_bounds_def atoi_dec_int PAGE_SIZE_def Let_def)

lemma window_before:
  assumes "comparator (\<lambda>x y. 0 < coll x y) (\<lambda>_. True)"
    and "distinct (map re_split full)" and w: "window coll full st f l"
  shows "window coll full (load_once coll full b u Before st) (max 0 (f - PAGE_SIZE)) l"
proof (cases "f = 0")
  case True
  then have "max 0 (f - PAGE_SIZE) = f" by (simp add: PAGE_SIZE_def)
  with True w show ?thesis
    by (simp add: window_def load_once_def loadMore_def more_settled_def server_nothing_more)
next
  case False
  define f' where "f' = max 0 (f - PAGE_SIZE)"
  from False w have f: "0 < f" "f \<le> int (length full)" "0 \<le> f'" "f' \<le> f - 1"
    by (auto simp: window_def f'_def PAGE_SIZE_def)
  have ne: "slice full f' (f - 1) \<noteq> []" using f by (intro slice_nonempty) auto
  then have "merge_entries coll Before (slice full f' (f - 1)) (sort_entries coll (slice full f l))
      = sort_entries coll (slice full f' l)"
    using merge_slices(1) [OF assms(1,2), of f' "f - 1" l] f w by (simp add: window_def)
  with ne show ?thesis
    using w f by (simp add: window_def load_once_def loadMore_def more_settled_def server_before Let_def flip: f'_def)
qed

lemma window_after:
  assumes "comparator (\<lambda>x y. 0 < coll x y) (\<lambda>_. True)"
    and "distinct (map re_split full)" and w: "window coll full st f l"
  shows "window coll full (load_once coll full b u After st) f (min (int (length full) - 1) (l + PAGE_SIZE))"
proof (cases "l = int (length full) - 1")
  case True
  moreover from w have "0 < length full" by (auto simp: window_def)
  ultimately show ?thesis
    using w server_nothing_more(2) [of full b u "ap_id st"]
    by (simp add: window_def load_once_def loadMore_def more_settled_def PAGE_SIZE_def)
next
  case False
  define l' where "l' = min (int (length full) - 1) (l + PAGE_SIZE)"
  from False w have l: "0 \<le> l" "l < int (length full) - 1" "l + 1 \<le> l'" "l' < int (length full)"
    by (auto simp: window_def l'_def PAGE_SIZE_def)
  have ne: "slice full (l + 1) l' \<noteq> []" using l by (intro slice_nonempty) auto
  then have "merge_entries coll After (slice full (l + 1) l') (sort_entries coll (slice full f l))
      = sort_entries coll (slice full f l')"
    using merge_slices(2) [OF assms(1,2), of f l l'] l w by (simp add: window_def)
  with ne show ?thesis
    using w l by (simp add: window_def load_once_def loadMore_def more_settled_def server_after Let_def flip: l'_def)
qed

lemma window_grows:
  assumes "comparator (\<lambda>x y. 0 < coll x y) (\<lambda>_. True)"
    and "distinct (map re_split full)" and "window coll full st f l"
    and "grow (int (length full)) dir (f, l) = (f', l')"
  shows "window coll full (load_once coll full b u dir st) f' l'"
  using window_before [OF assms(1-3)] window_after [OF assms(1-3)] assms(4) by (cases dir) auto

text \<open>
  C21. Page and server together implement the window: if the page holds entries \<open>f\<close> to \<open>l\<close> of the
  account's register, put in the page's order by the sort of C12, and knows its offsets and whether
  there is more on either side, then loading more keeps this so for the window grown by a page
  of 50, cut at the ends of the register; nothing is lost, doubled or out of order. The
  server's own order is arbitrary here: the offsets count in it, and the page shows what it holds
  in its own. Conditions: the collation is a consistent comparator, no split occurs twice in the
  register, and the server answers both queries from the same list in the same order.
\<close>

theorem register_window:
  assumes "comparator (\<lambda>x y. 0 < coll x y) (\<lambda>_. True)"
    and "distinct (map re_split full)" and "window coll full st f l"
    and "grow (int (length full)) dir (f, l) = (f', l')"
  shows "window coll full (load_once coll full b u dir st) f' l'"
  by (rule window_grows [OF assms])

section \<open>Everything is reached\<close>

lemma initial_window:
  assumes "comparator (\<lambda>x y. 0 < coll x y) (\<lambda>_. True)"
    and "full \<noteq> []" and "0 \<le> b" and "b \<le> int (length full)"
    and "loadInitialData today cur st = (st', Some req)"
  shows "\<exists>f l. window coll full (initial_settled coll (Inr (acc, server_page full b u req, accts)) st') f l"
proof -
  define f where "f = max 0 (b - 37)"
  define l where "l = min (int (length full) - 1) (f + PAGE_SIZE - 1)"
  have len: "0 < int (length full)" using assms(2) by simp
  have f: "0 \<le> f" "f \<le> l" "l < int (length full)" using assms(3,4) len by (auto simp: f_def l_def PAGE_SIZE_def)
  have req: "pr_direction req = None" "pr_limit req = PAGE_SIZE" "ap_id st' \<noteq> []"
    using assms(5) by (auto simp: loadInitialData_def Let_def split: if_splits)
  have lim: "query_bounds b u req = (f, PAGE_SIZE)"
    using req by (auto simp: query_bounds_def f_def PAGE_SIZE_def)
  have es: "take (nat PAGE_SIZE) (drop (nat f) full) = slice full f l"
    using f by (auto simp: slice_def l_def PAGE_SIZE_def min_def)
  have pos: "\<not> PAGE_SIZE \<le> 0" by (simp add: PAGE_SIZE_def)
  have sl: "int (length (slice full f l)) = l + 1 - f" "slice full f l \<noteq> []"
    using f by (simp_all add: length_slice slice_nonempty)
  have "window coll full (initial_settled coll (Inr (acc, server_page full b u req, accts)) st') f l"
    using f req pos sl
    by (simp add: window_def initial_settled_def server_page_def lim es Let_def)
  then show ?thesis by blast
qed

lemma iterate_before:
  assumes "comparator (\<lambda>x y. 0 < coll x y) (\<lambda>_. True)"
    and "distinct (map re_split full)" and "window coll full st f l"
  shows "window coll full ((load_once coll full b u Before ^^ n) st) (max 0 (f - int n * PAGE_SIZE)) l"
proof (induction n)
  case 0
  with assms(3) show ?case by (simp add: window_def max_def)
next
  case (Suc n)
  have "max 0 (max 0 (f - int n * PAGE_SIZE) - PAGE_SIZE) = max 0 (f - int (Suc n) * PAGE_SIZE)"
    by (auto simp: PAGE_SIZE_def max_def)
  with window_before [OF assms(1,2) Suc, of b u] show ?case by simp
qed

lemma iterate_after:
  assumes "comparator (\<lambda>x y. 0 < coll x y) (\<lambda>_. True)"
    and "distinct (map re_split full)" and "window coll full st f l"
  shows "window coll full ((load_once coll full b u After ^^ n) st) f (min (int (length full) - 1) (l + int n * PAGE_SIZE))"
proof (induction n)
  case 0
  have "min (int (length full) - 1) (l + int 0 * PAGE_SIZE) = l" using assms(3) by (simp add: window_def)
  with assms(3) show ?case by simp
next
  case (Suc n)
  have "min (int (length full) - 1) (min (int (length full) - 1) (l + int n * PAGE_SIZE) + PAGE_SIZE)
      = min (int (length full) - 1) (l + int (Suc n) * PAGE_SIZE)"
    by (auto simp: PAGE_SIZE_def min_def)
  with window_after [OF assms(1,2) Suc, of b u] show ?case by simp
qed

text \<open>
  C22. Opening an account at any day and loading far enough in both directions shows its whole
  register, each entry once, in the page's order whatever the server's is, and then offers no
  more: \<open>n\<close> loads are enough on a side once \<open>50 * n\<close> is at least the number of entries.
  Conditions: as for C21, with the one list \<open>full\<close>, not empty, behind all the answers, and the
  count of earlier entries within its length.
\<close>

theorem all_loaded:
  assumes "comparator (\<lambda>x y. 0 < coll x y) (\<lambda>_. True)"
    and "distinct (map re_split full)" and "full \<noteq> []" and "0 \<le> b" and "b \<le> int (length full)"
    and "loadInitialData today cur st = (st', Some req)"
    and "int (length full) \<le> int n * PAGE_SIZE"
    and "final = (load_once coll full b u After ^^ n) ((load_once coll full b u Before ^^ n)
           (initial_settled coll (Inr (acc, server_page full b u req, accts)) st'))"
  shows "ap_entries final = sort_entries coll full \<and> mset (ap_entries final) = mset full
    \<and> \<not> ap_has_before final \<and> \<not> ap_has_after final"
proof -
  obtain f l where w: "window coll full (initial_settled coll (Inr (acc, server_page full b u req, accts)) st') f l"
    using initial_window [OF assms(1,3-6)] by blast
  have *: "max 0 (f - int n * PAGE_SIZE) = 0" "min (int (length full) - 1) (l + int n * PAGE_SIZE) = int (length full) - 1"
    using w assms(7) by (auto simp: window_def)
  have "window coll full final 0 (int (length full) - 1)"
    unfolding assms(8)
    using iterate_after [OF assms(1,2) iterate_before [OF assms(1,2) w, where n = n], where n = n] unfolding * .
  then show ?thesis by (simp add: window_def slice_def sort_entries_def)
qed

text \<open>
  The two orders differ. Of two entries of one day with the ids 9 and 10, the server lists 10
  first and adds up the running balance in that order; the page, whose collation compares the
  digits as numbers, shows 9 first, and with it a balance that already contains the entry below.
\<close>

definition balance_entry :: "string \<Rightarrow> int \<Rightarrow> int \<Rightarrow> register_entry" where
  "balance_entry i amount balance =
     (sample_entry ''2024-01-05'' i)\<lparr>re_deposit := Some (num_of_int amount), re_balance := num_of_int balance\<rparr>"

definition text_ordered :: "register_entry list" where
  "text_ordered = [balance_entry ''10'' 7 7, balance_entry ''9'' 5 12]"

lemma balances_out_of_order:
  assumes "coll ''9'' ''10'' < 0" and "0 < coll ''10'' ''9''"
  shows "sorted_wrt (\<lambda>a b. re_post_date a < re_post_date b
        \<or> re_post_date a = re_post_date b \<and> re_custom_id a \<le> re_custom_id b) text_ordered
    \<and> map (\<lambda>e. (re_deposit e, re_balance e)) (sort_entries coll text_ordered)
      = [(Some (num_of_int 5), num_of_int 12), (Some (num_of_int 7), num_of_int 7)]"
  using assms
  by (simp add: text_ordered_def balance_entry_def sample_entry_def sort_entries_def compareEntries_def)

section \<open>Examples\<close>

text \<open>The later entry first, against the page's order\<close>

definition sample_register :: "register_entry list" where
  "sample_register = [sample_entry ''2024-02-05'' ''2'', sample_entry ''2024-01-05'' ''1'']"

lemma sample_register_ok:
  "distinct (map re_split sample_register)" "length sample_register = 2" "sample_register \<noteq> []"
  "sort_entries code_unit_order sample_register = rev sample_register"
  by code_simp+

theorem register_window_witness:
  "\<exists>st. window code_unit_order sample_register (load_once code_unit_order sample_register 0 0 Before st) 0 1"
proof -
  have "window code_unit_order sample_register ((page_init ''2024-02-01'' ''a'')
      \<lparr>ap_entries := [sample_entry ''2024-01-05'' ''1''], ap_first_offset := Some 1, ap_last_offset := Some 1,
       ap_has_before := True\<rparr>) 1 1"
    by (simp add: window_def page_init_def slice_def sample_register_def sort_entries_def)
  from register_window [OF code_unit_comparator sample_register_ok(1) this, of Before 0 1] show ?thesis
    by (auto simp: PAGE_SIZE_def)
qed

theorem all_loaded_witness:
  "\<exists>st' req. loadInitialData ''2024-02-01'' None (page_init ''2024-02-01'' ''a'') = (st', Some req)
    \<and> ap_entries (load_once code_unit_order sample_register 1 1 After
        (load_once code_unit_order sample_register 1 1 Before
          (initial_settled code_unit_order
            (Inr (sample_bank, server_page sample_register 1 1 req, [])) st'))) = rev sample_register"
proof -
  have "ap_id (page_init ''2024-02-01'' ''a'') \<noteq> []" by (simp add: page_init_def)
  then obtain st' req where start: "loadInitialData ''2024-02-01'' None (page_init ''2024-02-01'' ''a'') = (st', Some req)"
    by (simp add: loadInitialData_def Let_def)
  from all_loaded [OF code_unit_comparator sample_register_ok(1,3) _ _ this, of 1 1 _ 1 sample_bank "[]"] start
  show ?thesis by (simp add: sample_register_ok PAGE_SIZE_def)
qed

end
