(* ===== verification/RegisterPageLaws.thy ===== *)
theory RegisterPageLaws
  imports RegisterPage
begin

text \<open>
  The account page as a state machine: its steps are the handlers, effects, timers and the
  arrivals of answers, in any interleaving. What is shown is always in order and free of
  duplicates; but an answer that arrives late is taken for the account on display.
\<close>

section \<open>Synchronising\<close>

datatype sync_edit = TypeSearch string | DebounceFires | ClearSearch | CloseForm | CloseMatcher | Marked string string

fun sync_edit_step :: "sync_edit \<Rightarrow> account_page \<Rightarrow> account_page" where
  "sync_edit_step (TypeSearch v) st = setSearch v st"
| "sync_edit_step DebounceFires st = debounce_fires st"
| "sync_edit_step ClearSearch st = clearSearch st"
| "sync_edit_step CloseForm st = form_closed st"
| "sync_edit_step CloseMatcher st = matcher_closed st"
| "sync_edit_step (Marked g s) st = handleReconcileStateChanged g s st"

lemma sync_edit_syncing: "ap_syncing (sync_edit_step ev st) = ap_syncing st"
  by (cases ev) (simp_all add: setSearch_def debounce_fires_def clearSearch_def form_closed_def
      matcher_closed_def handleReconcileStateChanged_def)

interpretation syncing: async_handler "click_sync lang" "\<lambda>res st. fst (sync_settled lang inst res st)"
  sync_edit_step ap_syncing
  by unfold_locales
    (auto simp: sync_edit_syncing click_sync_def triggerSync_def sync_settled_def Let_def
      split: option.splits if_splits sum.splits)

section \<open>Steps\<close>

definition distinct_splits :: "register_entry list \<Rightarrow> bool" where
  "distinct_splits es \<longleftrightarrow> distinct (map re_split es)"

text \<open>The server never lists a split twice in one answer; everything else is arbitrary.\<close>

inductive page_step :: "(string \<Rightarrow> string \<Rightarrow> int) \<Rightarrow> language \<Rightarrow> account_page \<Rightarrow> account_page \<Rightarrow> bool"
  for coll lang where
  Open: "page_step coll lang st (fst (open_account today guid jump st))"
| Refresh: "page_step coll lang st (fst (handleDataChanged st))"
| Loaded: "distinct_splits (pg_entries page) \<Longrightarrow> page_step coll lang st (initial_settled coll (Inr (acc, page, accts)) st)"
| LoadFailed: "page_step coll lang st (initial_settled coll (Inl e) st)"
| More: "page_step coll lang st (fst (loadMore busy dir st))"
| MoreLoaded: "distinct_splits (pg_entries page) \<Longrightarrow> page_step coll lang st (more_settled coll dir (Inr page) st)"
| MoreFailed: "page_step coll lang st (more_settled coll dir (Inl e) st)"
| Edit: "page_step coll lang st (sync_edit_step ev st)"
| Search: "page_step coll lang st (fst (search_effect st))"
| Found: "distinct_splits (case es of Some es \<Rightarrow> es | None \<Rightarrow> []) \<Longrightarrow>
    page_step coll lang st (search_settled coll lang run (Inr es) st)"
| SearchFailed: "page_step coll lang st (search_settled coll lang run (Inl e) st)"
| Sync: "page_step coll lang st (fst (triggerSync lang item inst st))"
| Synced: "page_step coll lang st (fst (sync_settled lang inst res st))"
| Timeout: "page_step coll lang st (message_timeout st)"
| Deleted: "page_step coll lang st (fst (fst (delete_settled res st)))"
| Imported: "page_step coll lang st (fst (matcher_imported lang n st))"

inductive_cases page_stepE [elim]: "page_step coll lang st st'"

definition in_order :: "(string \<Rightarrow> string \<Rightarrow> int) \<Rightarrow> register_entry list \<Rightarrow> bool" where
  "in_order coll es \<longleftrightarrow> distinct_splits es \<and> sorted_wrt (\<lambda>a b. \<not> 0 < compareEntries coll a b) es"

definition page_inv :: "(string \<Rightarrow> string \<Rightarrow> int) \<Rightarrow> account_page \<Rightarrow> bool" where
  "page_inv coll st \<longleftrightarrow>
     in_order coll (ap_entries st) \<and> (\<forall>es. ap_all_entries st = Some es \<longrightarrow> in_order coll es)"

text \<open>The laws below rest on a consistent collation.\<close>

locale collation =
  fixes coll :: "string \<Rightarrow> string \<Rightarrow> int"
  assumes consistent: "comparator (\<lambda>x y. 0 < coll x y) (\<lambda>_. True)"
begin

lemma in_order_sort: "distinct_splits es \<Longrightarrow> in_order coll (sort_entries coll es)"
  unfolding in_order_def distinct_splits_def sort_entries_def
  by (intro conjI comparator.sorted_sort_by [OF entries_comparator [OF consistent]]) simp_all

lemma in_order_filter: "in_order coll es \<Longrightarrow> in_order coll (filter P es)"
  by (auto simp: in_order_def distinct_splits_def distinct_map_filter sorted_wrt_filter)

lemma in_order_patch:
  assumes "in_order coll es"
  shows "in_order coll (map (patch_state g s) es)"
proof -
  have p: "re_split (patch_state g s e) = re_split e"
    "compareEntries coll (patch_state g s a) (patch_state g s b) = compareEntries coll a b" for e a b
    by (auto simp: patch_state_def compareEntries_def)
  then show ?thesis using assms by (simp add: in_order_def distinct_splits_def sorted_wrt_map comp_def)
qed

lemma in_order_merge:
  assumes "in_order coll prev" and "distinct_splits new"
  shows "in_order coll (merge_entries coll dir new prev)"
proof -
  let ?u = "filter (\<lambda>e. re_split e \<notin> set (map re_split prev)) new"
  have "distinct_splits ?u"
    using assms(2) by (simp add: distinct_splits_def distinct_map_filter)
  moreover have "re_split ` set ?u \<inter> re_split ` set prev = {}" by (auto simp: disjoint_iff)
  ultimately have "distinct_splits (?u @ prev) \<and> distinct_splits (prev @ ?u)"
    using assms(1) by (simp add: distinct_splits_def in_order_def Int_commute)
  then show ?thesis using assms(1) in_order_sort by (auto simp: merge_entries_def Let_def)
qed

lemma page_inv_init: "page_inv coll (page_init today guid)"
  by (simp add: page_inv_def page_init_def in_order_def distinct_splits_def)

lemma page_inv_load: "page_inv coll st \<Longrightarrow> page_inv coll (fst (loadInitialData today cur st))"
  by (simp add: page_inv_def loadInitialData_def Let_def)

lemma page_inv_changed: "page_inv coll st \<Longrightarrow> page_inv coll (fst (handleDataChanged st))"
  unfolding handleDataChanged_def refreshCurrentPage_def
  by (rule page_inv_load) (simp add: page_inv_def)

lemma page_inv_edit: "page_inv coll st \<Longrightarrow> page_inv coll (sync_edit_step ev st)"
  by (cases ev) (auto simp: page_inv_def setSearch_def debounce_fires_def clearSearch_def form_closed_def
      matcher_closed_def handleReconcileStateChanged_def in_order_patch)

lemma page_inv_step: "page_step coll lang st st' \<Longrightarrow> page_inv coll st \<Longrightarrow> page_inv coll st'"
proof (induction rule: page_step.induct)
  case (Open st today guid jump)
  then show ?case unfolding open_account_def by (intro page_inv_load) (simp add: page_inv_def)
next
  case (Loaded page st acc accts)
  then show ?case by (simp add: page_inv_def initial_settled_def in_order_sort)
next
  case (MoreLoaded page st dir)
  then show ?case by (simp add: page_inv_def more_settled_def Let_def in_order_merge)
next
  case (Found es st run)
  then show ?case by (simp add: page_inv_def search_settled_def in_order_sort)
next
  case (Deleted st res)
  then show ?case by (cases res) (simp_all add: delete_settled_def page_inv_changed)
next
  case (Imported st n)
  then show ?case unfolding matcher_imported_def by (intro page_inv_changed) (simp add: page_inv_def)
next
  case (Synced st inst res)
  then show ?case by (cases res) (simp_all add: sync_settled_def Let_def page_inv_def)
next
  case (Refresh st)
  then show ?case by (rule page_inv_changed)
next
  case (Edit st ev)
  then show ?case by (rule page_inv_edit)
qed (simp_all add: page_inv_def initial_settled_def loadMore_def more_settled_def
    search_effect_def search_settled_def triggerSync_def message_timeout_def Let_def split: option.splits)

lemma page_inv_reachable: "(page_step coll lang)\<^sup>*\<^sup>* (page_init today guid) st \<Longrightarrow> page_inv coll st"
  by (induction rule: rtranclp_induct) (auto intro: page_inv_init page_inv_step)

lemma displayed_in_order: "page_inv coll st \<Longrightarrow> in_order coll (displayEntries st)"
proof -
  assume inv: "page_inv coll st"
  have "in_order coll (case ap_all_entries st of Some es \<Rightarrow> es | None \<Rightarrow> [])"
    using inv by (auto simp: page_inv_def in_order_def distinct_splits_def split: option.splits)
  then show ?thesis
    using inv in_order_filter by (simp add: displayEntries_def filter_eq_matches page_inv_def)
qed

end

interpretation code_units: collation code_unit_order
  by (rule collation.intro) (rule code_unit_comparator)

text \<open>
  C23. In every state the page can reach, whatever the order in which loads, searches, changes and
  answers interleave, the entries shown are in the register's order and no split is shown twice.
\<close>

theorem displayed_entries_in_order:
  assumes "comparator (\<lambda>x y. 0 < coll x y) (\<lambda>_. True)"
    and "(page_step coll lang)\<^sup>*\<^sup>* (page_init today guid) st"
  shows "distinct (map re_split (displayEntries st))
    \<and> sorted_wrt (\<lambda>a b. compareEntries coll a b \<le> 0) (displayEntries st)"
proof -
  note c = collation.intro [OF assms(1)]
  have "in_order coll (displayEntries st)"
    by (rule collation.displayed_in_order [OF c collation.page_inv_reachable [OF c assms(2)]])
  then show ?thesis by (simp add: in_order_def distinct_splits_def not_less)
qed

theorem displayed_entries_in_order_witness:
  "\<exists>st. ap_entries st = [sample_entry ''2024-01-05'' ''1'', sample_entry ''2024-02-05'' ''2'']
    \<and> distinct (map re_split (displayEntries st))"
proof -
  let ?page = "\<lparr>pg_entries = [sample_entry ''2024-02-05'' ''2'', sample_entry ''2024-01-05'' ''1''], pg_has_before = False,
      pg_has_after = False, pg_first_offset = 0, pg_last_offset = 1, pg_total = 2\<rparr>"
  let ?init = "page_init ''2024-02-01'' ''a''"
  let ?st = "more_settled code_unit_order After (Inr ?page) ?init"
  have "page_step code_unit_order ''en'' ?init ?st"
    by (rule MoreLoaded) (simp add: distinct_splits_def sample_entry_def)
  then have "(page_step code_unit_order ''en'')\<^sup>*\<^sup>* ?init ?st" by (rule r_into_rtranclp)
  from displayed_entries_in_order [OF code_unit_comparator this]
  have "distinct (map re_split (displayEntries ?st))" by (rule conjunct1)
  moreover have "sort_entries code_unit_order (pg_entries ?page)
      = [sample_entry ''2024-01-05'' ''1'', sample_entry ''2024-02-05'' ''2'']"
    by code_simp
  then have "ap_entries ?st = [sample_entry ''2024-01-05'' ''1'', sample_entry ''2024-02-05'' ''2'']"
    by (simp add: more_settled_def merge_entries_def page_init_def Let_def)
  ultimately show ?thesis by blast
qed

text \<open>
  Answers are not matched with the account they were asked for: after moving from one account to
  another, a late answer for the first replaces what the page shows, so that it lists the first
  account's entries under the second account's address, and loads more of the second account
  from the first account's offsets.
\<close>

theorem late_answer_shown:
  assumes "open_account today other jump (initial_settled coll answer0 st0) = (st1, req)"
    and "st = initial_settled coll (Inr (acc, page, accts)) (initial_settled coll (Inr (acc', page', accts')) st1)"
  shows "ap_id st = other \<and> ap_account st = Some acc \<and> displayEntries st = sort_entries coll (pg_entries page)
    \<and> ap_last_offset st = Some (pg_last_offset page)"
proof -
  have "ap_id st1 = other" "ap_debounced st1 = []"
    using assms(1) by (auto simp: open_account_def loadInitialData_def Let_def split: if_splits)
  then show ?thesis
    by (simp add: assms(2) initial_settled_def displayEntries_def isSearching_def js_trim_def)
qed

theorem late_answer_shown_witness:
  "\<exists>st. ap_id st = ''b'' \<and> displayEntries st = [sample_entry ''2024-01-05'' ''1'']"
proof -
  let ?page = "\<lparr>pg_entries = [sample_entry ''2024-01-05'' ''1''], pg_has_before = False,
      pg_has_after = False, pg_first_offset = 0, pg_last_offset = 0, pg_total = 1\<rparr>"
  obtain st1 req where o: "open_account ''2024-02-01'' ''b'' None
      (initial_settled code_unit_order (Inl Thrown) (page_init ''2024-02-01'' ''a'')) = (st1, req)"
    by (rule prod.exhaust)
  from late_answer_shown [OF o refl, of sample_bank ?page "[]" sample_bank ?page "[]"]
  have "ap_id (initial_settled code_unit_order (Inr (sample_bank, ?page, []))
        (initial_settled code_unit_order (Inr (sample_bank, ?page, [])) st1)) = ''b''
    \<and> displayEntries (initial_settled code_unit_order (Inr (sample_bank, ?page, []))
        (initial_settled code_unit_order (Inr (sample_bank, ?page, [])) st1)) = [sample_entry ''2024-01-05'' ''1'']"
    by (simp add: sort_entries_def)
  then show ?thesis by blast
qed

end
