(* ===== verification/JsJson.thy ===== *)
theory JsJson
  imports Types JsNumText
begin

text \<open>
  \<^verbatim>\<open>JSON.stringify\<close> and \<^verbatim>\<open>JSON.parse\<close>. Texts are those of the model,
  with code units below 256: an escape that names a later unit is outside it and counts as a
  failure. Parsing gives back every object of text fields that was written.
\<close>

section \<open>Writing\<close>

definition hex_digit :: "int \<Rightarrow> char" where
  "hex_digit d = (if d < 10 then char_of (48 + d) else char_of (87 + d))"

definition escape_char :: "char \<Rightarrow> string" where
  "escape_char c =
     (let n = code c; bs = char_of (92 :: int)
      in if n = 34 \<or> n = 92 then [bs, c]
         else if n = 8 then [bs, CHR ''b''] else if n = 9 then [bs, CHR ''t'']
         else if n = 10 then [bs, CHR ''n''] else if n = 12 then [bs, CHR ''f'']
         else if n = 13 then [bs, CHR ''r'']
         else if n < 32 then [bs, CHR ''u'', CHR ''0'', CHR ''0'', hex_digit (n div 16), hex_digit (n mod 16)]
         else [c])"

definition quote_json :: "string \<Rightarrow> string" where
  "quote_json s = char_of (34 :: int) # concat (map escape_char s) @ [char_of (34 :: int)]"

fun json_stringify :: "json \<Rightarrow> string" where
  "json_stringify JNull = ''null''"
| "json_stringify (JBool b) = (if b then ''true'' else ''false'')"
| "json_stringify (JNumber n) = (if is_finite n then num_to_string n else ''null'')"
| "json_stringify (JString s) = quote_json s"
| "json_stringify (JArray js) = ''['' @ js_join '','' (map json_stringify js) @ '']''"
| "json_stringify (JObject fs) =
     ''{'' @ js_join '','' (map (\<lambda>(k, v). quote_json k @ '':'' @ json_stringify v) fs) @ ''}''"

section \<open>Reading\<close>

definition skip_space :: "string \<Rightarrow> string" where
  "skip_space s = dropWhile (\<lambda>c. code c \<in> {9, 10, 13, 32}) s"

definition hex_val :: "char \<Rightarrow> int option" where
  "hex_val c =
     (let n = code c
      in if 48 \<le> n \<and> n \<le> 57 then Some (n - 48)
         else if 97 \<le> n \<and> n \<le> 102 then Some (n - 87)
         else if 65 \<le> n \<and> n \<le> 70 then Some (n - 55) else None)"

definition hex_unit :: "char \<Rightarrow> char \<Rightarrow> char \<Rightarrow> char \<Rightarrow> char option" where
  "hex_unit a b c d =
     (case (hex_val a, hex_val b, hex_val c, hex_val d) of
        (Some w, Some x, Some y, Some z) \<Rightarrow>
          (let v = ((w * 16 + x) * 16 + y) * 16 + z in if v < 256 then Some (char_of v) else None)
      | _ \<Rightarrow> None)"

definition simple_escape :: "char \<Rightarrow> char option" where
  "simple_escape c =
     (let n = code c
      in if n = 34 \<or> n = 92 \<or> n = 47 then Some c
         else if n = 98 then Some (char_of (8 :: int)) else if n = 116 then Some (char_of (9 :: int))
         else if n = 110 then Some (char_of (10 :: int)) else if n = 102 then Some (char_of (12 :: int))
         else if n = 114 then Some (char_of (13 :: int)) else None)"

definition put_char :: "char \<Rightarrow> (string \<times> string) option \<Rightarrow> (string \<times> string) option" where
  "put_char c = map_option (\<lambda>(x, r). (c # x, r))"

text \<open>After the opening quote: the text and what follows the closing one\<close>

fun json_string :: "string \<Rightarrow> (string \<times> string) option"
and json_escaped :: "string \<Rightarrow> (string \<times> string) option" where
  "json_string [] = None"
| "json_string (c # s) =
     (if code c = 34 then Some ([], s)
      else if code c = 92 then json_escaped s
      else if code c < 32 then None
      else put_char c (json_string s))"
| "json_escaped [] = None"
| "json_escaped (d # s) =
     (case simple_escape d of
        Some x \<Rightarrow> put_char x (json_string s)
      | None \<Rightarrow>
          if d = CHR ''u'' then
            (case s of
               w # x # y # z # r \<Rightarrow>
                 (case hex_unit w x y z of Some u \<Rightarrow> put_char u (json_string r) | None \<Rightarrow> None)
             | _ \<Rightarrow> None)
          else None)"

definition json_number :: "string \<Rightarrow> (json \<times> string) option" where
  "json_number s =
     (let (neg, s') = (case s of c # r \<Rightarrow> if c = CHR ''-'' then (True, r) else (False, s) | [] \<Rightarrow> (False, s));
          (ip, r) = take_digits s'
      in if ip = [] \<or> (hd ip = CHR ''0'' \<and> 1 < length ip) then None
         else
           (let (point, fp, r') = (case r of
                  c # u \<Rightarrow> if c = CHR ''.'' then (True, take_digits u) else (False, [], r)
                | [] \<Rightarrow> (False, [], r))
            in if point \<and> fp = [] then None
               else (let (e, r'') = scan_exponent r'
                     in Some (JNumber (num_of_mag neg (of_int (digits_val (ip @ fp)) * 10 powi (e - int (length fp)))), r''))))"

text \<open>A later field of the same name replaces an earlier one.\<close>

definition add_field :: "string \<Rightarrow> json \<Rightarrow> (string \<times> json) list \<Rightarrow> (string \<times> json) list" where
  "add_field k v fs = (if k \<in> fst ` set fs then fs else (k, v) # fs)"

fun json_value :: "nat \<Rightarrow> string \<Rightarrow> (json \<times> string) option"
and json_elements :: "nat \<Rightarrow> string \<Rightarrow> (json list \<times> string) option"
and json_members :: "nat \<Rightarrow> string \<Rightarrow> ((string \<times> json) list \<times> string) option" where
  "json_value 0 s = None"
| "json_value (Suc n) s =
     (case skip_space s of
        [] \<Rightarrow> None
      | c # r \<Rightarrow>
          if code c = 34 then map_option (\<lambda>(x, u). (JString x, u)) (json_string r)
          else if c = CHR ''{'' then
            (case skip_space r of
               [] \<Rightarrow> None
             | d # u \<Rightarrow> if d = CHR ''}'' then Some (JObject [], u)
                        else map_option (\<lambda>(fs, v). (JObject fs, v)) (json_members n (d # u)))
          else if c = CHR ''['' then
            (case skip_space r of
               [] \<Rightarrow> None
             | d # u \<Rightarrow> if d = CHR '']'' then Some (JArray [], u)
                        else map_option (\<lambda>(vs, v). (JArray vs, v)) (json_elements n (d # u)))
          else if prefix ''null'' (c # r) then Some (JNull, drop 4 (c # r))
          else if prefix ''true'' (c # r) then Some (JBool True, drop 4 (c # r))
          else if prefix ''false'' (c # r) then Some (JBool False, drop 5 (c # r))
          else json_number (c # r))"
| "json_elements 0 s = None"
| "json_elements (Suc n) s =
     (case json_value n s of
        None \<Rightarrow> None
      | Some (v, r) \<Rightarrow>
          (case skip_space r of
             [] \<Rightarrow> None
           | c # u \<Rightarrow>
               if c = CHR '']'' then Some ([v], u)
               else if c = CHR '','' then map_option (\<lambda>(vs, w). (v # vs, w)) (json_elements n u)
               else None))"
| "json_members 0 s = None"
| "json_members (Suc n) s =
     (case skip_space s of
        [] \<Rightarrow> None
      | c # r \<Rightarrow>
          if code c \<noteq> 34 then None
          else
            (case json_string r of
               None \<Rightarrow> None
             | Some (k, u) \<Rightarrow>
                 (case skip_space u of
                    [] \<Rightarrow> None
                  | d # w \<Rightarrow>
                      if d \<noteq> CHR '':'' then None
                      else
                        (case json_value n w of
                           None \<Rightarrow> None
                         | Some (v, x) \<Rightarrow>
                             (case skip_space x of
                                [] \<Rightarrow> None
                              | e # y \<Rightarrow>
                                  if e = CHR ''}'' then Some ([(k, v)], y)
                                  else if e = CHR '','' then
                                    map_option (\<lambda>(fs, z). (add_field k v fs, z)) (json_members n y)
                                  else None)))))"

text \<open>Each call consumes a character or fuel twice at most per character.\<close>

definition json_parse :: "string \<Rightarrow> json option" where
  "json_parse s =
     (case json_value (2 * length s + 2) s of
        Some (v, r) \<Rightarrow> if skip_space r = [] then Some v else None
      | None \<Rightarrow> None)"

section \<open>Texts survive\<close>

lemma code_of_char: "0 \<le> n \<Longrightarrow> n < 256 \<Longrightarrow> code (char_of n) = n"
  by (simp add: code_def)

lemma char_of_code [simp]: "char_of (code c) = c"
  by (simp add: code_def)

lemma code_bounds: "0 \<le> code c" "code c < 256"
  by (simp_all add: code_def of_char_def)

lemma hex_val_digit: "0 \<le> d \<Longrightarrow> d < 16 \<Longrightarrow> hex_val (hex_digit d) = Some d"
  by (simp add: hex_val_def hex_digit_def code_of_char)

lemma hex_unit_small:
  assumes "code c < 32"
  shows "hex_unit (CHR ''0'') (CHR ''0'') (hex_digit (code c div 16)) (hex_digit (code c mod 16)) = Some c"
proof -
  have z: "hex_val (CHR ''0'') = Some 0" by code_simp
  have "0 \<le> code c div 16" "code c div 16 < 16" using assms code_bounds [of c] by linarith+
  then show ?thesis using code_bounds [of c] by (simp add: hex_unit_def z hex_val_digit Let_def)
qed

lemma json_escaped_simple:
  "simple_escape d = Some x \<Longrightarrow> json_string (char_of (92 :: int) # d # t) = put_char x (json_string t)"
  by (simp add: code_of_char)

lemma simple_escapes:
  "simple_escape (CHR ''b'') = Some (char_of (8 :: int))" "simple_escape (CHR ''t'') = Some (char_of (9 :: int))"
  "simple_escape (CHR ''n'') = Some (char_of (10 :: int))" "simple_escape (CHR ''f'') = Some (char_of (12 :: int))"
  "simple_escape (CHR ''r'') = Some (char_of (13 :: int))" "simple_escape (CHR ''u'') = None"
  by code_simp+

lemma escape_control:
  assumes "code c = n" and "simple_escape d = Some (char_of n)" and "escape_char c = [char_of (92 :: int), d]"
  shows "json_string (escape_char c @ t) = put_char c (json_string t)"
proof -
  have "char_of n = c" using assms(1) char_of_code [of c] by simp
  then show ?thesis using json_escaped_simple [OF assms(2)] assms(3) by simp
qed

lemma json_string_escape_char: "json_string (escape_char c @ t) = put_char c (json_string t)"
proof -
  consider "code c = 34 \<or> code c = 92" | "code c = 8" | "code c = 9" | "code c = 10" | "code c = 12" | "code c = 13"
    | (low) "code c < 32" "code c \<notin> {8, 9, 10, 12, 13}" | (plain) "32 \<le> code c" "code c \<noteq> 34" "code c \<noteq> 92"
    by force
  then show ?thesis
  proof cases
    case 1
    then show ?thesis by (auto simp: escape_char_def Let_def simple_escape_def intro!: json_escaped_simple)
  next
    case low
    then show ?thesis
      using hex_unit_small [OF low(1)] by (simp add: escape_char_def Let_def code_of_char simple_escapes)
  next
    case plain
    then show ?thesis by (simp add: escape_char_def Let_def)
  next
    case 2
    show ?thesis by (rule escape_control [OF 2 simple_escapes(1)]) (simp add: escape_char_def Let_def 2)
  next
    case 3
    show ?thesis by (rule escape_control [OF 3 simple_escapes(2)]) (simp add: escape_char_def Let_def 3)
  next
    case 4
    show ?thesis by (rule escape_control [OF 4 simple_escapes(3)]) (simp add: escape_char_def Let_def 4)
  next
    case 5
    show ?thesis by (rule escape_control [OF 5 simple_escapes(4)]) (simp add: escape_char_def Let_def 5)
  next
    case 6
    show ?thesis by (rule escape_control [OF 6 simple_escapes(5)]) (simp add: escape_char_def Let_def 6)
  qed
qed

lemma json_string_quote: "json_string (concat (map escape_char s) @ char_of (34 :: int) # r) = Some (s, r)"
  by (induction s) (simp_all add: code_of_char json_string_escape_char put_char_def)

lemma skip_space_plain: "code c \<notin> {9, 10, 13, 32} \<Longrightarrow> skip_space (c # s) = c # s"
  by (simp add: skip_space_def)

lemma json_codes:
  "code (CHR ''{'') = 123" "code (CHR ''}'') = 125" "code (CHR '','') = 44" "code (CHR '':'') = 58"
  by code_simp+

lemma json_value_text: "json_value (Suc n) (quote_json s @ r) = Some (JString s, r)"
  by (simp add: quote_json_def skip_space_plain code_of_char json_string_quote)

text \<open>The fields of an object, as \<open>json_stringify\<close> writes them\<close>

definition write_field :: "string \<times> string \<Rightarrow> string" where
  "write_field kv = quote_json (fst kv) @ '':'' @ quote_json (snd kv)"

lemma json_members_texts:
  assumes "distinct (map fst kvs)" and "kvs \<noteq> []" and "length kvs < n"
  shows "json_members n (js_join '','' (map write_field kvs) @ ''}'' @ r)
    = Some (map (\<lambda>(k, v). (k, JString v)) kvs, r)"
  using assms
proof (induction kvs arbitrary: n)
  case (Cons kv kvs)
  then obtain k v m where kv: "kv = (k, v)" and n: "n = Suc (Suc m)" and m: "length kvs < Suc m"
    by (cases kv; cases n; cases "n - 1") auto
  have head: "json_members n (write_field kv @ x) =
     (case skip_space x of [] \<Rightarrow> None
      | e # y \<Rightarrow> if e = CHR ''}'' then Some ([(k, JString v)], y)
                 else if e = CHR '','' then map_option (\<lambda>(fs, z). (add_field k (JString v) fs, z)) (json_members (Suc m) y)
                 else None)" for x
    using json_value_text [of m v x]
    by (simp add: kv n write_field_def quote_json_def skip_space_plain code_of_char json_codes json_string_quote)
  show ?case
  proof (cases kvs)
    case Nil
    then show ?thesis using head [of "CHR ''}'' # r"] by (simp add: kv skip_space_plain json_codes)
  next
    case (Cons kv' kvs')
    let ?rest = "js_join '','' (map write_field kvs) @ ''}'' @ r"
    have IH: "json_members (Suc m) ?rest = Some (map (\<lambda>(k, v). (k, JString v)) kvs, r)"
      using Cons.IH [of "Suc m"] Cons.prems m Cons by simp
    have "k \<notin> fst ` set (map (\<lambda>(k, v). (k, JString v)) kvs)"
      using Cons.prems(1) kv by (force simp: image_iff)
    then have "json_members n (write_field kv @ CHR '','' # ?rest)
        = Some ((k, JString v) # map (\<lambda>(k, v). (k, JString v)) kvs, r)"
      unfolding head using IH by (simp add: skip_space_plain json_codes add_field_def)
    then show ?thesis by (simp add: Cons kv)
  qed
qed simp

text \<open>Objects of text fields are read back as they were written.\<close>

lemma json_parse_texts:
  assumes "distinct (map fst kvs)"
  shows "json_parse (json_stringify (JObject (map (\<lambda>(k, v). (k, JString v)) kvs)))
    = Some (JObject (map (\<lambda>(k, v). (k, JString v)) kvs))"
proof -
  have w: "map (\<lambda>(k, v). quote_json k @ '':'' @ json_stringify v) (map (\<lambda>(k, v). (k, JString v)) kvs)
      = map write_field kvs"
    by (auto simp: write_field_def)
  let ?body = "js_join '','' (map write_field kvs) @ ''}''"
  have eq: "json_stringify (JObject (map (\<lambda>(k, v). (k, JString v)) kvs)) = CHR ''{'' # ?body"
    by (simp only: json_stringify.simps w) simp
  show ?thesis
  proof (cases "kvs = []")
    case True
    have "json_parse (json_stringify (JObject [])) = Some (JObject [])" by code_simp
    with True show ?thesis by simp
  next
    case False
    obtain x where x: "?body = char_of (34 :: int) # x"
      using False by (cases "map write_field kvs" rule: list.exhaust; cases "tl (map write_field kvs)")
        (auto simp: write_field_def quote_json_def)
    have "length kvs \<le> length (js_join '','' (map write_field kvs))"
      by (induction kvs rule: induct_list012) (auto simp: write_field_def quote_json_def)
    define n where "n = 2 * length (CHR ''{'' # ?body) + 1"
    have "length kvs < n"
      using \<open>length kvs \<le> length (js_join '','' (map write_field kvs))\<close> by (simp add: n_def)
    then have members: "json_members n ?body = Some (map (\<lambda>(k, v). (k, JString v)) kvs, [])"
      using json_members_texts [OF assms False, of n "[]"] by simp
    have "char_of (34 :: int) \<noteq> CHR ''}''" by code_simp
    then have "json_value (Suc n) (CHR ''{'' # ?body) = Some (JObject (map (\<lambda>(k, v). (k, JString v)) kvs), [])"
      using members unfolding x by (simp add: skip_space_plain json_codes code_of_char del: json_members.simps)
    then show ?thesis
      unfolding eq json_parse_def by (simp add: n_def skip_space_def del: json_value.simps)
  qed
qed

end
