(* ===== verification/ApiClient.thy ===== *)
theory ApiClient
  imports JsJson RegisterPage ReconcileWizard TransactionForm AccountForm
begin

text \<open>
  The calls to the server (\<^verbatim>\<open>api/client.ts\<close>): the request each operation makes, as
  method, path and body, and what \<open>fetchJSON\<close> does with the answer, including the end of a
  session. The body of a request is a JSON value; \<^verbatim>\<open>URLSearchParams\<close> writes query
  strings.
\<close>

section \<open>Requests\<close>

datatype http_method = GET | POST | PUT | PATCH | DELETE

record http_request =
  rq_method :: http_method
  rq_path :: string
  rq_body :: "json option"

definition API_BASE :: string where
  "API_BASE = ''/api''"

definition get_request :: "string \<Rightarrow> http_request" where
  "get_request path = \<lparr>rq_method = GET, rq_path = API_BASE @ path, rq_body = None\<rparr>"

definition send_request :: "http_method \<Rightarrow> string \<Rightarrow> json \<Rightarrow> http_request" where
  "send_request m path body = \<lparr>rq_method = m, rq_path = API_BASE @ path, rq_body = Some body\<rparr>"

definition bare_request :: "http_method \<Rightarrow> string \<Rightarrow> http_request" where
  "bare_request m path = \<lparr>rq_method = m, rq_path = API_BASE @ path, rq_body = None\<rparr>"

section \<open>Query strings\<close>

text \<open>The serializer of forms: letters, digits and four marks stay, a space is a plus, every other
  byte of the UTF-8 form is a percent sign and two digits.\<close>

definition form_safe :: "char \<Rightarrow> bool" where
  "form_safe c \<longleftrightarrow>
     (let n = code c in 48 \<le> n \<and> n \<le> 57 \<or> 65 \<le> n \<and> n \<le> 90 \<or> 97 \<le> n \<and> n \<le> 122 \<or> n \<in> {42, 45, 46, 95})"

definition upper_hex :: "int \<Rightarrow> char" where
  "upper_hex d = (if d < 10 then char_of (48 + d) else char_of (55 + d))"

definition percent_byte :: "int \<Rightarrow> string" where
  "percent_byte b = [CHR ''%'', upper_hex (b div 16), upper_hex (b mod 16)]"

definition form_char :: "char \<Rightarrow> string" where
  "form_char c =
     (let n = code c
      in if form_safe c then [c]
         else if n = 32 then ''+''
         else if n < 128 then percent_byte n
         else percent_byte (192 + n div 64) @ percent_byte (128 + n mod 64))"

definition form_encode :: "string \<Rightarrow> string" where
  "form_encode s = concat (map form_char s)"

definition query_text :: "(string \<times> string) list \<Rightarrow> string" where
  "query_text ps = js_join ''&'' (map (\<lambda>(k, v). form_encode k @ ''='' @ form_encode v) ps)"

section \<open>Accounts\<close>

definition getAccounts :: "string option \<Rightarrow> string option \<Rightarrow> http_request" where
  "getAccounts start end_date =
     (let query = (if truthy start then [(''start'', the start)] else [])
                @ (if truthy end_date then [(''end'', the end_date)] else []);
          qs = query_text query
      in get_request (''/accounts'' @ (if qs \<noteq> [] then ''?'' @ qs else [])))"

definition getAccount :: "string \<Rightarrow> http_request" where
  "getAccount i = get_request (''/accounts/'' @ i)"

definition getAccountRegister :: "string \<Rightarrow> http_request" where
  "getAccountRegister i = get_request (''/accounts/'' @ i @ ''/register'')"

fun direction_name :: "direction option \<Rightarrow> string" where
  "direction_name (Some Before) = ''before''"
| "direction_name (Some After) = ''after''"
| "direction_name None = ''around''"

definition getAccountRegisterPaged :: "page_request \<Rightarrow> http_request" where
  "getAccountRegisterPaged r =
     get_request (''/accounts/'' @ pr_id r @ ''/register?'' @
       query_text [(''cursor_date'', pr_cursor r), (''direction'', direction_name (pr_direction r)),
                   (''limit'', dec_int (pr_limit r))])"

definition opt_json :: "string option \<Rightarrow> json" where
  "opt_json x = (case x of Some s \<Rightarrow> JString s | None \<Rightarrow> JNull)"

definition account_body :: "account_fields \<Rightarrow> (string \<times> json) list" where
  "account_body d =
     [(''name'', JString (fd_name d)), (''account_type'', JString (account_type_name (fd_type d))),
      (''parent_guid'', opt_json (fd_parent d)), (''placeholder'', JBool (fd_placeholder d)),
      (''description'', JString (fd_description d))]"

fun account_request :: "account_call \<Rightarrow> http_request" where
  "account_request (CreateAccount d) = send_request POST ''/accounts'' (JObject (account_body d))"
| "account_request (UpdateAccount i d v) =
     send_request PUT (''/accounts/'' @ i) (JObject (account_body d @ [(''version'', JNumber v)]))"

definition deleteAccount :: "string \<Rightarrow> http_request" where
  "deleteAccount i = bare_request DELETE (''/accounts/'' @ i)"

section \<open>Transactions\<close>

definition getTransactions :: "int \<Rightarrow> int \<Rightarrow> http_request" where
  "getTransactions size_limit offset =
     get_request (''/transactions?limit='' @ dec_int size_limit @ ''&offset='' @ dec_int offset)"

definition getTransaction :: "string \<Rightarrow> http_request" where
  "getTransaction i = get_request (''/transactions/'' @ i)"

definition split_body :: "request_split \<Rightarrow> json" where
  "split_body s =
     JObject [(''account_guid'', JString (rs_account s)), (''memo'', JString (rs_memo s)),
              (''value_num'', JNumber (rs_value_num s)), (''value_denom'', JNumber (rs_value_denom s)),
              (''quantity_num'', JNumber (rs_quantity_num s)), (''quantity_denom'', JNumber (rs_quantity_denom s))]"

definition transaction_body :: "create_request \<Rightarrow> json" where
  "transaction_body d =
     JObject [(''custom_id'', JString (cr_custom_id d)), (''post_date'', JString (cr_post_date d)),
              (''description'', JString (cr_description d)), (''splits'', JArray (map split_body (cr_splits d)))]"

fun transaction_request :: "submit_call \<Rightarrow> http_request" where
  "transaction_request (CreateTx d) = send_request POST ''/transactions'' (transaction_body d)"
| "transaction_request (UpdateTx i d) = send_request PUT (''/transactions/'' @ i) (transaction_body d)"

definition deleteTransaction :: "string \<Rightarrow> http_request" where
  "deleteTransaction i = bare_request DELETE (''/transactions/'' @ i)"

definition batchReconcileSplits :: "string list \<Rightarrow> http_request" where
  "batchReconcileSplits guids =
     send_request POST ''/transactions/splits/reconcile'' (JObject [(''split_guids'', JArray (map JString guids))])"

definition toggleSplitAcknowledge :: "string \<Rightarrow> string \<Rightarrow> http_request" where
  "toggleSplitAcknowledge i state =
     send_request PATCH (''/transactions/splits/'' @ i @ ''/toggle'') (JObject [(''state'', JString state)])"

definition getReconciledBalance :: "string \<Rightarrow> http_request" where
  "getReconciledBalance i = get_request (''/accounts/'' @ i @ ''/reconciled-balance'')"

definition reconcileAccountSplits :: "string \<Rightarrow> string list \<Rightarrow> http_request" where
  "reconcileAccountSplits i guids =
     send_request POST (''/accounts/'' @ i @ ''/reconcile'') (JObject [(''account_guids'', JArray (map JString guids))])"

section \<open>Snapshots\<close>

definition getSnapshotConfig :: http_request where
  "getSnapshotConfig = get_request ''/snapshots/config''"

definition upsertSnapshotConfig :: "number \<Rightarrow> number \<Rightarrow> bool \<Rightarrow> http_request" where
  "upsertSnapshotConfig frequency ttl active =
     send_request PUT ''/snapshots/config''
       (JObject [(''frequency_hours'', JNumber frequency), (''ttl_hours'', JNumber ttl), (''active_mode'', JBool active)])"

definition listSnapshots :: http_request where
  "listSnapshots = get_request ''/snapshots/''"

definition takeSnapshot :: "string \<Rightarrow> http_request" where
  "takeSnapshot label = send_request POST ''/snapshots/'' (JObject [(''label'', JString label)])"

definition restoreSnapshot :: "string \<Rightarrow> http_request" where
  "restoreSnapshot i = bare_request POST (''/snapshots/'' @ i @ ''/restore'')"

definition deleteSnapshot :: "string \<Rightarrow> http_request" where
  "deleteSnapshot i = bare_request DELETE (''/snapshots/'' @ i)"

section \<open>Bank connections\<close>

definition plaidGetLinkToken :: "string \<Rightarrow> http_request" where
  "plaidGetLinkToken lang = send_request POST ''/data/plaid/link-token'' (JObject [(''language'', JString lang)])"

definition plaidExchange :: "string \<Rightarrow> http_request" where
  "plaidExchange publicToken = send_request POST ''/data/plaid/exchange'' (JObject [(''public_token'', JString publicToken)])"

definition plaidLink :: "string \<Rightarrow> (string \<times> string) list \<Rightarrow> bool \<Rightarrow> http_request" where
  "plaidLink itemGuid mappings importPending =
     send_request POST ''/data/plaid/link''
       (JObject [(''item_guid'', JString itemGuid),
                 (''mappings'', JArray (map (\<lambda>(a, g). JObject [(''account_id'', JString a), (''account_guid'', JString g)]) mappings)),
                 (''import_pending'', JBool importPending)])"

definition plaidSync :: "string \<Rightarrow> http_request" where
  "plaidSync itemGuid = send_request POST ''/data/plaid/sync'' (JObject [(''item_guid'', JString itemGuid)])"

definition plaidImport :: "(string \<times> string) list \<Rightarrow> http_request" where
  "plaidImport rows =
     send_request POST ''/data/plaid/import''
       (JObject [(''rows'', JArray (map (\<lambda>(i, g).
          JObject [(''transaction_id'', JString i), (''category_account_guid'', JString g)]) rows))])"

definition plaidDismiss :: "string list \<Rightarrow> http_request" where
  "plaidDismiss transactionIds =
     send_request POST ''/data/plaid/dismiss'' (JObject [(''transaction_ids'', JArray (map JString transactionIds))])"

definition plaidDisconnect :: "string \<Rightarrow> http_request" where
  "plaidDisconnect itemGuid = bare_request DELETE (''/data/plaid/items/'' @ itemGuid)"

definition plaidListItems :: http_request where
  "plaidListItems = get_request ''/data/plaid/items''"

section \<open>Answers\<close>

text \<open>The body of an answer is read by \<^verbatim>\<open>res.json()\<close>, which may throw.\<close>

record http_response =
  hr_status :: int
  hr_status_text :: string
  hr_json :: "js_error + json"

definition hr_ok :: "http_response \<Rightarrow> bool" where
  "hr_ok r \<longleftrightarrow> 200 \<le> hr_status r \<and> hr_status r \<le> 299"

text \<open>\<^verbatim>\<open>x.error || dflt\<close> as the message of an \<^verbatim>\<open>Error\<close>; reading from
  \<^verbatim>\<open>null\<close> throws. The server's \<^verbatim>\<open>error\<close> is a text.\<close>

definition body_error :: "json \<Rightarrow> string \<Rightarrow> js_error" where
  "body_error body dflt =
     (if body = JNull then Error ''Cannot read properties of null (reading 'error')''
      else case json_text (json_field body ''error'') of
             Some m \<Rightarrow> Error (if m \<noteq> [] then m else dflt)
           | None \<Rightarrow> Error dflt)"

datatype client_effect = SessionExpired

text \<open>
  The outcome of a call and the effects on the page: a 401 forgets the cached user and tells the
  listeners that the session is over. \<open>Inr None\<close> is the undefined result of an answer without
  content.
\<close>

definition fetchJSON :: "js_error + http_response \<Rightarrow> client_effect list \<times> (js_error + json option)" where
  "fetchJSON res =
     (case res of
        Inl e \<Rightarrow> ([], Inl e)
      | Inr r \<Rightarrow>
          if hr_status r = 401 then ([SessionExpired], Inl (Error ''Session expired''))
          else if \<not> hr_ok r then
            (let body = (case hr_json r of Inr j \<Rightarrow> j | Inl e \<Rightarrow> JObject [(''error'', JString (hr_status_text r))])
             in ([], Inl (body_error body (''HTTP '' @ dec_int (hr_status r)))))
          else if hr_status r = 204 then ([], Inr None)
          else (case hr_json r of Inr j \<Rightarrow> ([], Inr (Some j)) | Inl e \<Rightarrow> ([], Inl e)))"

end
