(* ===== verification/Session.thy ===== *)
theory Session
  imports ApiClient
begin

text \<open>
  Who is signed in (\<^verbatim>\<open>auth/AuthContext.tsx\<close>), the sign-in page
  (\<^verbatim>\<open>pages/LoginPage.tsx\<close>), the routes (\<^verbatim>\<open>App.tsx\<close>) and the
  sidebar (\<^verbatim>\<open>components/Sidebar.tsx\<close>). The user is a JSON value, as the cached copy is
  not checked when it is read; the other keys of the local storage belong to other components.
\<close>

section \<open>State of the provider\<close>

definition USER_CACHE_KEY :: string where
  "USER_CACHE_KEY = ''antimoney-user''"

record session =
  au_user :: json
  au_loading :: bool
  au_storage :: storage

definition cache_user :: "json \<Rightarrow> storage \<Rightarrow> storage" where
  "cache_user u st = st(USER_CACHE_KEY \<mapsto> json_stringify u)"

definition forget_user :: "storage \<Rightarrow> storage" where
  "forget_user st = st(USER_CACHE_KEY := None)"

definition cached_user :: "storage \<Rightarrow> json option" where
  "cached_user st = (case st USER_CACHE_KEY of Some s \<Rightarrow> if s \<noteq> [] then json_parse s else None | None \<Rightarrow> None)"

text \<open>On mounting: the cached user is shown at once, and the server is asked.\<close>

definition auth_mount :: "storage \<Rightarrow> session" where
  "auth_mount st =
     \<lparr>au_user = (case cached_user st of Some u \<Rightarrow> u | None \<Rightarrow> JNull), au_loading = True, au_storage = st\<rparr>"

text \<open>
  The user object made from an answer: an undefined field is left out, which makes no difference to
  reading or writing it; \<open>None\<close> is the error of reading a field of \<^verbatim>\<open>null\<close>.
\<close>

definition present :: "string \<Rightarrow> json option \<Rightarrow> (string \<times> json) list" where
  "present k v = (case v of Some j \<Rightarrow> [(k, j)] | None \<Rightarrow> [])"

definition user_of :: "json \<Rightarrow> json option" where
  "user_of data =
     (if data = JNull then None
      else Some (JObject
        (present ''user_id'' (json_field data ''user_id'')
         @ present ''book_guid'' (json_field data ''book_guid'')
         @ present ''email'' (json_field data ''email'')
         @ [(''name'', case json_field data ''name'' of Some j \<Rightarrow> if json_truthy j then j else JString [] | None \<Rightarrow> JString [])])))"

definition sign_in :: "json \<Rightarrow> session \<Rightarrow> session" where
  "sign_in u s = s\<lparr>au_user := u, au_storage := cache_user u (au_storage s)\<rparr>"

definition sign_out :: "session \<Rightarrow> session" where
  "sign_out s = s\<lparr>au_user := JNull, au_storage := forget_user (au_storage s)\<rparr>"

text \<open>The check of the session settles, unless the provider was unmounted meanwhile.\<close>

definition me_settled :: "bool \<Rightarrow> js_error + http_response \<Rightarrow> session \<Rightarrow> session" where
  "me_settled cancelled res s =
     (if cancelled then s
      else (case res of
              Inl e \<Rightarrow> (sign_out s)\<lparr>au_loading := False\<rparr>
            | Inr r \<Rightarrow>
                if \<not> hr_ok r then (sign_out s)\<lparr>au_loading := False\<rparr>
                else (case hr_json r of
                        Inl e \<Rightarrow> (sign_out s)\<lparr>au_loading := False\<rparr>
                      | Inr j \<Rightarrow>
                          (case user_of j of
                             Some u \<Rightarrow> (sign_in u s)\<lparr>au_loading := False\<rparr>
                           | None \<Rightarrow> (sign_out s)\<lparr>au_loading := False\<rparr>))))"

text \<open>The listener of the client's event, with the removal the client makes before it\<close>

definition session_expired :: "session \<Rightarrow> session" where
  "session_expired s = s\<lparr>au_user := JNull, au_storage := forget_user (au_storage s)\<rparr>"

definition client_answers :: "js_error + http_response \<Rightarrow> session \<Rightarrow> session \<times> (js_error + json option)" where
  "client_answers res s =
     (let (effs, out) = fetchJSON res in (if SessionExpired \<in> set effs then session_expired s else s, out))"

section \<open>Signing in and out\<close>

definition AUTH_BASE :: string where
  "AUTH_BASE = ''/auth''"

definition login_request :: "string \<Rightarrow> string \<Rightarrow> http_request" where
  "login_request email password =
     \<lparr>rq_method = POST, rq_path = AUTH_BASE @ ''/login'',
      rq_body = Some (JObject [(''email'', JString email), (''password'', JString password)])\<rparr>"

definition register_request :: "string \<Rightarrow> string \<Rightarrow> string \<Rightarrow> http_request" where
  "register_request email password name =
     \<lparr>rq_method = POST, rq_path = AUTH_BASE @ ''/register'',
      rq_body = Some (JObject [(''email'', JString email), (''password'', JString password), (''name'', JString name)])\<rparr>"

definition logout_request :: http_request where
  "logout_request = \<lparr>rq_method = POST, rq_path = AUTH_BASE @ ''/logout'', rq_body = None\<rparr>"

text \<open>
  A sign-in call settles: the new state, or the error thrown to the page. Both kinds differ in the
  message used when the server gives none.
\<close>

definition sign_in_settled :: "string \<Rightarrow> js_error + http_response \<Rightarrow> session \<Rightarrow> session \<times> js_error option" where
  "sign_in_settled dflt res s =
     (case res of
        Inl e \<Rightarrow> (s, Some e)
      | Inr r \<Rightarrow>
          if \<not> hr_ok r then
            (s, Some (body_error (case hr_json r of Inr j \<Rightarrow> j | Inl e \<Rightarrow> JObject []) dflt))
          else (case hr_json r of
                  Inl e \<Rightarrow> (s, Some e)
                | Inr j \<Rightarrow>
                    (case user_of j of
                       Some u \<Rightarrow> (sign_in u s, None)
                     | None \<Rightarrow> (s, Some (Error ''Cannot read properties of null (reading 'user_id')'')))))"

definition login_settled :: "js_error + http_response \<Rightarrow> session \<Rightarrow> session \<times> js_error option" where
  "login_settled res s = sign_in_settled ''Login failed'' res s"

definition register_settled :: "js_error + http_response \<Rightarrow> session \<Rightarrow> session \<times> js_error option" where
  "register_settled res s = sign_in_settled ''Registration failed'' res s"

text \<open>Whatever the server answers to a sign-out, and if it does not answer at all\<close>

definition logout_settled :: "js_error + http_response \<Rightarrow> session \<Rightarrow> session" where
  "logout_settled res s = sign_out s"

section \<open>The sign-in page\<close>

datatype login_mode = LoginMode | RegisterMode

record login_page =
  lp_mode :: login_mode
  lp_email :: string
  lp_password :: string
  lp_name :: string
  lp_error :: string
  lp_loading :: bool

definition login_init :: login_page where
  "login_init = \<lparr>lp_mode = LoginMode, lp_email = [], lp_password = [], lp_name = [], lp_error = [], lp_loading = False\<rparr>"

definition set_mode :: "login_mode \<Rightarrow> login_page \<Rightarrow> login_page" where
  "set_mode m st = st\<lparr>lp_mode := m, lp_error := []\<rparr>"

definition login_submit :: "login_page \<Rightarrow> login_page \<times> http_request option" where
  "login_submit st =
     (st\<lparr>lp_error := [], lp_loading := True\<rparr>,
      Some (if lp_mode st = LoginMode then login_request (lp_email st) (lp_password st)
            else register_request (lp_email st) (lp_password st) (lp_name st)))"

definition login_page_settled :: "js_error option \<Rightarrow> login_page \<Rightarrow> login_page" where
  "login_page_settled out st =
     (case out of
        None \<Rightarrow> st\<lparr>lp_loading := False\<rparr>
      | Some e \<Rightarrow> st\<lparr>lp_error := error_message e ''Something went wrong'', lp_loading := False\<rparr>)"

definition login_fields :: "login_page \<Rightarrow> (string \<times> string \<times> nat option) list" where
  "login_fields st =
     (if lp_mode st = RegisterMode then [(''Name'', lp_name st, None)] else [])
     @ [(''Email'', lp_email st, None),
        (''Password'', lp_password st, if lp_mode st = RegisterMode then Some 8 else None)]"

definition login_label :: "login_page \<Rightarrow> string" where
  "login_label st =
     (if lp_loading st then (if lp_mode st = LoginMode then ''Signing in...'' else ''Creating account...'')
      else (if lp_mode st = LoginMode then ''Sign In'' else ''Create Account''))"

definition login_heading :: "login_page \<Rightarrow> string" where
  "login_heading st = (if lp_mode st = LoginMode then ''Sign in to your account'' else ''Create a new account'')"

datatype login_event = SetMode login_mode | SetEmail string | SetPassword string | SetFullName string

fun login_edit :: "login_event \<Rightarrow> login_page \<Rightarrow> login_page" where
  "login_edit (SetMode m) st = set_mode m st"
| "login_edit (SetEmail v) st = st\<lparr>lp_email := v\<rparr>"
| "login_edit (SetPassword v) st = st\<lparr>lp_password := v\<rparr>"
| "login_edit (SetFullName v) st = st\<lparr>lp_name := v\<rparr>"

interpretation signing_in: async_handler login_submit login_page_settled login_edit lp_loading
proof
  fix ev st
  show "lp_loading (login_edit ev st) = lp_loading st" by (cases ev) (simp_all add: set_mode_def)
qed (auto simp: login_submit_def login_page_settled_def split: option.splits)

section \<open>Routes\<close>

datatype route =
    DashboardPage
  | AccountsPage
  | AccountPage
  | TransactionsPage
  | DataPage
  | SnapshotsPage
  | RedirectHome

definition app_routes :: "(string \<times> route) list" where
  "app_routes =
     [(''/'', DashboardPage), (''/accounts'', AccountsPage), (''/accounts/:id'', AccountPage),
      (''/transactions'', TransactionsPage), (''/data'', DataPage), (''/snapshots'', SnapshotsPage),
      (''*'', RedirectHome)]"

text \<open>
  Which pattern matches a path is up to the router, the parameter \<open>pick\<close>; a pattern outside the
  table shows nothing.
\<close>

datatype screen = Spinner | LoginScreen | Main "route option"

definition app_screen :: "(string list \<Rightarrow> string \<Rightarrow> string) \<Rightarrow> session \<Rightarrow> string \<Rightarrow> screen" where
  "app_screen pick s path =
     (if au_loading s then Spinner
      else if \<not> json_truthy (au_user s) then LoginScreen
      else Main (map_of app_routes (pick (map fst app_routes) path)))"

section \<open>Sidebar\<close>

text \<open>Path, label and the digit of the shortcut of each entry\<close>

definition sidebar_items :: "language \<Rightarrow> (string \<times> string \<times> string option) list" where
  "sidebar_items lang =
     [(''/'', t lang ''nav.dashboard'', Some ''1''),
      (''/accounts'', t lang ''nav.accounts'', Some ''2''),
      (''/transactions'', t lang ''nav.transactions'', Some ''3''),
      (''/data'', t lang ''nav.data'', Some ''4''),
      (''/snapshots'', t lang ''nav.snapshots'', None)]"

text \<open>The footer with the user's address and the button to sign out\<close>

definition sidebar_user :: "json \<Rightarrow> string option" where
  "sidebar_user user =
     (case json_text (json_field user ''email'') of Some e \<Rightarrow> if e \<noteq> [] then Some e else None | None \<Rightarrow> None)"

end
