(* ===== verification/SessionLaws.thy ===== *)
theory SessionLaws
  imports Session
begin

text \<open>
  The session as a state machine: the cached user and the user shown agree once the first check
  has settled, a reload restores the user, and an answer with status 401 ends the session.
\<close>

section \<open>The cache\<close>

text \<open>Users the server describes: objects of text fields\<close>

definition text_user :: "json \<Rightarrow> bool" where
  "text_user u \<longleftrightarrow> (\<exists>kvs. distinct (map fst kvs) \<and> u = JObject (map (\<lambda>(k, v). (k, JString v)) kvs))"

interpretation user_cache: persisted cache_user cached_user text_user USER_CACHE_KEY
proof
  fix u st
  assume "text_user u"
  then have "json_parse (json_stringify u) = Some u" unfolding text_user_def using json_parse_texts by blast
  moreover from \<open>text_user u\<close> have "json_stringify u \<noteq> []" by (auto simp: text_user_def)
  ultimately show "cached_user (cache_user u st) = Some u" by (simp add: cached_user_def cache_user_def)
qed (auto simp: cache_user_def cached_user_def)

lemma text_user_of:
  assumes "distinct (map fst kvs)"
  shows "\<exists>u. user_of (JObject (map (\<lambda>(k, v). (k, JString v)) kvs)) = Some u \<and> text_user u"
proof -
  let ?f = "\<lambda>k. map_of kvs k"
  have field: "json_field (JObject (map (\<lambda>(k, v). (k, JString v)) kvs)) k = map_option JString (?f k)" for k
    by (induction kvs) auto
  let ?p = "\<lambda>k. case ?f k of Some v \<Rightarrow> [(k, v)] | None \<Rightarrow> []"
  let ?kvs = "?p ''user_id'' @ ?p ''book_guid'' @ ?p ''email'' @ [(''name'', case ?f ''name'' of Some v \<Rightarrow> v | None \<Rightarrow> [])]"
  have "user_of (JObject (map (\<lambda>(k, v). (k, JString v)) kvs)) = Some (JObject (map (\<lambda>(k, v). (k, JString v)) ?kvs))"
    unfolding user_of_def field by (auto simp: present_def split: option.splits)
  moreover have "distinct (map fst ?kvs)" by (auto split: option.splits)
  ultimately show ?thesis unfolding text_user_def by blast
qed

section \<open>Steps\<close>

text \<open>
  The check settles once, while the provider is loading; everything else happens on pages shown
  afterwards, in any order, answers of earlier sessions included.
\<close>

inductive session_step :: "session \<Rightarrow> session \<Rightarrow> bool" where
  Me: "au_loading s \<Longrightarrow> session_step s (me_settled cancelled res s)"
| Answer: "\<not> au_loading s \<Longrightarrow> session_step s (fst (client_answers res s))"
| Login: "\<not> au_loading s \<Longrightarrow> session_step s (fst (login_settled res s))"
| Register: "\<not> au_loading s \<Longrightarrow> session_step s (fst (register_settled res s))"
| Logout: "\<not> au_loading s \<Longrightarrow> session_step s (logout_settled res s)"

inductive_cases session_stepE: "session_step s s'"

definition session_ok :: "session \<Rightarrow> bool" where
  "session_ok s \<longleftrightarrow> au_loading s
    \<or> au_storage s USER_CACHE_KEY = (if au_user s = JNull then None else Some (json_stringify (au_user s)))"

lemma user_of_object: "user_of j = Some u \<Longrightarrow> u \<noteq> JNull \<and> json_truthy u"
  by (auto simp: user_of_def split: if_splits)

lemma sign_ok [simp]:
  "user_of j = Some u \<Longrightarrow> session_ok (sign_in u s)" "session_ok (sign_out s)" "session_ok (session_expired s)"
  "user_of j = Some u \<Longrightarrow> session_ok ((sign_in u s)\<lparr>au_loading := b\<rparr>)" "session_ok ((sign_out s)\<lparr>au_loading := b\<rparr>)"
  using user_of_object
  by (auto simp: session_ok_def sign_in_def sign_out_def session_expired_def cache_user_def forget_user_def)

lemma sign_in_settled_ok: "session_ok s \<Longrightarrow> session_ok (fst (sign_in_settled dflt res s))"
  by (auto simp: sign_in_settled_def split: sum.splits option.splits)

lemma session_ok_step: "session_step s s' \<Longrightarrow> session_ok s \<Longrightarrow> session_ok s'"
proof (induction rule: session_step.induct)
  case (Me s cancelled res)
  then show ?case by (auto simp: me_settled_def split: sum.splits option.splits)
next
  case (Answer s res)
  then show ?case by (auto simp: client_answers_def Let_def split: prod.splits)
qed (simp_all add: login_settled_def register_settled_def logout_settled_def sign_in_settled_ok)

lemma session_ok_reachable: "session_step\<^sup>*\<^sup>* (auth_mount st) s \<Longrightarrow> session_ok s"
proof (induction rule: rtranclp_induct)
  case base
  then show ?case by (simp add: session_ok_def auth_mount_def)
qed (rule session_ok_step)

text \<open>
  C24. Once the first check has settled, and through any sequence of sign-ins, sign-outs, failures and
  expired sessions, the copy kept in the local storage is that of the user shown, and there is
  none when nobody is signed in.
\<close>

theorem session_consistent:
  assumes "session_step\<^sup>*\<^sup>* (auth_mount st) s" and "\<not> au_loading s"
  shows "au_storage s USER_CACHE_KEY = (if au_user s = JNull then None else Some (json_stringify (au_user s)))"
  using session_ok_reachable [OF assms(1)] assms(2) by (simp add: session_ok_def)

theorem session_consistent_witness:
  "au_storage (me_settled False (Inl Thrown) (auth_mount [USER_CACHE_KEY \<mapsto> ''junk''])) USER_CACHE_KEY = None"
proof -
  let ?s = "me_settled False (Inl Thrown) (auth_mount [USER_CACHE_KEY \<mapsto> ''junk''])"
  have "session_step (auth_mount [USER_CACHE_KEY \<mapsto> ''junk'']) ?s"
    by (rule Me) (simp add: auth_mount_def)
  then have "session_step\<^sup>*\<^sup>* (auth_mount [USER_CACHE_KEY \<mapsto> ''junk'']) ?s" by (rule r_into_rtranclp)
  from session_consistent [OF this] show ?thesis by (simp add: me_settled_def sign_out_def)
qed

text \<open>
  C25. Signing in survives a reload: with an answer of text fields, the page opened next shows the
  same user before the server is asked, whatever other components store meanwhile.
\<close>

theorem session_restored:
  assumes "distinct (map fst kvs)" and "hr_ok r" and "hr_json r = Inr (JObject (map (\<lambda>(k, v). (k, JString v)) kvs))"
    and "\<And>store. other store USER_CACHE_KEY = store USER_CACHE_KEY"
  shows "\<exists>u. au_user (fst (login_settled (Inr r) s)) = u \<and> json_truthy u
    \<and> au_user (auth_mount (other (au_storage (fst (login_settled (Inr r) s))))) = u"
proof -
  obtain u where u: "user_of (JObject (map (\<lambda>(k, v). (k, JString v)) kvs)) = Some u" "text_user u"
    using text_user_of [OF assms(1)] by blast
  have s: "fst (login_settled (Inr r) s) = sign_in u s"
    using assms(2,3) u(1) by (simp add: login_settled_def sign_in_settled_def)
  have "cached_user (other (cache_user u (au_storage s))) = Some u"
    by (rule user_cache.load_after_other [OF u(2)]) (rule assms(4))
  then show ?thesis using user_of_object [OF u(1)] by (simp add: s sign_in_def auth_mount_def)
qed

theorem session_restored_witness:
  "\<exists>u. json_truthy u \<and> au_user (auth_mount (au_storage (fst (login_settled
     (Inr \<lparr>hr_status = 200, hr_status_text = ''OK'',
           hr_json = Inr (JObject [(''user_id'', JString ''1''), (''email'', JString ''a@b'')])\<rparr>)
     (auth_mount Map.empty))))) = u"
  using session_restored [of "[(''user_id'', ''1''), (''email'', ''a@b'')]"
      "\<lparr>hr_status = 200, hr_status_text = ''OK'',
        hr_json = Inr (JObject [(''user_id'', JString ''1''), (''email'', JString ''a@b'')])\<rparr>"
      "\<lambda>st. st" "auth_mount Map.empty"]
  by (auto simp: hr_ok_def)

text \<open>
  A call to the server ends the session exactly when the answer has status 401: the user and the
  cached copy are gone and the sign-in page is shown; every other outcome leaves the session as
  it is. A call gives a result exactly for a readable answer with a status from 200 to 299.
\<close>

theorem session_ends_on_401:
  "(if hr_status r = 401
    then app_screen pick (fst (client_answers (Inr r) (s\<lparr>au_loading := False\<rparr>))) path = LoginScreen
      \<and> cached_user (au_storage (fst (client_answers (Inr r) s))) = None
    else fst (client_answers (Inr r) s) = s)
   \<and> (isl (snd (client_answers (Inr r) s)) \<longleftrightarrow> \<not> hr_ok r \<or> hr_status r \<noteq> 204 \<and> isl (hr_json r))"
  by (auto simp: client_answers_def fetchJSON_def Let_def session_expired_def app_screen_def cached_user_def
      forget_user_def hr_ok_def split: sum.splits)

end
