(* ===== verification/ImportMatcher.thy ===== *)
theory ImportMatcher
  imports I18n Types
begin

text \<open>
  Reviewing the transactions a bank sync suggests (\<^verbatim>\<open>components/ImportMatcher.tsx\<close>):
  the rows with their category and whether they are included, dismissing a suggestion for good,
  and importing, with its three outcomes.
\<close>

section \<open>State\<close>

record match_row =
  mr_suggestion :: sync_suggestion
  mr_category :: string
  mr_included :: bool

record matcher =
  im_rows :: "match_row list"
  im_accounts :: "account list"
  im_importing :: bool
  im_dismissing :: "string option"
  im_error :: "string option"

definition match_row_of :: "sync_suggestion \<Rightarrow> match_row" where
  "match_row_of s =
     \<lparr>mr_suggestion = s, mr_category = (case su_category_guid s of Some g \<Rightarrow> g | None \<Rightarrow> []), mr_included = True\<rparr>"

definition matcher_init :: "sync_suggestion list \<Rightarrow> matcher" where
  "matcher_init suggestions =
     \<lparr>im_rows = map match_row_of suggestions, im_accounts = [], im_importing = False,
      im_dismissing = None, im_error = None\<rparr>"

section \<open>Dismissing\<close>

definition handleDismiss :: "string \<Rightarrow> matcher \<Rightarrow> matcher \<times> string list option" where
  "handleDismiss transactionId st =
     (st\<lparr>im_dismissing := Some transactionId, im_error := None\<rparr>, Some [transactionId])"

definition dismiss_settled :: "language \<Rightarrow> string \<Rightarrow> js_error + unit \<Rightarrow> matcher \<Rightarrow> matcher" where
  "dismiss_settled lang transactionId res st =
     (case res of
        Inr _ \<Rightarrow> st\<lparr>im_rows := filter (\<lambda>r. su_tx (mr_suggestion r) \<noteq> transactionId) (im_rows st),
                   im_dismissing := None\<rparr>
      | Inl e \<Rightarrow> st\<lparr>im_error := Some (t lang ''plaid.dismissError''), im_dismissing := None\<rparr>)"

section \<open>Categories\<close>

text \<open>The accounts arrive as a tree, which is flattened; groups cannot be chosen.\<close>

fun flatten_account :: "account_tree \<Rightarrow> account list" where
  "flatten_account (AccNode a cs) =
     a # (case cs of Some ts \<Rightarrow> concat (map flatten_account ts) | None \<Rightarrow> [])"

definition matcher_accounts_loaded :: "account_tree list \<Rightarrow> matcher \<Rightarrow> matcher" where
  "matcher_accounts_loaded data st =
     st\<lparr>im_accounts := filter (\<lambda>a. \<not> acc_placeholder a) (concat (map flatten_account data))\<rparr>"

definition update_row :: "int \<Rightarrow> (match_row \<Rightarrow> match_row) \<Rightarrow> match_row list \<Rightarrow> match_row list" where
  "update_row idx f rows = (if 0 \<le> idx \<and> nat idx < length rows then rows[nat idx := f (rows ! nat idx)] else rows)"

definition setCategory :: "int \<Rightarrow> string \<Rightarrow> matcher \<Rightarrow> matcher" where
  "setCategory idx guid st = st\<lparr>im_rows := update_row idx (\<lambda>r. r\<lparr>mr_category := guid\<rparr>) (im_rows st)\<rparr>"

definition toggleIncluded :: "int \<Rightarrow> matcher \<Rightarrow> matcher" where
  "toggleIncluded idx st =
     st\<lparr>im_rows := update_row idx (\<lambda>r. r\<lparr>mr_included := \<not> mr_included r\<rparr>) (im_rows st)\<rparr>"

text \<open>The categories offered for a row leave out the bank account itself.\<close>

definition category_options :: "matcher \<Rightarrow> match_row \<Rightarrow> (string \<times> string) list" where
  "category_options st row =
     map (\<lambda>a. (acc_guid a, acc_name a))
       (filter (\<lambda>a. acc_guid a \<noteq> su_bank_guid (mr_suggestion row)) (im_accounts st))"

section \<open>Importing\<close>

definition includedRows :: "matcher \<Rightarrow> match_row list" where
  "includedRows st = filter mr_included (im_rows st)"

definition allCategorized :: "matcher \<Rightarrow> bool" where
  "allCategorized st = list_all (\<lambda>r. mr_category r \<noteq> []) (includedRows st)"

text \<open>Transactions with the categories chosen for them\<close>

definition handleConfirm :: "matcher \<Rightarrow> matcher \<times> (string \<times> string) list option" where
  "handleConfirm st =
     (if \<not> allCategorized st then (st, None)
      else (st\<lparr>im_importing := True, im_error := None\<rparr>,
            Some (map (\<lambda>r. (su_tx (mr_suggestion r), mr_category r)) (includedRows st))))"

record import_result =
  ir_imported :: number
  ir_failed :: "string list option"
  ir_error :: "string option"

text \<open>The new state, and the number reported to the page when everything was imported\<close>

definition confirm_settled :: "language \<Rightarrow> js_error + import_result \<Rightarrow> matcher \<Rightarrow> matcher \<times> number option" where
  "confirm_settled lang res st =
     (case res of
        Inr r \<Rightarrow>
          if truthy (ir_error r) then
            (st\<lparr>im_error := Some (js_replace ''{{imported}}'' (num_to_string (ir_imported r))
                                   (t lang ''plaid.importInterrupted'')),
                im_importing := False\<rparr>, None)
          else if (case ir_failed r of Some fs \<Rightarrow> fs \<noteq> [] | None \<Rightarrow> False) then
            (st\<lparr>im_error := Some (js_replace ''{{failed}}'' (dec_int (int (length (the (ir_failed r)))))
                                   (js_replace ''{{imported}}'' (num_to_string (ir_imported r))
                                     (t lang ''plaid.importPartial''))),
                im_importing := False\<rparr>, None)
          else (st\<lparr>im_importing := False\<rparr>, Some (ir_imported r))
      | Inl e \<Rightarrow> (st\<lparr>im_error := Some (t lang ''plaid.importError''), im_importing := False\<rparr>, None))"

definition confirm_enabled :: "matcher \<Rightarrow> bool" where
  "confirm_enabled st \<longleftrightarrow> \<not> (im_importing st \<or> \<not> allCategorized st \<or> includedRows st = [])"

definition dismiss_enabled :: "matcher \<Rightarrow> match_row \<Rightarrow> bool" where
  "dismiss_enabled st row \<longleftrightarrow> \<not> (im_importing st \<or> im_dismissing st = Some (su_tx (mr_suggestion row)))"

section \<open>What is shown\<close>

definition formatAmount :: "number \<Rightarrow> number \<Rightarrow> string" where
  "formatAmount num denom = to_fixed2 (num_div num denom)"

record matcher_line =
  ml_date :: string
  ml_description :: string
  ml_amount :: string
  ml_bank :: string
  ml_category :: string
  ml_options :: "(string \<times> string) list"
  ml_included :: bool
  ml_can_dismiss :: bool

definition matcher_lines :: "matcher \<Rightarrow> matcher_line list" where
  "matcher_lines st =
     map (\<lambda>row. let s = mr_suggestion row in
       \<lparr>ml_date = su_date s, ml_description = su_description s,
        ml_amount = formatAmount (su_amount_num s) (su_amount_denom s), ml_bank = su_bank_name s,
        ml_category = mr_category row, ml_options = category_options st row,
        ml_included = mr_included row, ml_can_dismiss = dismiss_enabled st row\<rparr>) (im_rows st)"

definition matcher_header :: "language \<Rightarrow> string list" where
  "matcher_header lang =
     [t lang ''plaid.colDate'', t lang ''plaid.colDescription'', t lang ''plaid.colAmount'',
      t lang ''plaid.colBankAccount'', t lang ''plaid.colCategory'', t lang ''plaid.colInclude'', t lang ''plaid.dismiss'']"

definition confirm_label :: "language \<Rightarrow> matcher \<Rightarrow> string" where
  "confirm_label lang st =
     (if im_importing st then t lang ''plaid.importing''
      else js_replace ''{{count}}'' (dec_int (int (length (includedRows st)))) (t lang ''plaid.confirmImport''))"

section \<open>Interleavings\<close>

datatype matcher_event =
    SetCategory int string
  | ToggleIncluded int
  | MatcherAccounts "account_tree list"
  | Dismiss string
  | DismissSettled string "js_error + unit"

fun matcher_edit :: "language \<Rightarrow> matcher_event \<Rightarrow> matcher \<Rightarrow> matcher" where
  "matcher_edit lang (SetCategory i g) st = setCategory i g st"
| "matcher_edit lang (ToggleIncluded i) st = toggleIncluded i st"
| "matcher_edit lang (MatcherAccounts ts) st = matcher_accounts_loaded ts st"
| "matcher_edit lang (Dismiss x) st = fst (handleDismiss x st)"
| "matcher_edit lang (DismissSettled x res) st = dismiss_settled lang x res st"

lemma matcher_edit_importing: "im_importing (matcher_edit lang ev st) = im_importing st"
  by (cases ev) (simp_all add: setCategory_def toggleIncluded_def matcher_accounts_loaded_def handleDismiss_def
      dismiss_settled_def split: sum.splits)

interpretation importing: async_handler handleConfirm "\<lambda>res st. fst (confirm_settled lang res st)"
  "matcher_edit lang" im_importing
  by unfold_locales
    (auto simp: matcher_edit_importing handleConfirm_def confirm_settled_def split: if_splits sum.splits)

text \<open>The suggestions under review only ever shrink, and keep their order.\<close>

definition reviewed :: "sync_suggestion list \<Rightarrow> matcher \<Rightarrow> bool" where
  "reviewed suggestions st \<longleftrightarrow> subseq (map mr_suggestion (im_rows st)) suggestions"

lemma map_update_row:
  "(\<And>r. mr_suggestion (f r) = mr_suggestion r) \<Longrightarrow> map mr_suggestion (update_row i f rows) = map mr_suggestion rows"
  by (auto simp: update_row_def map_update intro: list_update_same_conv [THEN iffD2])

lemma subseq_map_filter: "subseq (map f (filter P xs)) (map f xs)"
  by (induction xs) auto

lemma reviewed_init [inv_intros]: "reviewed suggestions (matcher_init suggestions)"
  by (simp add: reviewed_def matcher_init_def match_row_of_def comp_def)

lemma reviewed_edit: "reviewed suggestions st \<Longrightarrow> reviewed suggestions (matcher_edit lang ev st)"
  by (cases ev)
    (auto simp: reviewed_def setCategory_def toggleIncluded_def matcher_accounts_loaded_def handleDismiss_def
      dismiss_settled_def map_update_row split: sum.splits intro: subseq_order.trans [OF subseq_map_filter])

lemma reviewed_edits: "reviewed suggestions st \<Longrightarrow> reviewed suggestions (fold (matcher_edit lang) evs st)"
  by (induction evs arbitrary: st) (simp_all add: reviewed_edit)

lemma dismissed_stays:
  assumes "x \<notin> su_tx ` set (map mr_suggestion (im_rows st))"
  shows "x \<notin> su_tx ` set (map mr_suggestion (im_rows (fold (matcher_edit lang) evs st)))"
proof -
  have "set (map mr_suggestion (im_rows (matcher_edit lang ev st))) \<subseteq> set (map mr_suggestion (im_rows st))" for ev st
    using reviewed_edit [of "map mr_suggestion (im_rows st)" st lang ev]
    unfolding reviewed_def by (auto elim: list_emb_set simp del: set_map)
  then show ?thesis using assms by (induction evs arbitrary: st) (simp, fastforce)
qed

text \<open>
  C26. Whatever the user does while reviewing, an import sends only suggestions of this sync, each at
  most once and in their order, each with a category, and none that was dismissed.
\<close>

theorem import_sends:
  assumes "distinct (map su_tx suggestions)"
    and "st = fold (matcher_edit lang) evs (matcher_init suggestions)"
    and "handleConfirm (fold (matcher_edit lang) evs' (dismiss_settled lang x (Inr ()) st)) = (st', Some rows)"
  shows "subseq (map fst rows) (map su_tx suggestions) \<and> distinct (map fst rows)
    \<and> (\<forall>(g, c)\<in>set rows. c \<noteq> [] \<and> g \<noteq> x)"
proof -
  let ?s = "fold (matcher_edit lang) evs' (dismiss_settled lang x (Inr ()) st)"
  have rows: "rows = map (\<lambda>r. (su_tx (mr_suggestion r), mr_category r)) (includedRows ?s)" "allCategorized ?s"
    using assms(3) by (auto simp: handleConfirm_def split: if_splits)
  have "reviewed suggestions ?s"
    using reviewed_edits [OF reviewed_edit [OF reviewed_edits [OF reviewed_init], where ev = "DismissSettled x (Inr ())"]]
    by (simp add: assms(2))
  then have "subseq (map su_tx (map mr_suggestion (im_rows ?s))) (map su_tx suggestions)"
    unfolding reviewed_def by (rule subseq_map)
  moreover have "map fst rows = map (su_tx \<circ> mr_suggestion) (filter mr_included (im_rows ?s))"
    by (simp add: rows(1) includedRows_def)
  then have "subseq (map fst rows) (map su_tx (map mr_suggestion (im_rows ?s)))"
    using subseq_map_filter [of "su_tx \<circ> mr_suggestion"] by simp
  ultimately have sub: "subseq (map fst rows) (map su_tx suggestions)" by (rule subseq_order.trans [rotated])
  have "x \<notin> su_tx ` set (map mr_suggestion (im_rows (dismiss_settled lang x (Inr ()) st)))"
    by (auto simp: dismiss_settled_def)
  from dismissed_stays [OF this] have "\<forall>r\<in>set (im_rows ?s). su_tx (mr_suggestion r) \<noteq> x" by auto
  then have "\<forall>(g, c)\<in>set rows. c \<noteq> [] \<and> g \<noteq> x"
    using rows by (auto simp: includedRows_def allCategorized_def list_all_iff)
  then show ?thesis using sub subseq_distinct [OF sub assms(1)] by blast
qed

definition sample_suggestion :: "string \<Rightarrow> sync_suggestion" where
  "sample_suggestion i =
     \<lparr>su_tx = i, su_date = ''2024-03-05'', su_description = ''Shop'', su_amount_num = num_of_int 5499,
      su_amount_denom = num_of_int 100, su_bank_guid = ''b'', su_bank_name = ''Bank'',
      su_category_guid = Some ''food'', su_category_name = Some ''Food''\<rparr>"

theorem import_sends_witness:
  "\<exists>st' rows. handleConfirm (fold (matcher_edit ''en'') [] (dismiss_settled ''en'' ''1'' (Inr ())
      (fold (matcher_edit ''en'') [ToggleIncluded 0, ToggleIncluded 0]
        (matcher_init [sample_suggestion ''1'', sample_suggestion ''2''])))) = (st', Some rows) \<and> distinct (map fst rows)"
proof -
  have "allCategorized (fold (matcher_edit ''en'') [] (dismiss_settled ''en'' ''1'' (Inr ())
      (fold (matcher_edit ''en'') [ToggleIncluded 0, ToggleIncluded 0]
        (matcher_init [sample_suggestion ''1'', sample_suggestion ''2'']))))"
    by (simp add: matcher_init_def match_row_of_def toggleIncluded_def update_row_def dismiss_settled_def
        allCategorized_def includedRows_def sample_suggestion_def)
  then obtain st' rows where "handleConfirm (fold (matcher_edit ''en'') [] (dismiss_settled ''en'' ''1'' (Inr ())
      (fold (matcher_edit ''en'') [ToggleIncluded 0, ToggleIncluded 0]
        (matcher_init [sample_suggestion ''1'', sample_suggestion ''2''])))) = (st', Some rows)"
    by (simp add: handleConfirm_def)
  with import_sends [OF _ refl this] show ?thesis by (auto simp: sample_suggestion_def)
qed

text \<open>
  An import closes the review exactly when the server reports neither an error nor a failed
  transaction; in every other case the review stays open with a message, and the rows are
  untouched, so that the user can try again.
\<close>

theorem import_outcome:
  "(snd (confirm_settled lang res st) \<noteq> None \<longleftrightarrow>
      (\<exists>r. res = Inr r \<and> \<not> truthy (ir_error r) \<and> ir_failed r \<in> {None, Some []}))
   \<and> (snd (confirm_settled lang res st) = None \<longrightarrow> im_error (fst (confirm_settled lang res st)) \<noteq> None)
   \<and> im_rows (fst (confirm_settled lang res st)) = im_rows st"
  by (auto simp: confirm_settled_def split: sum.splits option.splits)

theorem import_outcome_witness:
  "im_error (fst (confirm_settled ''en'' (Inl Thrown) (matcher_init []))) \<noteq> None"
  using import_outcome [of "''en''" "Inl Thrown" "matcher_init []"] by blast

end
