(* ===== verification/DataManagement.thy ===== *)
theory DataManagement
  imports ApiClient ImportMatcher
begin

text \<open>
  The data page (\<^verbatim>\<open>pages/DataManagement.tsx\<close>): export, the three imports, the
  factory reset, and connecting a bank, which is a small state machine: asking for a link token,
  the bank's own dialog, mapping its accounts, done. Texts written as \<^verbatim>\<open>t(k) || d\<close>
  are \<open>t_or\<close>.
\<close>

section \<open>State\<close>

datatype plaid_state = Idle | Linking | Mapping | Done

datatype alert_tone = Success | Failure

datatype upload = JsonFile | CsvFile | GnucashFile

record data_page =
  dp_accounts :: "account list"
  dp_selected :: string
  dp_uploading :: "upload list"
  dp_exporting :: bool
  dp_resetting :: bool
  dp_message :: "(alert_tone \<times> string) option"
  dp_files :: "upload \<Rightarrow> string option"
  dp_link_token :: "string option"
  dp_connecting :: bool
  dp_step :: plaid_state
  dp_item :: "(string \<times> string) option"
  dp_bank_accounts :: "plaid_bank_account list"
  dp_mappings :: "(string \<times> string) list"
  dp_import_pending :: bool
  dp_plaid_message :: "(alert_tone \<times> string) option"
  dp_items :: "plaid_item list"
  dp_syncing :: "string option"
  dp_suggestions :: "sync_suggestion list option"
  dp_institution :: string

text \<open>
  \<open>dp_uploading\<close> holds the imports whose flag is set, \<open>dp_files\<close> the file each input holds,
  \<open>dp_item\<close> the identity and name of the institution.
\<close>

definition data_init :: data_page where
  "data_init =
     \<lparr>dp_accounts = [], dp_selected = [], dp_uploading = [], dp_exporting = False, dp_resetting = False,
      dp_message = None, dp_files = (\<lambda>_. None), dp_link_token = None, dp_connecting = False, dp_step = Idle,
      dp_item = None, dp_bank_accounts = [], dp_mappings = [], dp_import_pending = False,
      dp_plaid_message = None, dp_items = [], dp_syncing = None, dp_suggestions = None, dp_institution = []\<rparr>"

definition t_or :: "language \<Rightarrow> string \<Rightarrow> string \<Rightarrow> string" where
  "t_or lang k d = (if t lang k \<noteq> [] then t lang k else d)"

definition data_accounts_loaded :: "account_tree list \<Rightarrow> data_page \<Rightarrow> data_page" where
  "data_accounts_loaded data st =
     (let nonPlaceholder = filter (\<lambda>a. \<not> acc_placeholder a) (concat (map flatten_account data))
      in st\<lparr>dp_accounts := nonPlaceholder,
            dp_selected := (case nonPlaceholder of a # _ \<Rightarrow> acc_guid a | [] \<Rightarrow> dp_selected st)\<rparr>)"

definition select_target :: "string \<Rightarrow> data_page \<Rightarrow> data_page" where
  "select_target guid st = st\<lparr>dp_selected := guid\<rparr>"

section \<open>Export\<close>

definition handleExport :: "data_page \<Rightarrow> data_page" where
  "handleExport st = st\<lparr>dp_exporting := True, dp_message := None\<rparr>"

text \<open>The outcome of the fetch: on success the JSON value that is downloaded\<close>

definition export_settled :: "language \<Rightarrow> js_error + http_response \<Rightarrow> data_page \<Rightarrow> data_page \<times> json option" where
  "export_settled lang res st =
     (let out = (case res of
                   Inl e \<Rightarrow> Inl e
                 | Inr r \<Rightarrow> if \<not> hr_ok r then Inl (Error (''Export failed: '' @ hr_status_text r)) else hr_json r)
      in case out of
           Inr data \<Rightarrow> (st\<lparr>dp_message := Some (Success, t_or lang ''data.exportSuccess'' ''Export successful!''),
                          dp_exporting := False\<rparr>, Some data)
         | Inl e \<Rightarrow> (st\<lparr>dp_message := Some (Failure, error_message_or e (t_or lang ''data.exportError'' ''Export failed'')),
                       dp_exporting := False\<rparr>, None))"

section \<open>Imports\<close>

definition set_uploading :: "upload \<Rightarrow> bool \<Rightarrow> data_page \<Rightarrow> data_page" where
  "set_uploading k b st =
     st\<lparr>dp_uploading := (if b then k # removeAll k (dp_uploading st) else removeAll k (dp_uploading st))\<rparr>"

fun upload_path :: "upload \<Rightarrow> string" where
  "upload_path JsonFile = ''/api/data/import''"
| "upload_path CsvFile = ''/api/data/import/csv''"
| "upload_path GnucashFile = ''/api/data/import/gnucash''"

text \<open>
  The handler of an input's change: it reads the first file of its input, if there is one, and
  sends it to the path of the import, with the fields that go with it.
\<close>

definition upload_start ::
  "upload \<Rightarrow> data_page \<Rightarrow> data_page \<times> (string \<times> string \<times> (string \<times> string) list) option" where
  "upload_start k st =
     (case dp_files st k of
        None \<Rightarrow> (st, None)
      | Some f \<Rightarrow> ((set_uploading k True st)\<lparr>dp_message := None\<rparr>,
                  Some (upload_path k, f, if k = CsvFile then [(''account_guid'', dp_selected st)] else [])))"

text \<open>
  Choosing a file in the dialog of an input is the browser's part: it calls the handler only when
  the choice differs from the file the input holds already, and a cleared choice is no file.
\<close>

definition choose_file ::
  "upload \<Rightarrow> string option \<Rightarrow> data_page \<Rightarrow> data_page \<times> (string \<times> string \<times> (string \<times> string) list) option" where
  "choose_file k file st =
     (if file = dp_files st k then (st, None) else upload_start k (st\<lparr>dp_files := (dp_files st)(k := file)\<rparr>))"

text \<open>\<^verbatim>\<open>toString()\<close> of a value read from an answer\<close>

fun json_to_string :: "json \<Rightarrow> string" where
  "json_to_string JNull = ''null''"
| "json_to_string (JBool b) = (if b then ''true'' else ''false'')"
| "json_to_string (JNumber n) = num_to_string n"
| "json_to_string (JString s) = s"
| "json_to_string (JArray js) = js_join '','' (map (\<lambda>j. if j = JNull then [] else json_to_string j) js)"
| "json_to_string (JObject kvs) = ''[object Object]''"

definition count_text :: "json \<Rightarrow> js_error + string" where
  "count_text j =
     (if j = JNull then Inl (Error ''Cannot read properties of null (reading 'count')'')
      else case json_field j ''count'' of
             Some JNull \<Rightarrow> Inl (Error ''Cannot read properties of null (reading 'toString')'')
           | None \<Rightarrow> Inl (Error ''Cannot read properties of undefined (reading 'toString')'')
           | Some v \<Rightarrow> Inr (json_to_string v))"

fun upload_success :: "language \<Rightarrow> upload \<Rightarrow> http_response \<Rightarrow> js_error + string" where
  "upload_success lang JsonFile r = Inr (t_or lang ''data.importSuccess'' ''Import successful!'')"
| "upload_success lang GnucashFile r = Inr (t_or lang ''data.importGnucashSuccess'' ''GnuCash import successful!'')"
| "upload_success lang CsvFile r =
     (case hr_json r of
        Inl e \<Rightarrow> Inl e
      | Inr j \<Rightarrow> (case count_text j of
                    Inl e \<Rightarrow> Inl e
                  | Inr c \<Rightarrow> Inr (js_replace ''{{count}}'' c (t lang ''data.importCsvSuccess''))))"

fun upload_failure :: "language \<Rightarrow> upload \<Rightarrow> string" where
  "upload_failure lang JsonFile = t_or lang ''data.importError'' ''Import failed''"
| "upload_failure lang CsvFile = ''CSV Import failed''"
| "upload_failure lang GnucashFile = ''GnuCash import failed''"

definition upload_outcome :: "language \<Rightarrow> upload \<Rightarrow> js_error + http_response \<Rightarrow> js_error + string" where
  "upload_outcome lang k res =
     (case res of
        Inl e \<Rightarrow> Inl e
      | Inr r \<Rightarrow>
          if \<not> hr_ok r then
            Inl (body_error (case hr_json r of Inr j \<Rightarrow> j | Inl e \<Rightarrow> JObject [])
                   (''Import failed: '' @ hr_status_text r))
          else upload_success lang k r)"

definition upload_settled :: "language \<Rightarrow> upload \<Rightarrow> js_error + http_response \<Rightarrow> data_page \<Rightarrow> data_page" where
  "upload_settled lang k res st =
     set_uploading k False
           (case upload_outcome lang k res of
              Inr text_shown \<Rightarrow> st\<lparr>dp_message := Some (Success, text_shown), dp_files := (dp_files st)(k := None)\<rparr>
            | Inl e \<Rightarrow> st\<lparr>dp_message := Some (Failure, error_message_or e (upload_failure lang k))\<rparr>)"

text \<open>Whether the CSV button opens the file dialog, or alerts first\<close>

definition handleCSVImportClick :: "data_page \<Rightarrow> string + unit" where
  "handleCSVImportClick st =
     (if dp_selected st = [] then Inl ''Please select an account first'' else Inr ())"

definition upload_enabled :: "data_page \<Rightarrow> upload \<Rightarrow> bool" where
  "upload_enabled st k \<longleftrightarrow>
     (if k = CsvFile then \<not> (CsvFile \<in> set (dp_uploading st) \<or> dp_selected st = [])
      else \<not> (k \<in> set (dp_uploading st) \<or> dp_resetting st))"

section \<open>Factory reset\<close>

definition handleFactoryReset :: "bool \<Rightarrow> data_page \<Rightarrow> data_page \<times> bool" where
  "handleFactoryReset confirmed st =
     (if \<not> confirmed then (st, False) else (st\<lparr>dp_resetting := True, dp_message := None\<rparr>, True))"

text \<open>Also whether the page will be reloaded\<close>

definition reset_settled :: "js_error + http_response \<Rightarrow> data_page \<Rightarrow> data_page \<times> bool" where
  "reset_settled res st =
     (let out = (case res of
                   Inl e \<Rightarrow> Inl e
                 | Inr r \<Rightarrow>
                     if \<not> hr_ok r then
                       Inl (body_error (case hr_json r of Inr j \<Rightarrow> j | Inl e \<Rightarrow> JObject [])
                              (''Reset failed: '' @ hr_status_text r))
                     else Inr ())
      in case out of
           Inr _ \<Rightarrow> (st\<lparr>dp_message := Some (Success, ''Account factory reset successful! Reloading...''),
                       dp_resetting := False\<rparr>, True)
         | Inl e \<Rightarrow> (st\<lparr>dp_message := Some (Failure, error_message_or e ''Reset failed''), dp_resetting := False\<rparr>, False))"

definition reset_enabled :: "data_page \<Rightarrow> bool" where
  "reset_enabled st \<longleftrightarrow> \<not> (dp_resetting st \<or> JsonFile \<in> set (dp_uploading st))"

section \<open>Connecting a bank\<close>

definition handleConnectBank :: "language \<Rightarrow> data_page \<Rightarrow> data_page \<times> string" where
  "handleConnectBank lang st = (st\<lparr>dp_connecting := True, dp_plaid_message := None\<rparr>, lang)"

definition plaid_failed :: "language \<Rightarrow> data_page \<Rightarrow> data_page" where
  "plaid_failed lang st = st\<lparr>dp_plaid_message := Some (Failure, t lang ''plaid.genericError''), dp_connecting := False\<rparr>"

definition connect_settled :: "language \<Rightarrow> js_error + string \<Rightarrow> data_page \<Rightarrow> data_page" where
  "connect_settled lang res st =
     (case res of
        Inr token \<Rightarrow> st\<lparr>dp_link_token := Some token, dp_step := Linking, dp_connecting := False\<rparr>
      | Inl e \<Rightarrow> plaid_failed lang st)"

text \<open>The effect that opens the bank's dialog; \<open>ready\<close> comes from the library.\<close>

definition opens_link :: "bool \<Rightarrow> data_page \<Rightarrow> bool" where
  "opens_link ready st \<longleftrightarrow> dp_step st = Linking \<and> ready \<and> truthy (dp_link_token st)"

definition link_success :: "string \<Rightarrow> data_page \<Rightarrow> data_page \<times> string" where
  "link_success publicToken st = (st\<lparr>dp_connecting := True, dp_plaid_message := None\<rparr>, publicToken)"

definition exchange_settled ::
  "language \<Rightarrow> js_error + string \<times> string \<times> plaid_bank_account list \<Rightarrow> data_page \<Rightarrow> data_page" where
  "exchange_settled lang res st =
     (case res of
        Inr (guid, institution, accts) \<Rightarrow>
          st\<lparr>dp_item := Some (guid, institution), dp_bank_accounts := accts, dp_mappings := [],
             dp_step := Mapping, dp_connecting := False\<rparr>
      | Inl e \<Rightarrow> (plaid_failed lang st)\<lparr>dp_step := Idle\<rparr>)"

definition link_exit :: "data_page \<Rightarrow> data_page" where
  "link_exit st = (if dp_step st = Linking then st\<lparr>dp_step := Idle\<rparr> else st)"

fun put_mapping :: "string \<Rightarrow> string \<Rightarrow> (string \<times> string) list \<Rightarrow> (string \<times> string) list" where
  "put_mapping k v [] = [(k, v)]"
| "put_mapping k v ((k', v') # ms) = (if k = k' then (k, v) # ms else (k', v') # put_mapping k v ms)"

definition setMapping :: "string \<Rightarrow> string \<Rightarrow> data_page \<Rightarrow> data_page" where
  "setMapping account_id guid st = st\<lparr>dp_mappings := put_mapping account_id guid (dp_mappings st)\<rparr>"

definition set_import_pending :: "bool \<Rightarrow> data_page \<Rightarrow> data_page" where
  "set_import_pending b st = st\<lparr>dp_import_pending := b\<rparr>"

text \<open>
  \<^verbatim>\<open>Object.entries\<close>: keys that are array indices first, in ascending order, then the
  others in the order in which they were added
\<close>

definition is_index :: "string \<Rightarrow> bool" where
  "is_index k \<longleftrightarrow> list_all is_digit k \<and> k = dec_digits (digits_val k) \<and> digits_val k < 4294967295"

definition object_entries :: "(string \<times> 'a) list \<Rightarrow> (string \<times> 'a) list" where
  "object_entries kvs =
     sort_by (\<lambda>x y. digits_val (fst y) < digits_val (fst x)) (filter (\<lambda>kv. is_index (fst kv)) kvs)
     @ filter (\<lambda>kv. \<not> is_index (fst kv)) kvs"

definition handleSubmitMappings ::
  "data_page \<Rightarrow> data_page \<times> (string \<times> (string \<times> string) list \<times> bool) option" where
  "handleSubmitMappings st =
     (case dp_item st of
        None \<Rightarrow> (st, None)
      | Some (guid, institution) \<Rightarrow>
          (st\<lparr>dp_connecting := True, dp_plaid_message := None\<rparr>,
           Some (guid, filter (\<lambda>(a, g). g \<noteq> []) (object_entries (dp_mappings st)), dp_import_pending st)))"

text \<open>\<open>institution\<close> is the name when the handler ran; on success the items are fetched again.\<close>

definition link_settled :: "language \<Rightarrow> string \<Rightarrow> js_error + unit \<Rightarrow> data_page \<Rightarrow> data_page \<times> bool" where
  "link_settled lang institution res st =
     (case res of
        Inr _ \<Rightarrow> (st\<lparr>dp_step := Done, dp_plaid_message := Some (Success, t lang ''plaid.connected'' @ '': '' @ institution),
                    dp_connecting := False\<rparr>, True)
      | Inl e \<Rightarrow> (plaid_failed lang st, False))"

section \<open>Connected banks\<close>

definition items_loaded :: "js_error + plaid_item list \<Rightarrow> data_page \<Rightarrow> data_page" where
  "items_loaded res st = (case res of Inr items \<Rightarrow> st\<lparr>dp_items := items\<rparr> | Inl e \<Rightarrow> st)"

definition handlePlaidSyncNow :: "plaid_item \<Rightarrow> data_page \<Rightarrow> data_page \<times> string" where
  "handlePlaidSyncNow item st = (st\<lparr>dp_syncing := Some (pi_guid item), dp_plaid_message := None\<rparr>, pi_guid item)"

definition sync_now_settled ::
  "language \<Rightarrow> plaid_item \<Rightarrow> js_error + sync_result \<Rightarrow> data_page \<Rightarrow> data_page \<times> bool" where
  "sync_now_settled lang item res st =
     (case res of
        Inr r \<Rightarrow>
          (let moreSuffix = (if sr_has_more r then '' '' @ t lang ''plaid.syncMore'' else [])
                          @ (if sr_in_progress r then '' '' @ t lang ''plaid.syncInProgress'' else [])
           in (if num_less zero (sr_count r) then
                 st\<lparr>dp_plaid_message := Some (Success,
                      js_replace ''{{count}}'' (num_to_string (sr_count r)) (t lang ''plaid.syncSuccess'') @ moreSuffix),
                    dp_institution := pi_institution item, dp_suggestions := Some (sr_suggestions r), dp_syncing := None\<rparr>
               else st\<lparr>dp_plaid_message := Some (Success, t lang ''plaid.syncNone'' @ moreSuffix), dp_syncing := None\<rparr>,
               True))
      | Inl e \<Rightarrow>
          (st\<lparr>dp_plaid_message := Some (Failure,
                if e = Error ''reconnect_required'' then t lang ''plaid.reconnectNeeded''
                else js_replace ''{{institution}}'' (pi_institution item) (t lang ''plaid.syncError'')),
              dp_syncing := None\<rparr>, False))"

text \<open>The item to disconnect, if confirmed; on success the items are fetched again.\<close>

definition handlePlaidDisconnect :: "bool \<Rightarrow> plaid_item \<Rightarrow> string option" where
  "handlePlaidDisconnect confirmed item = (if confirmed then Some (pi_guid item) else None)"

definition disconnect_settled :: "language \<Rightarrow> js_error + unit \<Rightarrow> data_page \<Rightarrow> data_page \<times> bool" where
  "disconnect_settled lang res st =
     (case res of
        Inr _ \<Rightarrow> (st\<lparr>dp_plaid_message := Some (Success, t lang ''plaid.disconnected'')\<rparr>, True)
      | Inl e \<Rightarrow> (st\<lparr>dp_plaid_message := Some (Failure, t lang ''plaid.genericError'')\<rparr>, False))"

definition data_imported :: "language \<Rightarrow> number \<Rightarrow> data_page \<Rightarrow> data_page" where
  "data_imported lang n st =
     st\<lparr>dp_suggestions := None,
        dp_plaid_message := Some (Success, js_replace ''{{count}}'' (num_to_string n) (t lang ''plaid.importSuccess''))\<rparr>"

definition close_matcher :: "data_page \<Rightarrow> data_page" where
  "close_matcher st = st\<lparr>dp_suggestions := None\<rparr>"

section \<open>What is shown\<close>

text \<open>Accounts offered as the target of a CSV import, and for mapping a bank account\<close>

definition target_options :: "language \<Rightarrow> data_page \<Rightarrow> (string \<times> string) list" where
  "target_options lang st =
     ([], t lang ''data.selectTargetAccount'')
     # map (\<lambda>acc. (acc_guid acc, acc_name acc @ '' ('' @ t lang (''type.'' @ account_type_name (acc_type acc)) @ '')''))
         (dp_accounts st)"

definition mapping_options :: "language \<Rightarrow> data_page \<Rightarrow> (string \<times> string) list" where
  "mapping_options lang st =
     ([], t lang ''plaid.noMapping'') # map (\<lambda>a. (acc_guid a, acc_name a)) (dp_accounts st)"

text \<open>The label and whether the button is enabled\<close>

definition export_button :: "language \<Rightarrow> data_page \<Rightarrow> string \<times> bool" where
  "export_button lang st =
     (if dp_exporting st then t_or lang ''common.loading'' ''Loading...'' else t_or lang ''data.exportBtn'' ''Export to JSON'',
      \<not> dp_exporting st)"

fun upload_button :: "language \<Rightarrow> upload \<Rightarrow> data_page \<Rightarrow> string \<times> bool" where
  "upload_button lang JsonFile st =
     (if JsonFile \<in> set (dp_uploading st) then t_or lang ''common.loading'' ''Loading...''
      else t_or lang ''data.importBtn'' ''Import from JSON'', upload_enabled st JsonFile)"
| "upload_button lang GnucashFile st =
     (if GnucashFile \<in> set (dp_uploading st) then t_or lang ''common.loading'' ''Loading...''
      else t_or lang ''data.importGnucashBtn'' ''Import from GnuCash'', upload_enabled st GnucashFile)"
| "upload_button lang CsvFile st =
     (if CsvFile \<in> set (dp_uploading st) then t lang ''common.loading'' else t lang ''data.importCsvBtn'',
      upload_enabled st CsvFile)"

definition reset_button :: "language \<Rightarrow> data_page \<Rightarrow> string \<times> bool" where
  "reset_button lang st =
     (if dp_resetting st then t_or lang ''common.loading'' ''Loading...'' else ''Factory Reset Account'', reset_enabled st)"

datatype bank_panel =
    ConnectButton bool string
  | MappingTable string "(string \<times> string \<times> string) list" bool
  | ConnectedNote string
  | NoPanel

definition bank_panel_of :: "language \<Rightarrow> data_page \<Rightarrow> bank_panel" where
  "bank_panel_of lang st =
     (case dp_step st of
        Idle \<Rightarrow> ConnectButton (\<not> dp_connecting st)
                  (if dp_connecting st then t lang ''plaid.connecting'' else t lang ''plaid.connectBank'')
      | Linking \<Rightarrow> NoPanel
      | Mapping \<Rightarrow>
          (case dp_item st of
             None \<Rightarrow> NoPanel
           | Some (guid, institution) \<Rightarrow>
               MappingTable institution
                 (map (\<lambda>ba. (ba_name ba, ba_mask ba, case map_of (dp_mappings st) (ba_id ba) of Some g \<Rightarrow> g | None \<Rightarrow> []))
                   (dp_bank_accounts st))
                 (\<not> dp_connecting st))
      | Done \<Rightarrow> ConnectedNote (t lang ''plaid.connected''))"

text \<open>
  Institution, when it was last synchronised (\<open>local_text\<close> is the host's rendering of a date), whether
  the button to synchronise is enabled, and its label
\<close>

definition item_rows :: "(string \<Rightarrow> string) \<Rightarrow> language \<Rightarrow> data_page \<Rightarrow> (string \<times> string \<times> bool \<times> string) list" where
  "item_rows local_text lang st =
     map (\<lambda>item.
       (pi_institution item,
        if truthy (pi_last_synced item)
        then js_replace ''{{date}}'' (local_text (the (pi_last_synced item))) (t lang ''plaid.lastSynced'')
        else t lang ''plaid.neverSynced'',
        dp_syncing st = None,
        if dp_syncing st = Some (pi_guid item)
        then js_replace ''{{institution}}'' (pi_institution item) (t lang ''plaid.syncing'')
        else t lang ''plaid.syncNow'')) (dp_items st)"

end
