(* ===== verification/DataLaws.thy ===== *)
theory DataLaws
  imports DataManagement
begin

text \<open>
  The data page: its events as one step function, connecting a bank as a step relation over the
  page, the bank's dialog and the requests on their way, and what the imports do with a file that
  failed.
\<close>

section \<open>Events of the page\<close>

text \<open>Everything that happens on the page apart from the steps of connecting a bank\<close>

datatype page_event =
    AccountsLoaded "account_tree list"
  | SelectTarget string
  | ExportClick
  | ExportSettled "js_error + http_response"
  | ChooseFile upload "string option"
  | UploadSettled upload "js_error + http_response"
  | ResetClick bool
  | ResetSettled "js_error + http_response"
  | ItemsLoaded "js_error + plaid_item list"
  | SyncNow plaid_item
  | SyncNowSettled plaid_item "js_error + sync_result"
  | DisconnectSettled "js_error + unit"
  | Imported number
  | MatcherClosed
  | ChooseMapping string string
  | ImportPending bool

fun on_page :: "language \<Rightarrow> page_event \<Rightarrow> data_page \<Rightarrow> data_page" where
  "on_page lang (AccountsLoaded ts) st = data_accounts_loaded ts st"
| "on_page lang (SelectTarget g) st = select_target g st"
| "on_page lang ExportClick st = handleExport st"
| "on_page lang (ExportSettled res) st = fst (export_settled lang res st)"
| "on_page lang (ChooseFile k f) st = fst (choose_file k f st)"
| "on_page lang (UploadSettled k res) st = upload_settled lang k res st"
| "on_page lang (ResetClick b) st = fst (handleFactoryReset b st)"
| "on_page lang (ResetSettled res) st = fst (reset_settled res st)"
| "on_page lang (ItemsLoaded res) st = items_loaded res st"
| "on_page lang (SyncNow i) st = fst (handlePlaidSyncNow i st)"
| "on_page lang (SyncNowSettled i res) st = fst (sync_now_settled lang i res st)"
| "on_page lang (DisconnectSettled res) st = fst (disconnect_settled lang res st)"
| "on_page lang (Imported n) st = data_imported lang n st"
| "on_page lang MatcherClosed st = close_matcher st"
| "on_page lang (ChooseMapping a g) st = setMapping a g st"
| "on_page lang (ImportPending b) st = set_import_pending b st"

lemmas page_defs [handler_defs] =
  data_accounts_loaded_def select_target_def handleExport_def export_settled_def upload_start_def choose_file_def upload_settled_def
  handleFactoryReset_def reset_settled_def items_loaded_def handlePlaidSyncNow_def sync_now_settled_def
  disconnect_settled_def data_imported_def close_matcher_def setMapping_def set_import_pending_def set_uploading_def Let_def

text \<open>None of them touches the state of the connection.\<close>

lemma on_page_bank [simp]:
  "dp_step (on_page lang ev st) = dp_step st"
  "dp_item (on_page lang ev st) = dp_item st"
  "dp_connecting (on_page lang ev st) = dp_connecting st"
  "dp_link_token (on_page lang ev st) = dp_link_token st"
  by (cases ev; auto simp: page_defs split: list.splits sum.splits option.splits)+

section \<open>Importing files\<close>

fun about_upload :: "upload \<Rightarrow> page_event \<Rightarrow> bool" where
  "about_upload k (ChooseFile k' f) = (k' = k)"
| "about_upload k (UploadSettled k' res) = (k' = k)"
| "about_upload k _ = False"

definition on_page_beside :: "language \<Rightarrow> upload \<Rightarrow> page_event \<Rightarrow> data_page \<Rightarrow> data_page" where
  "on_page_beside lang k ev st = (if about_upload k ev then st else on_page lang ev st)"

lemma beside_upload [simp]:
  "k \<in> set (dp_uploading (on_page_beside lang k ev st)) \<longleftrightarrow> k \<in> set (dp_uploading st)"
  "dp_files (on_page_beside lang k ev st) k = dp_files st k"
  by (cases ev; auto simp: on_page_beside_def page_defs split: list.splits sum.splits option.splits)+

lemma beside_uploads: "dp_files (fold (on_page_beside lang k) evs st) k = dp_files st k"
  by (induction evs arbitrary: st) simp_all

interpretation uploading: async_handler "upload_start k" "upload_settled lang k" "on_page_beside lang k"
  "\<lambda>st. k \<in> set (dp_uploading st)"
  by unfold_locales (auto simp: page_defs split: if_splits option.splits sum.splits)

lemma upload_settled_file:
  obtains (imported) msg where "dp_message (upload_settled lang k res st) = Some (Success, msg)"
      and "dp_files (upload_settled lang k res st) k = None"
    | (failed) msg where "dp_message (upload_settled lang k res st) = Some (Failure, msg)"
      and "dp_files (upload_settled lang k res st) k = dp_files st k"
  by (cases "upload_outcome lang k res") (auto simp: upload_settled_def set_uploading_def)

lemma upload_start_request:
  assumes "upload_start k st = (st', Some req)"
  obtains f where "dp_files st k = Some f" "dp_files st' k = Some f"
    "req = (upload_path k, f, if k = CsvFile then [(''account_guid'', dp_selected st)] else [])"
  using assms by (auto simp: upload_start_def set_uploading_def split: option.splits)

text \<open>
  C28. An import sends the file its input holds, the CSV import with the account selected then.
  While it is out the button stays disabled, whatever else happens on the page. However it ends,
  the button is afterwards enabled exactly when a reset is not running (for CSV: when an
  account is selected), also after anything else happened. And the input is emptied exactly by a
  success: after a failure, announced by a message, it goes on holding the file.
\<close>

theorem upload_lifecycle:
  assumes "upload_start k st = (st', Some req)"
    and "during = fold (on_page_beside lang k) evs st'"
    and "settled = upload_settled lang k res during"
    and "final = fold (on_page_beside lang k) evs' settled"
  shows "\<exists>f. dp_files st k = Some f
    \<and> req = (upload_path k, f, if k = CsvFile then [(''account_guid'', dp_selected st)] else [])
    \<and> \<not> upload_enabled during k
    \<and> (upload_enabled final k \<longleftrightarrow> (if k = CsvFile then dp_selected final \<noteq> [] else \<not> dp_resetting final))
    \<and> ((\<exists>msg. dp_message settled = Some (Success, msg)) \<and> dp_files final k = None
      \<or> (\<exists>msg. dp_message settled = Some (Failure, msg)) \<and> dp_files final k = Some f)"
proof -
  obtain f where f: "dp_files st k = Some f" "dp_files st' k = Some f"
    "req = (upload_path k, f, if k = CsvFile then [(''account_guid'', dp_selected st)] else [])"
    using upload_start_request [OF assms(1)] .
  have busy: "\<not> upload_enabled during k"
    using uploading.busy_while_pending [OF assms(1), of lang evs] by (auto simp: assms(2) upload_enabled_def)
  have idle: "k \<notin> set (dp_uploading final)"
    unfolding assms(2-4) by (rule uploading.idle_when_settled)
  have files: "dp_files final k = dp_files settled k" "dp_files during k = Some f"
    by (simp_all add: assms(2,4) beside_uploads f)
  show ?thesis
    by (cases rule: upload_settled_file [of lang k res during])
      (use f busy idle files in \<open>auto simp: upload_enabled_def assms(3)\<close>)
qed

text \<open>A failed import of a JSON file\<close>

definition json_chosen :: data_page where
  "json_chosen = data_init\<lparr>dp_files := (\<lambda>_. None)(JsonFile := Some ''book.json'')\<rparr>"

theorem upload_lifecycle_witness:
  "let st = upload_settled ''en'' JsonFile (Inl Thrown) (fst (upload_start JsonFile json_chosen))
   in upload_enabled st JsonFile \<and> dp_files st JsonFile = Some ''book.json''"
proof -
  have start: "upload_start JsonFile json_chosen
      = (fst (upload_start JsonFile json_chosen), Some (''/api/data/import'', ''book.json'', []))"
    by (simp add: upload_start_def json_chosen_def set_uploading_def)
  have st: "dp_resetting (upload_settled ''en'' JsonFile (Inl Thrown) (fst (upload_start JsonFile json_chosen))) = False"
    "dp_message (upload_settled ''en'' JsonFile (Inl Thrown) (fst (upload_start JsonFile json_chosen)))
      \<noteq> Some (Success, msg)" for msg
    by (simp_all add: upload_settled_def set_uploading_def upload_outcome_def upload_start_def json_chosen_def data_init_def)
  from upload_lifecycle [OF start refl refl refl, where lang = "''en''" and evs = "[]" and evs' = "[]" and res = "Inl Thrown"]
  show ?thesis using st by (auto simp: Let_def json_chosen_def)
qed

text \<open>
  What this means for a user, by the browser's rule: choosing the same file again, corrected
  meanwhile, reaches the handler exactly if the import had succeeded.
\<close>

lemma same_file_again:
  "snd (choose_file k (Some f) st) = None \<longleftrightarrow> dp_files st k = Some f"
  by (auto simp: choose_file_def upload_start_def)

section \<open>Connecting a bank\<close>

text \<open>
  The dialog belongs to the bank's library: the effect opens it once for a link token, and the
  library then reports either that the user finished (\<open>Success\<close>) or left it (\<open>Exit\<close>), once.
\<close>

datatype dialog = Unopened | Opened | Closed

datatype bank_request = AwaitToken | AwaitExchange | AwaitLink string

record bank_system =
  bs_page :: data_page
  bs_dialog :: dialog
  bs_pending :: "bank_request list"

definition bank_init :: bank_system where
  "bank_init = \<lparr>bs_page = data_init, bs_dialog = Closed, bs_pending = []\<rparr>"

inductive bank_step :: "language \<Rightarrow> bank_system \<Rightarrow> bank_system \<Rightarrow> bool" for lang where
  Page: "bank_step lang s (s\<lparr>bs_page := on_page lang ev (bs_page s)\<rparr>)"
| Connect: "bank_panel_of lang (bs_page s) = ConnectButton True label \<Longrightarrow>
    bank_step lang s (s\<lparr>bs_page := fst (handleConnectBank lang (bs_page s)), bs_pending := AwaitToken # bs_pending s\<rparr>)"
| Token: "AwaitToken \<in> set (bs_pending s) \<Longrightarrow>
    bank_step lang s (s\<lparr>bs_page := connect_settled lang (Inr token) (bs_page s), bs_dialog := Unopened,
                       bs_pending := remove1 AwaitToken (bs_pending s)\<rparr>)"
| NoToken: "AwaitToken \<in> set (bs_pending s) \<Longrightarrow>
    bank_step lang s (s\<lparr>bs_page := connect_settled lang (Inl e) (bs_page s),
                       bs_pending := remove1 AwaitToken (bs_pending s)\<rparr>)"
| Open: "bs_dialog s = Unopened \<Longrightarrow> opens_link ready (bs_page s) \<Longrightarrow> bank_step lang s (s\<lparr>bs_dialog := Opened\<rparr>)"
| Success: "bs_dialog s = Opened \<Longrightarrow>
    bank_step lang s (s\<lparr>bs_page := fst (link_success public (bs_page s)), bs_dialog := Closed,
                       bs_pending := AwaitExchange # bs_pending s\<rparr>)"
| Exit: "bs_dialog s = Opened \<Longrightarrow> bank_step lang s (s\<lparr>bs_page := link_exit (bs_page s), bs_dialog := Closed\<rparr>)"
| Exchanged: "AwaitExchange \<in> set (bs_pending s) \<Longrightarrow>
    bank_step lang s (s\<lparr>bs_page := exchange_settled lang res (bs_page s),
                       bs_pending := remove1 AwaitExchange (bs_pending s)\<rparr>)"
| Submit: "bank_panel_of lang (bs_page s) = MappingTable institution rows True \<Longrightarrow>
    handleSubmitMappings (bs_page s) = (page, Some req) \<Longrightarrow>
    bank_step lang s (s\<lparr>bs_page := page, bs_pending := AwaitLink institution # bs_pending s\<rparr>)"
| Linked: "AwaitLink institution \<in> set (bs_pending s) \<Longrightarrow>
    bank_step lang s (s\<lparr>bs_page := fst (link_settled lang institution res (bs_page s)),
                       bs_pending := remove1 (AwaitLink institution) (bs_pending s)\<rparr>)"

inductive_cases bank_stepE: "bank_step lang s s'"

text \<open>Which requests and which dialog go with which step of the page\<close>

definition bank_ok :: "bank_system \<Rightarrow> bool" where
  "bank_ok s \<longleftrightarrow>
     dp_connecting (bs_page s) = (bs_pending s \<noteq> [])
     \<and> (case dp_step (bs_page s) of
          Idle \<Rightarrow> bs_pending s \<in> {[], [AwaitToken]} \<and> bs_dialog s = Closed
        | Linking \<Rightarrow> bs_pending s = [] \<and> bs_dialog s \<noteq> Closed \<or> bs_pending s = [AwaitExchange] \<and> bs_dialog s = Closed
        | Mapping \<Rightarrow> dp_item (bs_page s) \<noteq> None \<and> bs_dialog s = Closed
            \<and> (bs_pending s = [] \<or> (\<exists>i. bs_pending s = [AwaitLink i]))
        | Done \<Rightarrow> bs_pending s = [] \<and> bs_dialog s = Closed)"

lemmas bank_defs [handler_defs] =
  handleConnectBank_def connect_settled_def plaid_failed_def link_success_def link_exit_def exchange_settled_def
  handleSubmitMappings_def link_settled_def opens_link_def bank_panel_of_def

lemma bank_ok_init: "bank_ok bank_init"
  by (simp add: bank_ok_def bank_init_def data_init_def)

lemma bank_ok_step:
  assumes "bank_step lang s s'" and "bank_ok s"
  shows "bank_ok s'"
  using assms
  by (cases rule: bank_step.cases)
    (auto simp: bank_ok_def bank_defs split: plaid_state.splits if_splits option.splits sum.splits)

lemma bank_ok_steps: "(bank_step lang)\<^sup>*\<^sup>* s s' \<Longrightarrow> bank_ok s \<Longrightarrow> bank_ok s'"
  by (induction rule: rtranclp_induct) (auto intro: bank_ok_step)

text \<open>
  C29. Connecting a bank, interleaved with everything else on the page: requests never overlap, and
  the buttons are disabled exactly while one is on its way; the mapping table is shown whenever
  accounts are to be mapped; and the panel is empty only while the bank's dialog is about to
  open or open, or its result is being exchanged.
\<close>

theorem bank_requests_exclusive:
  assumes "(bank_step lang)\<^sup>*\<^sup>* bank_init s"
  shows "length (bs_pending s) \<le> 1 \<and> dp_connecting (bs_page s) = (bs_pending s \<noteq> [])
    \<and> (dp_step (bs_page s) = Mapping \<longrightarrow> (\<exists>i rows. bank_panel_of lang (bs_page s) = MappingTable i rows (bs_pending s = [])))
    \<and> (bank_panel_of lang (bs_page s) = NoPanel \<longrightarrow> bs_dialog s \<noteq> Closed \<or> bs_pending s = [AwaitExchange])"
  using bank_ok_steps [OF assms bank_ok_init]
  by (auto simp: bank_ok_def bank_panel_of_def split: plaid_state.splits)

definition first_visit :: "bank_system" where
  "first_visit = \<lparr>bs_page = fst (handleConnectBank ''en'' data_init), bs_dialog = Closed, bs_pending = [AwaitToken]\<rparr>"

lemma first_visit: "(bank_step ''en'')\<^sup>*\<^sup>* bank_init first_visit"
proof (rule r_into_rtranclp)
  have "bank_panel_of ''en'' (bs_page bank_init) = ConnectButton True (t ''en'' ''plaid.connectBank'')"
    by (simp add: bank_panel_of_def bank_init_def data_init_def)
  from Connect [OF this] show "bank_step ''en'' bank_init first_visit" by (simp add: first_visit_def bank_init_def)
qed

theorem bank_requests_exclusive_witness:
  "length (bs_pending first_visit) \<le> 1 \<and> dp_connecting (bs_page first_visit)"
  using bank_requests_exclusive [OF first_visit] by (simp add: first_visit_def)

definition can_finish :: "language \<Rightarrow> bank_system \<Rightarrow> bool" where
  "can_finish lang s \<longleftrightarrow> (\<exists>s'. (bank_step lang)\<^sup>*\<^sup>* s s' \<and> dp_step (bs_page s') = Done)"

lemma can_finish_step: "bank_step lang s s' \<Longrightarrow> can_finish lang s' \<Longrightarrow> can_finish lang s"
  unfolding can_finish_def by (blast intro: converse_rtranclp_into_rtranclp)

lemma can_finish_link:
  assumes "AwaitLink i \<in> set (bs_pending s)"
  shows "can_finish lang s"
proof -
  have "bank_step lang s (s\<lparr>bs_page := fst (link_settled lang i (Inr ()) (bs_page s)),
      bs_pending := remove1 (AwaitLink i) (bs_pending s)\<rparr>)" using assms by (rule Linked)
  then show ?thesis by (rule can_finish_step) (auto simp: can_finish_def link_settled_def)
qed

lemma can_finish_mapping:
  assumes "dp_step (bs_page s) = Mapping" "dp_item (bs_page s) \<noteq> None" "\<not> dp_connecting (bs_page s)"
  shows "can_finish lang s"
proof -
  obtain guid i where item: "dp_item (bs_page s) = Some (guid, i)" using assms(2) by auto
  obtain page req where "handleSubmitMappings (bs_page s) = (page, Some req)"
    by (simp add: handleSubmitMappings_def item)
  moreover obtain rows where "bank_panel_of lang (bs_page s) = MappingTable i rows True"
    by (simp add: bank_panel_of_def assms item)
  ultimately have "bank_step lang s (s\<lparr>bs_page := page, bs_pending := AwaitLink i # bs_pending s\<rparr>)"
    by (intro Submit)
  then show ?thesis by (rule can_finish_step) (rule can_finish_link [where i = i], simp)
qed

lemma can_finish_exchange:
  assumes "AwaitExchange \<in> set (bs_pending s)"
  shows "can_finish lang s"
  by (rule can_finish_step [OF Exchanged [OF assms, where res = "Inr ([], [], [])"]])
    (rule can_finish_mapping, simp_all add: exchange_settled_def)

lemma can_finish_opened: "bs_dialog s = Opened \<Longrightarrow> can_finish lang s"
  by (erule can_finish_step [OF Success]) (rule can_finish_exchange, simp)

lemma can_finish_unopened:
  "bs_dialog s = Unopened \<Longrightarrow> dp_step (bs_page s) = Linking \<Longrightarrow> truthy (dp_link_token (bs_page s)) \<Longrightarrow> can_finish lang s"
  by (rule can_finish_step [OF Open [where ready = True]])
    (auto simp: opens_link_def intro: can_finish_opened)

lemma can_finish_token: "AwaitToken \<in> set (bs_pending s) \<Longrightarrow> can_finish lang s"
  by (erule can_finish_step [OF Token [where token = "''link''"]])
    (rule can_finish_unopened, simp_all add: connect_settled_def)

lemma can_finish_idle:
  assumes "dp_step (bs_page s) = Idle" "\<not> dp_connecting (bs_page s)"
  shows "can_finish lang s"
  by (rule can_finish_step [OF Connect [where label = "t lang ''plaid.connectBank''"]])
    (auto simp: bank_panel_of_def assms intro: can_finish_token)

text \<open>
  C30. Connecting never gets stuck: whatever failed or was left before, from every state the user
  can still finish, unless the server gave an empty token. Once a bank is connected the page
  offers no button to connect another one, whatever happens, until it is opened anew.
\<close>

theorem bank_can_finish:
  assumes "(bank_step lang)\<^sup>*\<^sup>* bank_init s"
    and "dp_step (bs_page s) = Linking \<Longrightarrow> truthy (dp_link_token (bs_page s))"
  shows "(\<exists>s'. (bank_step lang)\<^sup>*\<^sup>* s s' \<and> dp_step (bs_page s') = Done)
    \<and> (dp_step (bs_page s) = Done \<longrightarrow>
        (\<forall>s'. (bank_step lang)\<^sup>*\<^sup>* s s' \<longrightarrow> bank_panel_of lang (bs_page s') = ConnectedNote (t lang ''plaid.connected'')))"
proof -
  have ok: "bank_ok s" by (rule bank_ok_steps [OF assms(1) bank_ok_init])
  have "can_finish lang s"
  proof (cases "dp_step (bs_page s)")
    case Idle
    with ok show ?thesis
      by (cases "bs_pending s") (auto simp: bank_ok_def intro: can_finish_idle can_finish_token)
  next
    case Linking
    with ok assms(2) show ?thesis
      by (cases "bs_dialog s")
        (auto simp: bank_ok_def intro: can_finish_unopened can_finish_opened can_finish_exchange)
  next
    case Mapping
    with ok show ?thesis
      by (cases "bs_pending s") (auto simp: bank_ok_def intro: can_finish_mapping can_finish_link)
  next
    case Done
    then show ?thesis by (auto simp: can_finish_def)
  qed
  moreover have "dp_step (bs_page s') = Done" if "(bank_step lang)\<^sup>*\<^sup>* s s'" "dp_step (bs_page s) = Done" for s'
    using that
  proof (induction rule: rtranclp_induct)
    case (step y z)
    from bank_ok_steps [OF step(1) ok] have "bank_ok y" .
    with step show ?case by (auto elim!: bank_stepE simp: bank_ok_def bank_defs)
  qed
  ultimately show ?thesis by (auto simp: can_finish_def bank_panel_of_def)
qed

theorem bank_can_finish_witness:
  "\<exists>s'. (bank_step ''en'')\<^sup>*\<^sup>* first_visit s' \<and> dp_step (bs_page s') = Done"
proof -
  have "dp_step (bs_page first_visit) \<noteq> Linking" by (simp add: first_visit_def handleConnectBank_def data_init_def)
  then show ?thesis using bank_can_finish [OF first_visit] by blast
qed

section \<open>The mapping that is sent\<close>

lemma map_of_put_mapping [simp]: "map_of (put_mapping k v ms) = (map_of ms)(k \<mapsto> v)"
  by (induction k v ms rule: put_mapping.induct) auto

lemma keys_put_mapping: "set (map fst (put_mapping k v ms)) = insert k (set (map fst ms))"
  by (induction k v ms rule: put_mapping.induct) auto

lemma distinct_put_mapping: "distinct (map fst ms) \<Longrightarrow> distinct (map fst (put_mapping k v ms))"
  by (induction k v ms rule: put_mapping.induct) (auto simp: keys_put_mapping [simplified])

lemma mset_object_entries: "mset (object_entries kvs) = mset kvs"
  by (simp add: object_entries_def flip: multiset_partition)

lemma distinct_object_entries: "distinct (map fst kvs) \<Longrightarrow> distinct (map fst (object_entries kvs))"
  using mset_object_entries [of kvs] by (metis mset_map mset_eq_imp_distinct_iff)

lemma map_of_object_entries: "distinct (map fst kvs) \<Longrightarrow> map_of (object_entries kvs) = map_of kvs"
  using distinct_object_entries [of kvs] mset_object_entries [of kvs]
  by (intro map_of_inject_set [THEN iffD2]) (auto dest: mset_eq_setD)

lemma map_of_filter_value:
  "distinct (map fst kvs) \<Longrightarrow>
   map_of (filter (\<lambda>(a, g). P g) kvs) a = (case map_of kvs a of Some g \<Rightarrow> if P g then Some g else None | None \<Rightarrow> None)"
  by (induction kvs) (auto split: option.splits simp: map_of_eq_None_iff image_iff)

definition choose_all :: "(string \<times> string) list \<Rightarrow> data_page \<Rightarrow> data_page" where
  "choose_all choices = fold (\<lambda>(a, g). setMapping a g) choices"

lemma choose_all_mappings:
  "distinct (map fst (dp_mappings st)) \<Longrightarrow>
   distinct (map fst (dp_mappings (choose_all choices st)))
   \<and> map_of (dp_mappings (choose_all choices st)) = map_of (rev choices @ dp_mappings st)"
proof (induction choices arbitrary: st)
  case (Cons c choices)
  obtain a g where c: "c = (a, g)" by (cases c)
  have "distinct (map fst (dp_mappings (setMapping a g st)))"
    by (simp add: setMapping_def distinct_put_mapping Cons.prems)
  from Cons.IH [OF this] show ?case by (simp add: choose_all_def c setMapping_def map_of_append)
qed (simp add: choose_all_def)

lemma choose_all_keeps:
  "dp_item (choose_all choices st) = dp_item st"
  "dp_import_pending (choose_all choices st) = dp_import_pending st"
  unfolding choose_all_def
  by (induction choices arbitrary: st) (simp_all add: split_def setMapping_def)

text \<open>
  C31. After the bank's accounts arrived, saving sends for each of them the account chosen last, and
  nothing for those whose last choice was to leave them out: each bank account at most once.
\<close>

theorem mapping_sent:
  assumes "st = choose_all choices (exchange_settled lang (Inr (guid, institution, accts)) before)"
  shows "\<exists>st' rows. handleSubmitMappings st = (st', Some (guid, rows, dp_import_pending before))
    \<and> distinct (map fst rows)
    \<and> (\<forall>a. map_of rows a = (case map_of (rev choices) a of Some g \<Rightarrow> if g \<noteq> [] then Some g else None | None \<Rightarrow> None))"
proof -
  let ?s0 = "exchange_settled lang (Inr (guid, institution, accts)) before"
  have none: "dp_mappings ?s0 = []" by (simp add: exchange_settled_def)
  have m: "distinct (map fst (dp_mappings st))" "map_of (dp_mappings st) = map_of (rev choices)"
    using choose_all_mappings [of ?s0 choices] none unfolding assms by simp_all
  have "distinct (map fst (filter (\<lambda>(a, g). g \<noteq> []) (object_entries (dp_mappings st))))"
    using distinct_object_entries [OF m(1)] by (rule distinct_map_filter)
  moreover have "dp_item st = Some (guid, institution)" "dp_import_pending st = dp_import_pending before"
    unfolding assms choose_all_keeps by (simp_all add: exchange_settled_def)
  ultimately show ?thesis
    by (simp add: handleSubmitMappings_def map_of_filter_value distinct_object_entries m map_of_object_entries)
qed

theorem mapping_sent_witness:
  "\<exists>st' rows. handleSubmitMappings (choose_all [(''x'', ''g1''), (''y'', ''g2''), (''x'', [])]
      (exchange_settled ''en'' (Inr (''i'', ''Bank'', [])) data_init)) = (st', Some (''i'', rows, False))
    \<and> map_of rows ''x'' = None \<and> map_of rows ''y'' = Some ''g2''"
proof -
  have "dp_import_pending data_init = False" by (simp add: data_init_def)
  with mapping_sent [OF refl, of "[(''x'', ''g1''), (''y'', ''g2''), (''x'', [])]" "''en''" "''i''" "''Bank''" "[]" data_init]
  show ?thesis by fastforce
qed

end
