(* ===== verification/ConvertCsv.thy ===== *)
theory ConvertCsv
  imports JsDate Types
begin

text \<open>
  The converter of GnuCash exports (\<^verbatim>\<open>src/scripts/convert_csv.js\<close>): two CSV files,
  accounts and transactions, read line by line into the value that is written as JSON. The
  hexadecimal MD5 of a text is the parameter \<open>md5hex\<close>; \<open>clock i\<close> is the time when transaction \<open>i\<close> is written;
  reading and writing files is left to the host.
\<close>

section \<open>Identifiers\<close>

definition substr :: "nat \<Rightarrow> nat \<Rightarrow> string \<Rightarrow> string" where
  "substr i n s = take n (drop i s)"

definition uuid :: "(string \<Rightarrow> string) \<Rightarrow> string \<Rightarrow> string" where
  "uuid md5hex str =
     (let hash = md5hex str
      in js_join ''-'' [substr 0 8 hash, substr 8 4 hash, ''4'' @ substr 13 3 hash, ''8'' @ substr 17 3 hash,
                        substr 20 12 hash])"

section \<open>Lines of CSV\<close>

definition is_quote :: "char \<Rightarrow> bool" where
  "is_quote c \<longleftrightarrow> code c = 34"

definition is_backslash :: "char \<Rightarrow> bool" where
  "is_backslash c \<longleftrightarrow> code c = 92"

text \<open>\<open>before\<close> is the character before the present one, \<open>cur\<close> the column read so far.\<close>

fun csv_loop :: "char option \<Rightarrow> string list \<Rightarrow> string \<Rightarrow> bool \<Rightarrow> string \<Rightarrow> string list" where
  "csv_loop before cols cur inQuote [] = cols @ [cur]"
| "csv_loop before cols cur inQuote (c # line) =
     (if is_quote c \<and> (case before of None \<Rightarrow> True | Some b \<Rightarrow> \<not> is_backslash b)
      then csv_loop (Some c) cols cur (\<not> inQuote) line
      else if c = CHR '','' \<and> \<not> inQuote then csv_loop (Some c) (cols @ [cur]) [] inQuote line
      else csv_loop (Some c) cols (cur @ [c]) inQuote line)"

text \<open>\<^verbatim>\<open>c.replace(/^"|"$/g, '')\<close>\<close>

definition strip_quotes :: "string \<Rightarrow> string" where
  "strip_quotes s =
     (let u = (case s of c # r \<Rightarrow> if is_quote c then r else s | [] \<Rightarrow> [])
      in if u \<noteq> [] \<and> is_quote (List.last u) then butlast u else u)"

definition csv_columns :: "string \<Rightarrow> string list" where
  "csv_columns line = map strip_quotes (csv_loop None [] [] False line)"

text \<open>A destructured column; a missing one is \<^verbatim>\<open>undefined\<close>.\<close>

definition col :: "nat \<Rightarrow> string list \<Rightarrow> string option" where
  "col i cols = (if i < length cols then Some (cols ! i) else None)"

text \<open>\<^verbatim>\<open>a + b\<close> with a column, and \<^verbatim>\<open>c || ''\<close>\<close>

fun text_of :: "string option \<Rightarrow> string" where
  "text_of (Some s) = s"
| "text_of None = ''undefined''"

fun or_empty :: "string option \<Rightarrow> string" where
  "or_empty (Some s) = s"
| "or_empty None = []"

text \<open>The first line is the header; blank lines are skipped.\<close>

definition data_lines :: "string list \<Rightarrow> string list" where
  "data_lines lines = filter (\<lambda>line. js_trim line \<noteq> []) (drop 1 lines)"

section \<open>Accounts\<close>

record csv_account =
  ca_guid :: string
  ca_parent_guid :: "string option"
  ca_name :: "string option"
  ca_fullName :: string
  ca_type :: "string option"
  ca_placeholder :: bool
  ca_desc :: string

text \<open>\<^verbatim>\<open>s.split(c)\<close> for a one-character separator\<close>

fun split_on :: "char \<Rightarrow> string \<Rightarrow> string list" where
  "split_on d [] = [[]]"
| "split_on d (c # s) =
     (if c = d then [] # split_on d s
      else (case split_on d s of p # ps \<Rightarrow> (c # p) # ps | [] \<Rightarrow> [[c]]))"

definition parent_name :: "string \<Rightarrow> string option" where
  "parent_name fullName =
     (let pts = split_on (CHR '':'') fullName
      in if length pts > 1 then Some (js_join '':'' (butlast pts)) else None)"

definition account_row :: "(string \<Rightarrow> string) \<Rightarrow> string \<Rightarrow> js_error + csv_account" where
  "account_row md5hex line =
     (let cols = csv_columns line
      in case col 1 cols of
           None \<Rightarrow> Inl (Error ''Cannot read properties of undefined (reading 'split')'')
         | Some fullName \<Rightarrow>
             Inr \<lparr>ca_guid = uuid md5hex (''acc-'' @ fullName),
                  ca_parent_guid =
                    (if truthy (parent_name fullName)
                     then Some (uuid md5hex (''acc-'' @ the (parent_name fullName))) else None),
                  ca_name = col 2 cols, ca_fullName = fullName, ca_type = col 0 cols,
                  ca_placeholder = (col 11 cols = Some ''T''), ca_desc = or_empty (col 4 cols)\<rparr>)"

fun read_accounts :: "(string \<Rightarrow> string) \<Rightarrow> string list \<Rightarrow> js_error + csv_account list" where
  "read_accounts md5hex [] = Inr []"
| "read_accounts md5hex (line # lines) =
     (case account_row md5hex line of
        Inl e \<Rightarrow> Inl e
      | Inr a \<Rightarrow> (case read_accounts md5hex lines of Inl e \<Rightarrow> Inl e | Inr as \<Rightarrow> Inr (a # as)))"

definition depth :: "csv_account \<Rightarrow> nat" where
  "depth a = length (split_on (CHR '':'') (ca_fullName a))"

definition sort_accounts :: "csv_account list \<Rightarrow> csv_account list" where
  "sort_accounts = sort_by (\<lambda>a b. depth a > depth b)"

text \<open>Members that are \<^verbatim>\<open>undefined\<close> are not written.\<close>

definition member :: "string \<Rightarrow> string option \<Rightarrow> (string \<times> json) list" where
  "member k v = (case v of Some s \<Rightarrow> [(k, JString s)] | None \<Rightarrow> [])"

definition account_json :: "csv_account \<Rightarrow> json" where
  "account_json acc =
     JObject ([(''guid'', JString (ca_guid acc))] @ member ''name'' (ca_name acc) @ member ''account_type'' (ca_type acc)
       @ [(''parent_guid'', case ca_parent_guid acc of Some g \<Rightarrow> JString g | None \<Rightarrow> JNull),
          (''placeholder'', JBool (ca_placeholder acc)), (''description'', JString (ca_desc acc))])"

section \<open>Transactions\<close>

record csv_split =
  cs_guid :: string
  cs_accName :: "string option"
  cs_memo :: string
  cs_numAmt :: number
  cs_rec :: "string option"

record csv_tx =
  ct_id :: string
  ct_date :: "string option"
  ct_num :: "string option"
  ct_desc :: "string option"
  ct_splits :: "csv_split list"

text \<open>The variables of the loop; \<open>None\<close> as the transaction is \<^verbatim>\<open>null\<close>, \<open>Some None\<close> is \<^verbatim>\<open>undefined\<close>.\<close>

record tx_state =
  ts_current :: "string option option"
  ts_splits :: "csv_split list"
  ts_date :: "string option"
  ts_num :: "string option"
  ts_desc :: "string option"
  ts_txs :: "csv_tx list"

definition tx_init :: tx_state where
  "tx_init = \<lparr>ts_current = None, ts_splits = [], ts_date = Some [], ts_num = Some [], ts_desc = Some [], ts_txs = []\<rparr>"

definition flushTx :: "(string \<Rightarrow> string) \<Rightarrow> tx_state \<Rightarrow> tx_state" where
  "flushTx md5hex st =
     (case ts_current st of
        Some (Some i) \<Rightarrow>
          if i \<noteq> [] \<and> ts_splits st \<noteq> [] then
            st\<lparr>ts_txs := ts_txs st @ [\<lparr>ct_id = uuid md5hex (''tx-'' @ i), ct_date = ts_date st, ct_num = ts_num st,
                                      ct_desc = ts_desc st, ct_splits = ts_splits st\<rparr>],
               ts_splits := []\<rparr>
          else st
      | _ \<Rightarrow> st)"

definition open_tx :: "(string \<Rightarrow> string) \<Rightarrow> string list \<Rightarrow> tx_state \<Rightarrow> tx_state" where
  "open_tx md5hex cols st =
     (if Some (col 1 cols) \<noteq> ts_current st then
        (flushTx md5hex st)\<lparr>ts_current := Some (col 1 cols), ts_date := col 0 cols, ts_num := col 2 cols,
                           ts_desc := col 3 cols\<rparr>
      else st)"

definition row_amount :: "string list \<Rightarrow> number" where
  "row_amount cols = (case col 12 cols of Some s \<Rightarrow> parse_float s | None \<Rightarrow> NaN)"

definition row_split :: "(string \<Rightarrow> string) \<Rightarrow> string \<Rightarrow> nat \<Rightarrow> string list \<Rightarrow> csv_split" where
  "row_split md5hex txid n cols =
     \<lparr>cs_guid = uuid md5hex (''spt-'' @ txid @ ''-'' @ dec_int (int n)), cs_accName = col 9 cols,
      cs_memo = or_empty (col 8 cols), cs_numAmt = math_round (num_mul (row_amount cols) (num_of_int 100)),
      cs_rec = col 15 cols\<rparr>"

definition tx_row :: "(string \<Rightarrow> string) \<Rightarrow> string list \<Rightarrow> tx_state \<Rightarrow> tx_state" where
  "tx_row md5hex cols st =
     (let st' = open_tx md5hex cols st
      in if is_nan (row_amount cols) then st'
         else st'\<lparr>ts_splits := ts_splits st'
                    @ [row_split md5hex (text_of (col 1 cols)) (length (ts_splits st')) cols]\<rparr>)"

definition read_transactions :: "(string \<Rightarrow> string) \<Rightarrow> string list list \<Rightarrow> csv_tx list" where
  "read_transactions md5hex rows = ts_txs (flushTx md5hex (fold (tx_row md5hex) rows tx_init))"

definition split_json :: "(string \<Rightarrow> string) \<Rightarrow> csv_split \<Rightarrow> json" where
  "split_json md5hex s =
     JObject [(''guid'', JString (cs_guid s)),
       (''account_guid'', JString (uuid md5hex (''acc-'' @ text_of (cs_accName s)))), (''memo'', JString (cs_memo s)),
       (''value_num'', JNumber (cs_numAmt s)), (''value_denom'', JNumber (num_of_int 100)),
       (''quantity_num'', JNumber (cs_numAmt s)), (''quantity_denom'', JNumber (num_of_int 100)),
       (''reconcile_state'', JString (if cs_rec s = Some ''y'' then ''y'' else ''n''))]"

definition tx_json :: "(string \<Rightarrow> string) \<Rightarrow> int \<Rightarrow> csv_tx \<Rightarrow> json" where
  "tx_json md5hex now tx =
     JObject ([(''guid'', JString (ct_id tx)), (''custom_id'', JString (or_empty (ct_num tx))),
         (''post_date'', JString (text_of (ct_date tx) @ '' 12:00:00'')),
         (''enter_date'', JString (replace_char (CHR ''T'') (CHR '' '') (take 19 (toISOString now))))]
       @ member ''description'' (ct_desc tx)
       @ [(''splits'', JArray (map (split_json md5hex) (ct_splits tx)))])"

section \<open>The whole conversion\<close>

definition convert :: "(string \<Rightarrow> string) \<Rightarrow> (nat \<Rightarrow> int) \<Rightarrow> string list \<Rightarrow> string list \<Rightarrow> js_error + json" where
  "convert md5hex clock accountLines txLines =
     (case read_accounts md5hex (data_lines accountLines) of
        Inl e \<Rightarrow> Inl e
      | Inr accounts \<Rightarrow>
          Inr (JObject
            [(''accounts'', JArray (map account_json (sort_accounts accounts))),
             (''transactions'',
               JArray (map (\<lambda>(i, tx). tx_json md5hex (clock i) tx)
                 (enumerate 0 (read_transactions md5hex (map csv_columns (data_lines txLines))))))]))"

end
