(* ===== verification/ConvertCsvLaws.thy ===== *)
theory ConvertCsvLaws
  imports ConvertCsv AmountText
begin

text \<open>
  The converter: columns survive quoting, parents are written before their children, consecutive
  rows of a transaction become one transaction, and amounts with two decimals become exactly
  their cents.
\<close>

section \<open>Columns\<close>

text \<open>A column as a spreadsheet writes it, quoted or not\<close>

definition csv_field :: "bool \<times> string \<Rightarrow> string" where
  "csv_field f = (if fst f then CHR 0x22 # snd f @ [CHR 0x22] else snd f)"

definition plain_field :: "bool \<times> string \<Rightarrow> bool" where
  "plain_field f \<longleftrightarrow> (\<forall>c\<in>set (snd f). \<not> is_quote c \<and> \<not> is_backslash c \<and> (fst f \<or> c \<noteq> CHR '',''))"

lemma quote_char [simp]: "is_quote (CHR 0x22)" "\<not> is_quote (CHR '','')" "\<not> is_backslash (CHR '','')" "\<not> is_backslash (CHR 0x22)"
  by (simp_all add: is_quote_def is_backslash_def code_def)

lemma csv_loop_text:
  assumes "\<forall>c\<in>set s. \<not> is_quote c \<and> \<not> is_backslash c \<and> (q \<or> c \<noteq> CHR '','')" and "\<And>b. before = Some b \<Longrightarrow> \<not> is_backslash b"
  shows "\<exists>before'. (\<forall>b. before' = Some b \<longrightarrow> \<not> is_backslash b)
    \<and> csv_loop before cols cur q (s @ r) = csv_loop before' cols (cur @ s) q r"
  using assms
proof (induction s arbitrary: before cur)
  case (Cons c s)
  from Cons.IH [of "Some c" "cur @ [c]"] Cons.prems show ?case by auto
qed auto

lemma csv_loop_field:
  assumes "plain_field f" and "\<And>b. before = Some b \<Longrightarrow> \<not> is_backslash b"
  shows "\<exists>before'. (\<forall>b. before' = Some b \<longrightarrow> \<not> is_backslash b)
    \<and> csv_loop before cols [] False (csv_field f @ r) = csv_loop before' cols (snd f) False r"
proof (cases "fst f")
  case True
  from csv_loop_text [of "snd f" True "Some (CHR 0x22)" cols "[]" "CHR 0x22 # r"] assms(1)
  obtain b where "\<forall>c. b = Some c \<longrightarrow> \<not> is_backslash c"
    "csv_loop (Some (CHR 0x22)) cols [] True (snd f @ CHR 0x22 # r) = csv_loop b cols (snd f) True (CHR 0x22 # r)"
    by (auto simp: plain_field_def)
  then show ?thesis using True assms(2)
    by (intro exI [of _ "Some (CHR 0x22)"]) (auto simp: csv_field_def split: option.splits)
next
  case False
  with csv_loop_text [of "snd f" False before cols "[]" r] assms show ?thesis
    by (auto simp: csv_field_def plain_field_def)
qed

lemma csv_loop_fields:
  assumes "\<forall>f\<in>set fs. plain_field f" and "fs \<noteq> []" and "\<And>b. before = Some b \<Longrightarrow> \<not> is_backslash b"
  shows "csv_loop before cols [] False (js_join '','' (map csv_field fs)) = cols @ map snd fs"
  using assms
proof (induction fs arbitrary: before cols)
  case (Cons f fs)
  show ?case
  proof (cases fs)
    case Nil
    with csv_loop_field [of f before cols "[]"] Cons.prems show ?thesis by auto
  next
    case (Cons g gs)
    from csv_loop_field [of f before cols "CHR '','' # js_join '','' (map csv_field fs)"] Cons.prems
    obtain b where "csv_loop before cols [] False (csv_field f @ CHR '','' # js_join '','' (map csv_field fs))
        = csv_loop b cols (snd f) False (CHR '','' # js_join '','' (map csv_field fs))"
      by auto
    with Cons.IH [of "Some (CHR '','')" "cols @ [snd f]"] Cons.prems Cons show ?thesis by simp
  qed
qed simp

lemma strip_quotes_none: "\<forall>c\<in>set s. \<not> is_quote c \<Longrightarrow> strip_quotes s = s"
  by (cases s) (auto simp: strip_quotes_def Let_def)

text \<open>
  C32. Reading a line of columns, each with or without quotes, gives the columns back, empty ones
  included, as long as no column contains a quote or a backslash and those without quotes have
  no comma.
\<close>

theorem csv_round_trip:
  assumes "\<forall>f\<in>set fs. plain_field f" and "fs \<noteq> []"
  shows "csv_columns (js_join '','' (map csv_field fs)) = map snd fs"
proof -
  have "csv_loop None [] [] False (js_join '','' (map csv_field fs)) = map snd fs"
    using csv_loop_fields [OF assms, of None "[]"] by simp
  moreover have "map strip_quotes (map snd fs) = map snd fs"
    using assms(1) by (auto simp: plain_field_def intro: strip_quotes_none)
  ultimately show ?thesis by (simp add: csv_columns_def)
qed

theorem csv_round_trip_witness:
  "csv_columns (js_join '','' (map csv_field [(False, ''BANK''), (True, ''Assets, current''), (False, [])]))
    = [''BANK'', ''Assets, current'', []]"
proof -
  have "plain_field (False, ''BANK'')" "plain_field (True, ''Assets, current'')" "plain_field (False, [])"
    by (simp_all add: plain_field_def is_quote_def is_backslash_def code_def)
  then show ?thesis
    using csv_round_trip [of "[(False, ''BANK''), (True, ''Assets, current''), (False, [])]"] by simp
qed

section \<open>Parents before children\<close>

lemma split_on_pieces: "\<forall>p\<in>set (split_on d s). d \<notin> set p"
  by (induction s) (auto split: list.splits)

lemma split_on_nonempty [simp]: "split_on d s \<noteq> []"
  by (induction s) (auto split: list.splits)

lemma split_on_plain: "d \<notin> set s \<Longrightarrow> split_on d s = [s]"
  by (induction s) auto

lemma split_on_append: "d \<notin> set p \<Longrightarrow> split_on d (p @ d # s) = p # split_on d s"
  by (induction p) auto

lemma split_on_join: "ps \<noteq> [] \<Longrightarrow> \<forall>p\<in>set ps. d \<notin> set p \<Longrightarrow> split_on d (js_join [d] ps) = ps"
  by (induction "[d]" ps rule: js_join.induct) (auto simp: split_on_plain split_on_append)

lemma depth_parent:
  assumes "parent_name n = Some p"
  shows "length (split_on (CHR '':'') n) = Suc (length (split_on (CHR '':'') p))"
proof -
  let ?pts = "split_on (CHR '':'') n"
  from assms have p: "p = js_join '':'' (butlast ?pts)" "length ?pts > 1"
    by (auto simp: parent_name_def Let_def split: if_splits)
  then have "butlast ?pts \<noteq> []" by (metis One_nat_def butlast_conv_take length_butlast length_greater_0_conv zero_less_diff)
  moreover have "\<forall>x\<in>set (butlast ?pts). CHR '':'' \<notin> set x" using split_on_pieces in_set_butlastD by fastforce
  ultimately have "split_on (CHR '':'') p = butlast ?pts" unfolding p(1) by (rule split_on_join)
  then show ?thesis using p(2) by simp
qed

interpretation by_depth: comparator "\<lambda>a b. depth a > depth b" "\<lambda>_. True"
  by (rule key_comparator [where key = depth]) simp

lemma read_accounts_row:
  "read_accounts md5hex lines = Inr as \<Longrightarrow> a \<in> set as \<Longrightarrow> \<exists>line\<in>set lines. account_row md5hex line = Inr a"
  by (induction lines arbitrary: as) (auto split: sum.splits)

lemma account_row_fields:
  assumes "account_row md5hex line = Inr a"
  shows "ca_guid a = uuid md5hex (''acc-'' @ ca_fullName a)"
    and "ca_parent_guid a = (if truthy (parent_name (ca_fullName a))
           then Some (uuid md5hex (''acc-'' @ the (parent_name (ca_fullName a)))) else None)"
  using assms by (auto simp: account_row_def Let_def split: option.splits)

text \<open>
  C33. The converter writes every account that was read, once, and an account whose parent is in the
  file comes after an account with the identifier it names as its parent.
\<close>

theorem parents_first:
  assumes "read_accounts md5hex lines = Inr as" and "i < length as"
    and "ca_parent_guid (sort_accounts as ! i) = Some g"
    and "\<exists>a\<in>set as. parent_name (ca_fullName (sort_accounts as ! i)) = Some (ca_fullName a)"
  shows "mset (sort_accounts as) = mset as \<and> (\<exists>j<i. ca_guid (sort_accounts as ! j) = g)"
proof -
  let ?s = "sort_accounts as"
  have in_as: "?s ! k \<in> set as" if "k < length as" for k
    using that nth_mem [of k ?s] by (simp add: sort_accounts_def)
  from assms(4) obtain a where a: "a \<in> set as" "parent_name (ca_fullName (?s ! i)) = Some (ca_fullName a)" by blast
  then obtain j where j: "j < length as" "?s ! j = a"
    by (metis in_set_conv_nth length_sort_by set_sort_by sort_accounts_def)
  obtain li la where "account_row md5hex li = Inr (?s ! i)" "account_row md5hex la = Inr a"
    using read_accounts_row [OF assms(1)] in_as [OF assms(2)] a(1) by meson
  with assms(3) a(2) have "ca_guid a = g" by (auto simp: account_row_fields split: if_splits)
  moreover have "\<not> i \<le> j"
  proof
    assume "i \<le> j"
    moreover have "depth (?s ! i) = Suc (depth a)" using depth_parent [OF a(2)] by (simp add: depth_def)
    moreover have "\<not> depth (?s ! i) > depth (?s ! j)" if "i < j"
      using sorted_wrt_nth_less [OF by_depth.sorted_sort_by that] j(1) by (simp add: sort_accounts_def)
    ultimately show False using j(2) by (cases "i = j") auto
  qed
  ultimately show ?thesis using j by (auto simp: sort_accounts_def not_le)
qed

definition sample_md5 :: "string \<Rightarrow> string" where
  "sample_md5 s = take 32 (s @ replicate 32 (CHR ''0''))"

theorem parents_first_witness:
  "\<exists>as. read_accounts sample_md5 [''BANK,Assets:Bank,Bank'', ''ASSET,Assets,Assets''] = Inr as
    \<and> mset (sort_accounts as) = mset as \<and> (\<exists>j<1. ca_guid (sort_accounts as ! j) = uuid sample_md5 ''acc-Assets'')"
proof -
  have cols: "csv_columns ''BANK,Assets:Bank,Bank'' = [''BANK'', ''Assets:Bank'', ''Bank'']"
    "csv_columns ''ASSET,Assets,Assets'' = [''ASSET'', ''Assets'', ''Assets'']" by code_simp+
  have names: "parent_name ''Assets:Bank'' = Some ''Assets''" "parent_name ''Assets'' = None"
    "length (split_on (CHR '':'') ''Assets:Bank'') = 2" "length (split_on (CHR '':'') ''Assets'') = 1"
    by (simp_all add: parent_name_def)
  obtain a b where ab: "read_accounts sample_md5 [''BANK,Assets:Bank,Bank'', ''ASSET,Assets,Assets''] = Inr [a, b]"
    "ca_fullName a = ''Assets:Bank''" "ca_fullName b = ''Assets''"
    "ca_parent_guid a = Some (uuid sample_md5 ''acc-Assets'')"
    by (simp add: account_row_def cols col_def names)
  have s: "sort_accounts [a, b] = [b, a]" by (simp add: sort_accounts_def depth_def ab names)
  from parents_first [OF ab(1), of 1 "uuid sample_md5 ''acc-Assets''"] ab s names show ?thesis by simp
qed

section \<open>Transactions\<close>

definition numeric :: "string list \<Rightarrow> bool" where
  "numeric cols \<longleftrightarrow> \<not> is_nan (row_amount cols)"

text \<open>The reference: runs of rows with the same identifier\<close>

function runs :: "string list list \<Rightarrow> string list list list" where
  "runs [] = []"
| "runs (r # rs) = (r # takeWhile (\<lambda>s. col 1 s = col 1 r) rs) # runs (dropWhile (\<lambda>s. col 1 s = col 1 r) rs)"
  by pat_completeness auto
termination
  by (relation "measure length") (auto simp: le_imp_less_Suc length_dropWhile_le)

definition splits_of :: "(string \<Rightarrow> string) \<Rightarrow> nat \<Rightarrow> string list list \<Rightarrow> csv_split list" where
  "splits_of md5hex n rows = map (\<lambda>(k, r). row_split md5hex (text_of (col 1 r)) k r) (enumerate n (filter numeric rows))"

definition run_tx :: "(string \<Rightarrow> string) \<Rightarrow> string list list \<Rightarrow> csv_tx" where
  "run_tx md5hex run =
     \<lparr>ct_id = uuid md5hex (''tx-'' @ text_of (col 1 (hd run))), ct_date = col 0 (hd run), ct_num = col 2 (hd run),
      ct_desc = col 3 (hd run), ct_splits = splits_of md5hex 0 run\<rparr>"

lemma splits_of_Cons:
  "splits_of md5hex n (r # rows) =
     (if numeric r then row_split md5hex (text_of (col 1 r)) n r # splits_of md5hex (Suc n) rows
      else splits_of md5hex n rows)"
  by (simp add: splits_of_def)

lemma splits_of_nonempty: "splits_of md5hex n rows = [] \<longleftrightarrow> \<not> (\<exists>r\<in>set rows. numeric r)"
  by (induction rows arbitrary: n) (simp_all add: splits_of_Cons, simp add: splits_of_def)

text \<open>Rows of the transaction that is open only add splits.\<close>

lemma same_tx:
  assumes "\<forall>r\<in>set rows. Some (col 1 r) = ts_current st"
  shows "fold (tx_row md5hex) rows st = st\<lparr>ts_splits := ts_splits st @ splits_of md5hex (length (ts_splits st)) rows\<rparr>"
  using assms
proof (induction rows arbitrary: st)
  case Nil
  then show ?case by (simp add: splits_of_def)
next
  case (Cons r rows)
  then have "open_tx md5hex r st = st" by (simp add: open_tx_def)
  with Cons show ?case by (cases "numeric r") (simp_all add: tx_row_def splits_of_Cons numeric_def Let_def)
qed

text \<open>A row of another transaction closes the open one.\<close>

lemma other_tx:
  assumes "Some (col 1 r) \<noteq> ts_current st" and "ts_splits (flushTx md5hex st) = []"
    and "\<forall>s\<in>set rows. col 1 s = col 1 r"
  shows "fold (tx_row md5hex) (r # rows) st =
    (flushTx md5hex st)\<lparr>ts_current := Some (col 1 r), ts_date := col 0 r, ts_num := col 2 r, ts_desc := col 3 r,
      ts_splits := splits_of md5hex 0 (r # rows)\<rparr>"
proof -
  let ?o = "(flushTx md5hex st)\<lparr>ts_current := Some (col 1 r), ts_date := col 0 r, ts_num := col 2 r, ts_desc := col 3 r\<rparr>"
  have "tx_row md5hex r st = tx_row md5hex r ?o" using assms(1) by (simp add: tx_row_def open_tx_def)
  then have "fold (tx_row md5hex) (r # rows) st = fold (tx_row md5hex) (r # rows) ?o" by simp
  also have "\<dots> = ?o\<lparr>ts_splits := splits_of md5hex 0 (r # rows)\<rparr>"
    using same_tx [of "r # rows" ?o md5hex] assms(2,3) by simp
  finally show ?thesis .
qed

lemma flush_named:
  assumes "ts_current st = Some (Some i)" and "i \<noteq> []"
  shows "ts_splits (flushTx md5hex st) = []"
    and "ts_txs (flushTx md5hex st) = ts_txs st @ (if ts_splits st = [] then []
      else [\<lparr>ct_id = uuid md5hex (''tx-'' @ i), ct_date = ts_date st, ct_num = ts_num st, ct_desc = ts_desc st, ct_splits = ts_splits st\<rparr>])"
  using assms by (simp_all add: flushTx_def)

lemma read_runs:
  assumes "\<forall>r\<in>set rows. truthy (col 1 r)" and "ts_splits (flushTx md5hex st) = []"
    and "rows \<noteq> [] \<Longrightarrow> Some (col 1 (hd rows)) \<noteq> ts_current st"
  shows "ts_txs (flushTx md5hex (fold (tx_row md5hex) rows st)) =
    ts_txs (flushTx md5hex st) @ map (run_tx md5hex) (filter (\<lambda>run. \<exists>r\<in>set run. numeric r) (runs rows))"
  using assms
proof (induction rows arbitrary: st rule: runs.induct)
  case (2 r rs)
  let ?same = "takeWhile (\<lambda>s. col 1 s = col 1 r) rs" and ?rest = "dropWhile (\<lambda>s. col 1 s = col 1 r) rs"
  let ?st = "fold (tx_row md5hex) (r # ?same) st"
  obtain i where i: "col 1 r = Some i" "i \<noteq> []" using "2.prems"(1) by (cases "col 1 r") auto
  have st: "?st = (flushTx md5hex st)\<lparr>ts_current := Some (col 1 r), ts_date := col 0 r, ts_num := col 2 r,
      ts_desc := col 3 r, ts_splits := splits_of md5hex 0 (r # ?same)\<rparr>"
    using "2.prems"(2,3) by (intro other_tx) (auto dest: set_takeWhileD)
  have "fold (tx_row md5hex) (r # rs) st = fold (tx_row md5hex) ?rest ?st"
    by (subst takeWhile_dropWhile_id [of "\<lambda>s. col 1 s = col 1 r" rs, symmetric]) (simp only: fold_Cons fold_append comp_apply)
  moreover have "?rest \<noteq> [] \<Longrightarrow> Some (col 1 (hd ?rest)) \<noteq> ts_current ?st"
    using hd_dropWhile [of "\<lambda>s. col 1 s = col 1 r" rs] unfolding st by simp
  moreover have "\<forall>r\<in>set ?rest. truthy (col 1 r)" using "2.prems"(1) by (auto dest: set_dropWhileD)
  moreover have "ts_current ?st = Some (Some i)" unfolding st by (simp add: i [unfolded One_nat_def])
  note f = flush_named [OF this i(2), of md5hex]
  ultimately have "ts_txs (flushTx md5hex (fold (tx_row md5hex) (r # rs) st)) = ts_txs (flushTx md5hex ?st)
      @ map (run_tx md5hex) (filter (\<lambda>run. \<exists>r\<in>set run. numeric r) (runs ?rest))"
    using "2.IH" [of ?st] by simp
  moreover have "ts_txs (flushTx md5hex ?st) = ts_txs (flushTx md5hex st)
      @ map (run_tx md5hex) (filter (\<lambda>run. \<exists>r\<in>set run. numeric r) [r # ?same])"
    unfolding f(2) unfolding st by (simp add: i [unfolded One_nat_def] run_tx_def splits_of_nonempty)
  ultimately show ?case by simp
qed simp

text \<open>
  C34. When every row names its transaction, the converter makes exactly one transaction of every run
  of consecutive rows with the same identifier that has a numeric amount: with the date,
  number and description of its first row, and one split for each numeric row, in order.
\<close>

theorem transactions_are_runs:
  assumes "\<forall>r\<in>set rows. truthy (col 1 r)"
  shows "read_transactions md5hex rows = map (run_tx md5hex) (filter (\<lambda>run. \<exists>r\<in>set run. numeric r) (runs rows))"
  using read_runs [OF assms, of md5hex tx_init] by (simp add: read_transactions_def tx_init_def flushTx_def)

text \<open>Rows with a date, an identifier and an amount\<close>

definition amount_row :: "string \<Rightarrow> string \<Rightarrow> string list" where
  "amount_row i v = [''2024-01-02'', i] @ replicate 10 [] @ [v]"

theorem transactions_are_runs_witness:
  "map ct_id (read_transactions sample_md5 [amount_row ''a'' ''5'', amount_row ''b'' ''7'', amount_row ''b'' ''-2''])
   = [uuid sample_md5 ''tx-a'', uuid sample_md5 ''tx-b'']"
proof -
  let ?rows = "[amount_row ''a'' ''5'', amount_row ''b'' ''7'', amount_row ''b'' ''-2'']"
  have "list_all (\<lambda>r. truthy (col 1 r)) ?rows" by code_simp
  then have txs: "read_transactions sample_md5 ?rows = map (run_tx sample_md5) (filter (\<lambda>run. list_ex numeric run) (runs ?rows))"
    using transactions_are_runs [of ?rows sample_md5] by (simp only: list_all_iff list_ex_iff)
  have "map (\<lambda>run. text_of (col 1 (hd run))) (filter (\<lambda>run. list_ex numeric run) (runs ?rows)) = [''a'', ''b'']" by code_simp
  moreover have "map ct_id (map (run_tx sample_md5) rs) = map (\<lambda>i. uuid sample_md5 (''tx-'' @ i)) (map (\<lambda>run. text_of (col 1 (hd run))) rs)" for rs
    by (simp add: run_tx_def)
  ultimately show ?thesis unfolding txs by (simp only: list.map append.simps)
qed

text \<open>
  Rows without an identifier are not kept apart: their splits become splits of the transaction
  that follows, under its date and description.
\<close>

theorem unnamed_rows_leak:
  assumes "\<forall>r\<in>set loose. col 1 r = Some []" and "i \<noteq> []" and "\<forall>r\<in>set rows. col 1 r = Some i"
    and "rows \<noteq> []" and "\<exists>r\<in>set (loose @ rows). numeric r"
  shows "\<exists>tx. read_transactions md5hex (loose @ rows) = [tx] \<and> ct_id tx = uuid md5hex (''tx-'' @ i)
    \<and> ct_date tx = col 0 (hd rows) \<and> ct_desc tx = col 3 (hd rows)
    \<and> map cs_accName (ct_splits tx) = map (col 9) (filter numeric (loose @ rows))"
proof -
  have names: "map cs_accName (splits_of md5hex n rs) = map (col 9) (filter numeric rs)" for n rs
    by (induction rs arbitrary: n) (auto simp: splits_of_Cons row_split_def, simp add: splits_of_def)
  obtain r rest where rows: "rows = r # rest" using assms(4) by (cases rows) auto
  define st where "st = fold (tx_row md5hex) loose tx_init"
  have st: "ts_txs st = [] \<and> ts_splits st = splits_of md5hex 0 loose \<and> ts_current st \<in> {None, Some (Some [])}"
  proof (cases loose)
    case (Cons l ls)
    have "st = (flushTx md5hex tx_init)\<lparr>ts_current := Some (col 1 l), ts_date := col 0 l, ts_num := col 2 l,
        ts_desc := col 3 l, ts_splits := splits_of md5hex 0 (l # ls)\<rparr>"
      unfolding st_def Cons using assms(1) Cons by (intro other_tx) (auto simp: tx_init_def flushTx_def)
    then show ?thesis using assms(1) Cons by (simp add: tx_init_def flushTx_def)
  qed (simp add: st_def tx_init_def splits_of_def)
  let ?o = "st\<lparr>ts_current := Some (Some i), ts_date := col 0 r, ts_num := col 2 r, ts_desc := col 3 r\<rparr>"
  have "flushTx md5hex st = st" using st by (auto simp: flushTx_def)
  then have "tx_row md5hex r st = tx_row md5hex r ?o"
    using st assms(2,3) rows by (auto simp: tx_row_def open_tx_def)
  then have fin: "fold (tx_row md5hex) (loose @ rows) tx_init
      = ?o\<lparr>ts_splits := splits_of md5hex 0 loose @ splits_of md5hex (length (splits_of md5hex 0 loose)) rows\<rparr>"
    using same_tx [of rows ?o md5hex] assms(3) st rows by (simp add: st_def)
  have "splits_of md5hex 0 loose @ splits_of md5hex (length (splits_of md5hex 0 loose)) rows \<noteq> []"
    using assms(5) by (auto simp: splits_of_nonempty)
  then show ?thesis
    unfolding read_transactions_def fin
    using st assms(2) rows by (simp add: flushTx_def names)
qed

theorem unnamed_rows_leak_witness:
  "\<exists>tx. read_transactions sample_md5
      [[''2024-01-01'', '''', '''', ''Lost'', '''', '''', '''', '''', '''', ''Assets:Cash'', '''', '''', ''5''],
       [''2024-02-02'', ''t1'', '''', ''Rent'', '''', '''', '''', '''', '''', ''Assets:Bank'', '''', '''', ''7'']] = [tx]
    \<and> ct_date tx = Some ''2024-02-02'' \<and> map cs_accName (ct_splits tx) = [Some ''Assets:Cash'', Some ''Assets:Bank'']"
proof -
  have n: "\<not> is_nan (parse_float ''5'')" "\<not> is_nan (parse_float ''7'')" by code_simp+
  show ?thesis
    using unnamed_rows_leak [of "[[''2024-01-01'', '''', '''', ''Lost'', '''', '''', '''', '''', '''', ''Assets:Cash'', '''', '''', ''5'']]"
        "''t1''" "[[''2024-02-02'', ''t1'', '''', ''Rent'', '''', '''', '''', '''', '''', ''Assets:Bank'', '''', '''', ''7'']]" sample_md5]
    by (auto simp: col_def numeric_def row_amount_def n)
qed

section \<open>Amounts\<close>

lemma parse_float_prefix:
  assumes "plain s q" and "r = [] \<or> \<not> is_digit (hd r) \<and> hd r \<notin> set ''.eE''"
  shows "parse_float ((if neg then ''-'' else '''') @ s @ r) = num_of_mag neg q"
proof -
  obtain c u where c: "s = c # u" "is_digit c" using plain_hd [OF assms(1)] by blast
  then have "parse_float ((if neg then ''-'' else '''') @ s @ r) = parse_unsigned neg (s @ r)"
    by (auto simp: parse_float_def)
  moreover have "\<not> prefix ''Infinity'' (s @ r)" using c by auto
  ultimately show ?thesis using scan_decimal_plain [OF assms] by (simp add: parse_unsigned_def)
qed

lemma plain_digits:
  assumes "0 \<le> k"
  shows "plain (dec_digits k) (of_int k)"
proof -
  have "length (dec_digits k) = 1 \<or> hd (dec_digits k) \<noteq> CHR ''0''"
    using dec_digits_hd [of k] assms by (cases "k = 0") (auto simp: dec_digits_small)
  then show ?thesis using assms by (intro plainI [of "dec_digits k" "[]"]) (auto simp: dec_digits_all)
qed

lemma math_round_int: "\<bar>n\<bar> \<le> 2 ^ 53 \<Longrightarrow> math_round (num_of_int n) = num_of_int n"
proof -
  have "\<lfloor>1 / 2 :: rat\<rfloor> = 0" by (simp add: floor_eq_iff)
  then show "\<bar>n\<bar> \<le> 2 ^ 53 \<Longrightarrow> ?thesis" by (simp add: num_of_int_exact)
qed

lemma hundredfold:
  assumes "\<bar>n\<bar> \<le> 2 ^ 43"
  shows "num_mul (num_of_int n) (num_of_int 100) = num_of_int (100 * n)"
proof -
  have "double_mag (of_int (\<bar>n\<bar> * 100))" using assms by (intro double_mag_int) auto
  then show ?thesis using assms by (simp add: num_of_int_exact num_of_int_100 abs_mult mult.commute)
qed

text \<open>
  C35. An amount written with two decimals becomes exactly its number of cents, up to \<open>2\<^sup>5\<^sup>0\<close>
  cents either way; but a separator of thousands cuts the amount off: of whole units followed by
  a comma and anything, only the units are kept.
\<close>

theorem amounts_to_the_cent:
  "(\<bar>n\<bar> \<le> 2 ^ 50 \<and> col 12 cols = Some (to_fixed2 (cents n)) \<longrightarrow>
      cs_numAmt (row_split md5hex txid k cols) = num_of_int n)
   \<and> (\<bar>n\<bar> \<le> 2 ^ 43 \<and> col 12 cols = Some (dec_int n @ '','' @ anything) \<longrightarrow>
      cs_numAmt (row_split md5hex txid k cols) = num_of_int (100 * n))"
proof (intro conjI impI; elim conjE)
  assume "\<bar>n\<bar> \<le> 2 ^ 50" "col 12 cols = Some (to_fixed2 (cents n))"
  then show "cs_numAmt (row_split md5hex txid k cols) = num_of_int n"
    by (simp add: row_split_def row_amount_def parse_fixed2_cents round_cents)
next
  assume n: "\<bar>n\<bar> \<le> 2 ^ 43" and c: "col 12 cols = Some (dec_int n @ '','' @ anything)"
  have "row_amount cols = num_of_mag (n < 0) (of_int \<bar>n\<bar>)"
    using parse_float_prefix [OF plain_digits [of "\<bar>n\<bar>"], of "'','' @ anything" "n < 0"]
    by (simp add: row_amount_def c dec_int_def is_digit_def code_def)
  moreover have "num_of_mag (n < 0) (of_int \<bar>n\<bar>) = num_of_int n" by (simp add: num_of_int_def num_of_def)
  ultimately show "cs_numAmt (row_split md5hex txid k cols) = num_of_int (100 * n)"
    using n by (simp add: row_split_def hundredfold math_round_int)
qed

theorem amounts_to_the_cent_witness:
  "cs_numAmt (row_split sample_md5 ''t'' 0 (replicate 12 [] @ [''-1,234.50''])) = num_of_int (- 100)"
proof -
  have "col 12 (replicate 12 [] @ [''-1,234.50'']) = Some (dec_int (- 1) @ '','' @ ''234.50'')"
    by code_simp
  then show ?thesis
    using amounts_to_the_cent [of "- 1" "replicate 12 [] @ [''-1,234.50'']" sample_md5 "''t''" 0 "''234.50''"] by simp
qed

end
