(* ===== verification/Snapshots.thy ===== *)
theory Snapshots
  imports ApiClient I18n Types JsRounding
begin

text \<open>
  The snapshots page (\<^verbatim>\<open>pages/Snapshots.tsx\<close>): the schedule, taking, restoring and
  deleting snapshots, and the messages, which timers take away. Times are in milliseconds.
\<close>

section \<open>State\<close>

datatype snap_tone = NoteSuccess | NoteError

record snapshots_page =
  sn_config :: "snapshot_config option"
  sn_list :: "snapshot_summary list"
  sn_frequency :: number
  sn_ttl :: number
  sn_active :: bool
  sn_label :: string
  sn_saving :: bool
  sn_taking :: bool
  sn_restoring :: "string option"
  sn_deleting :: "string option"
  sn_message :: "(snap_tone \<times> string) option"
  sn_timers :: "int list"

text \<open>\<open>sn_timers\<close> are the times at which a timer will take the message away.\<close>

definition snapshots_init :: snapshots_page where
  "snapshots_init =
     \<lparr>sn_config = None, sn_list = [], sn_frequency = zero, sn_ttl = zero, sn_active = False, sn_label = [],
      sn_saving = False, sn_taking = False, sn_restoring = None, sn_deleting = None, sn_message = None, sn_timers = []\<rparr>"

text \<open>Both requests of the first effect have settled; \<open>None\<close> is \<^verbatim>\<open>null\<close>.\<close>

definition snapshots_loaded ::
  "js_error + snapshot_config option \<Rightarrow> js_error + snapshot_summary list option \<Rightarrow> snapshots_page \<Rightarrow> snapshots_page" where
  "snapshots_loaded cfg snaps st =
     (let st' = (case cfg of
                   Inr (Some c) \<Rightarrow> st\<lparr>sn_config := Some c, sn_frequency := sc_frequency c,
                                     sn_ttl := sc_ttl c, sn_active := sc_active c\<rparr>
                 | _ \<Rightarrow> st)
      in st'\<lparr>sn_list := (case snaps of Inr (Some l) \<Rightarrow> l | _ \<Rightarrow> [])\<rparr>)"

section \<open>Messages\<close>

definition showMessage :: "int \<Rightarrow> snap_tone \<Rightarrow> string \<Rightarrow> snapshots_page \<Rightarrow> snapshots_page" where
  "showMessage now ty text_shown st = st\<lparr>sn_message := Some (ty, text_shown), sn_timers := (now + 4000) # sn_timers st\<rparr>"

text \<open>The timers that are due at a time run.\<close>

definition run_timers :: "int \<Rightarrow> snapshots_page \<Rightarrow> snapshots_page" where
  "run_timers now st =
     (if list_ex (\<lambda>due. due \<le> now) (sn_timers st)
      then st\<lparr>sn_message := None, sn_timers := filter (\<lambda>due. now < due) (sn_timers st)\<rparr> else st)"

section \<open>Fields\<close>

text \<open>\<^verbatim>\<open>Math.max(0, parseInt(v) || 0)\<close>; a number field holds no hexadecimal text.\<close>

definition hours_of :: "string \<Rightarrow> number" where
  "hours_of v = math_max zero (num_or (parse_int v) zero)"

definition set_frequency :: "string \<Rightarrow> snapshots_page \<Rightarrow> snapshots_page" where
  "set_frequency v st = st\<lparr>sn_frequency := hours_of v\<rparr>"

definition set_ttl :: "string \<Rightarrow> snapshots_page \<Rightarrow> snapshots_page" where
  "set_ttl v st = st\<lparr>sn_ttl := hours_of v\<rparr>"

definition set_active :: "bool \<Rightarrow> snapshots_page \<Rightarrow> snapshots_page" where
  "set_active b st = st\<lparr>sn_active := b\<rparr>"

definition set_label :: "string \<Rightarrow> snapshots_page \<Rightarrow> snapshots_page" where
  "set_label v st = st\<lparr>sn_label := v\<rparr>"

section \<open>Handlers\<close>

definition handleSaveConfig :: "snapshots_page \<Rightarrow> snapshots_page \<times> http_request option" where
  "handleSaveConfig st =
     (st\<lparr>sn_saving := True\<rparr>, Some (upsertSnapshotConfig (sn_frequency st) (sn_ttl st) (sn_active st)))"

definition save_settled :: "language \<Rightarrow> int \<Rightarrow> js_error + snapshot_config \<Rightarrow> snapshots_page \<Rightarrow> snapshots_page" where
  "save_settled lang now res st =
     (case res of
        Inr cfg \<Rightarrow> showMessage now NoteSuccess (t lang ''snapshots.configSaved'') (st\<lparr>sn_config := Some cfg\<rparr>)
      | Inl e \<Rightarrow> showMessage now NoteError (t lang ''snapshots.configError'') st)\<lparr>sn_saving := False\<rparr>"

definition handleTakeSnapshot :: "snapshots_page \<Rightarrow> snapshots_page \<times> http_request option" where
  "handleTakeSnapshot st = (st\<lparr>sn_taking := True\<rparr>, Some (takeSnapshot (js_trim (sn_label st))))"

definition take_settled :: "language \<Rightarrow> int \<Rightarrow> js_error + snapshot_summary \<Rightarrow> snapshots_page \<Rightarrow> snapshots_page" where
  "take_settled lang now res st =
     (case res of
        Inr ss \<Rightarrow> showMessage now NoteSuccess (t lang ''snapshots.snapshotTaken'')
                    (st\<lparr>sn_list := ss # sn_list st, sn_label := []\<rparr>)
      | Inl e \<Rightarrow> showMessage now NoteError (t lang ''snapshots.snapshotError'') st)\<lparr>sn_taking := False\<rparr>"

definition snap_restore :: "bool \<Rightarrow> string \<Rightarrow> snapshots_page \<Rightarrow> snapshots_page \<times> http_request option" where
  "snap_restore confirmed i st =
     (if \<not> confirmed then (st, None) else (st\<lparr>sn_restoring := Some i\<rparr>, Some (restoreSnapshot i)))"

text \<open>Also the time at which the page will be reloaded\<close>

definition restore_settled :: "language \<Rightarrow> int \<Rightarrow> js_error + unit \<Rightarrow> snapshots_page \<Rightarrow> snapshots_page \<times> int option" where
  "restore_settled lang now res st =
     (case res of
        Inr _ \<Rightarrow> (showMessage now NoteSuccess (t lang ''snapshots.restoreSuccess'') st, Some (now + 1000))
      | Inl e \<Rightarrow> ((showMessage now NoteError (t lang ''snapshots.restoreError'') st)\<lparr>sn_restoring := None\<rparr>, None))"

definition snap_delete :: "bool \<Rightarrow> string \<Rightarrow> snapshots_page \<Rightarrow> snapshots_page \<times> http_request option" where
  "snap_delete confirmed i st =
     (if \<not> confirmed then (st, None) else (st\<lparr>sn_deleting := Some i\<rparr>, Some (deleteSnapshot i)))"

definition snap_delete_settled :: "language \<Rightarrow> int \<Rightarrow> string \<Rightarrow> js_error + unit \<Rightarrow> snapshots_page \<Rightarrow> snapshots_page" where
  "snap_delete_settled lang now i res st =
     (case res of
        Inr _ \<Rightarrow> showMessage now NoteSuccess (t lang ''snapshots.deleteSuccess'')
                   (st\<lparr>sn_list := filter (\<lambda>s. ss_id s \<noteq> i) (sn_list st)\<rparr>)
      | Inl e \<Rightarrow> showMessage now NoteError (t lang ''snapshots.deleteError'') st)\<lparr>sn_deleting := None\<rparr>"

section \<open>What is shown\<close>

definition triggerLabel :: "language \<Rightarrow> string \<Rightarrow> string" where
  "triggerLabel lang trigger =
     (if trigger = ''scheduled'' then t lang ''snapshots.triggerScheduled''
      else if trigger = ''active'' then t lang ''snapshots.triggerActive''
      else t lang ''snapshots.triggerManual'')"

text \<open>Background and colour\<close>

definition triggerBadgeStyle :: "string \<Rightarrow> string \<times> string" where
  "triggerBadgeStyle trigger =
     (if trigger = ''scheduled'' then (''#3b82f620'', ''#3b82f6'')
      else if trigger = ''active'' then (''#22c55e20'', ''#22c55e'')
      else (''#64748b20'', ''#64748b''))"

record snapshot_row =
  sr_date :: string
  sr_label :: "string option"
  sr_badge :: "string \<times> string"
  sr_source :: string
  sr_enabled :: bool
  sr_restore_text :: string

text \<open>\<open>local_text\<close> is the host's rendering of a date; an empty label is shown as a dash.\<close>

definition snapshot_rows :: "(string \<Rightarrow> string) \<Rightarrow> language \<Rightarrow> snapshots_page \<Rightarrow> snapshot_row list" where
  "snapshot_rows local_text lang st =
     map (\<lambda>s. \<lparr>sr_date = local_text (ss_created s),
               sr_label = (if ss_label s = [] then None else Some (ss_label s)),
               sr_badge = triggerBadgeStyle (ss_trigger s), sr_source = triggerLabel lang (ss_trigger s),
               sr_enabled = (\<not> (sn_restoring st = Some (ss_id s) \<or> sn_deleting st = Some (ss_id s))),
               sr_restore_text = (if sn_restoring st = Some (ss_id s) then t lang ''snapshots.restoring''
                                  else t lang ''snapshots.restore'')\<rparr>) (sn_list st)"

definition save_button :: "language \<Rightarrow> snapshots_page \<Rightarrow> string \<times> bool" where
  "save_button lang st =
     (if sn_saving st then t lang ''common.saving'' else t lang ''snapshots.saveConfig'', \<not> sn_saving st)"

definition take_button :: "language \<Rightarrow> snapshots_page \<Rightarrow> string \<times> bool" where
  "take_button lang st =
     (if sn_taking st then t lang ''snapshots.taking'' else t lang ''snapshots.takeNow'', \<not> sn_taking st)"

text \<open>The number beside the heading, and the text instead of an empty table\<close>

definition list_badge :: "snapshots_page \<Rightarrow> nat option" where
  "list_badge st = (if length (sn_list st) > 0 then Some (length (sn_list st)) else None)"

definition empty_text :: "language \<Rightarrow> snapshots_page \<Rightarrow> string option" where
  "empty_text lang st = (if length (sn_list st) = 0 then Some (t lang ''snapshots.noSnapshots'') else None)"

end
