(* ===== verification/SnapshotsLaws.thy ===== *)
theory SnapshotsLaws
  imports Snapshots
begin

text \<open>
  The snapshots page: every schedule sent to the server is well typed whatever is typed into the
  fields, how long a message stays, and which buttons are enabled while requests are out.
\<close>

section \<open>Events\<close>

datatype snapshot_event =
    SnapshotsLoaded "js_error + snapshot_config option" "js_error + snapshot_summary list option"
  | FrequencyInput string
  | TtlInput string
  | ActiveInput bool
  | LabelInput string
  | RestoreClick bool string
  | RestoreSettled int "js_error + unit"
  | DeleteClick bool string
  | DeleteSettled int string "js_error + unit"
  | Timers int

fun on_snapshots :: "language \<Rightarrow> snapshot_event \<Rightarrow> snapshots_page \<Rightarrow> snapshots_page" where
  "on_snapshots lang (SnapshotsLoaded cfg l) st = snapshots_loaded cfg l st"
| "on_snapshots lang (FrequencyInput v) st = set_frequency v st"
| "on_snapshots lang (TtlInput v) st = set_ttl v st"
| "on_snapshots lang (ActiveInput b) st = set_active b st"
| "on_snapshots lang (LabelInput v) st = set_label v st"
| "on_snapshots lang (RestoreClick b i) st = fst (snap_restore b i st)"
| "on_snapshots lang (RestoreSettled now res) st = fst (restore_settled lang now res st)"
| "on_snapshots lang (DeleteClick b i) st = fst (snap_delete b i st)"
| "on_snapshots lang (DeleteSettled now i res) st = snap_delete_settled lang now i res st"
| "on_snapshots lang (Timers now) st = run_timers now st"

lemmas snapshot_defs [handler_defs] =
  snapshots_loaded_def set_frequency_def set_ttl_def set_active_def set_label_def snap_restore_def restore_settled_def
  snap_delete_def snap_delete_settled_def run_timers_def showMessage_def handleSaveConfig_def save_settled_def
  handleTakeSnapshot_def take_settled_def Let_def

lemma on_snapshots_busy [simp]:
  "sn_saving (on_snapshots lang ev st) = sn_saving st" "sn_taking (on_snapshots lang ev st) = sn_taking st"
  by (cases ev; auto simp: snapshot_defs split: sum.splits option.splits)+

interpretation saving_schedule: async_handler handleSaveConfig "save_settled lang now" "on_snapshots lang" sn_saving
  by unfold_locales (auto simp: snapshot_defs split: sum.splits)

interpretation taking_snapshot: async_handler handleTakeSnapshot "take_settled lang now" "on_snapshots lang" sn_taking
  by unfold_locales (auto simp: snapshot_defs split: sum.splits)

text \<open>
  The forms of the page are locked exactly while their request is out: whatever else happens,
  the buttons to save the schedule and to take a snapshot stay disabled until the answer came,
  and are enabled after it, success or not.
\<close>

theorem snapshot_forms_locked:
  "\<not> snd (save_button lang (fold (on_snapshots lang) evs (fst (handleSaveConfig st))))
   \<and> \<not> snd (take_button lang (fold (on_snapshots lang) evs (fst (handleTakeSnapshot st))))
   \<and> snd (save_button lang (fold (on_snapshots lang) evs' (save_settled lang now res (fold (on_snapshots lang) evs st))))
   \<and> snd (take_button lang (fold (on_snapshots lang) evs' (take_settled lang now res' (fold (on_snapshots lang) evs st))))"
proof -
  obtain s1 r1 where s1: "handleSaveConfig st = (s1, Some r1)" by (simp add: handleSaveConfig_def)
  obtain s2 r2 where s2: "handleTakeSnapshot st = (s2, Some r2)" by (simp add: handleTakeSnapshot_def)
  show ?thesis
    using saving_schedule.busy_while_pending [OF s1] taking_snapshot.busy_while_pending [OF s2]
      saving_schedule.idle_when_settled taking_snapshot.idle_when_settled
    by (simp add: save_button_def take_button_def s1 s2)
qed

section \<open>The schedule\<close>

text \<open>A number of hours: a whole number, finite and not negative\<close>

fun hours :: "number \<Rightarrow> bool" where
  "hours (Num s m) = (\<not> s \<and> 0 \<le> m \<and> m = of_int \<lfloor>m\<rfloor>)"
| "hours _ = False"

lemma round_mag_int: "0 \<le> n \<Longrightarrow> round_mag (of_int n) = of_int \<lfloor>round_mag (of_int n)\<rfloor>"
proof (cases "ulp_exp (of_int n) < 0")
  case True
  assume n: "0 \<le> n"
  show ?thesis
  proof (cases "n = 0")
    case False
    with n have "0 < (of_int n :: rat)" by simp
    moreover have "ilog2 (of_int n) < 53" using True by (simp add: ulp_exp_def)
    ultimately have "(of_int n :: rat) < 2 powi 53" by (simp only: ilog2_less_iff)
    then have "(of_int n :: rat) < of_int (2 ^ 53)" by simp
    then have "n \<le> 2 ^ 53" by (simp only: of_int_less_iff less_imp_le)
    with n show ?thesis by (simp add: double_mag_int)
  qed simp
next
  case False
  then have "(2 :: rat) powi ulp_exp (of_int n) = of_int (2 ^ nat (ulp_exp (of_int n)))"
    by (simp add: two_powi_of_nat)
  then have "round_mag (of_int n) = of_int (round_half_even (of_int n / 2 powi ulp_exp (of_int n)) * 2 ^ nat (ulp_exp (of_int n)))"
    by (simp add: round_mag_def round_half_even_def)
  then show ?thesis by (simp only: floor_of_int)
qed

text \<open>Up to 300 digits are far from the largest double.\<close>

lemma digits_finite:
  assumes "0 \<le> k" and "k < 10 ^ 300"
  shows "\<not> overflows (round_mag (of_int k))"
proof -
  have "(10 :: int) ^ 300 = (10 ^ 3) ^ 100" by (simp only: flip: power_mult) simp
  also have "\<dots> \<le> (2 ^ 10) ^ 100" by (rule power_mono) simp_all
  also have "\<dots> = 2 ^ 1000" by (simp only: flip: power_mult) simp
  finally have "k \<le> 2 ^ 1000" using assms(2) by linarith
  then have "(of_int k :: rat) \<le> of_int (2 ^ 1000)" by (simp only: of_int_le_iff)
  then have "(of_int k :: rat) \<le> 2 powi 1000" by (simp add: power_int_def)
  moreover have "double_mag (2 powi 1000)"
    unfolding double_mag_def
    using not_overflows [of "2 powi 1000"] by (intro conjI exI [of _ 1] exI [of _ 1000]) (simp_all only: two_powi_less_iff, simp_all)
  ultimately have "round_mag (of_int k) \<le> 2 powi 1000"
    using round_mag_mono [of "of_int k" "2 powi 1000"] assms(1) by simp
  also have "\<dots> < (2 :: rat) powi 1024" by (simp only: two_powi_less_iff)
  finally show ?thesis by (rule not_overflows)
qed

lemma digits_taken:
  assumes "length s \<le> 300"
  shows "0 \<le> digits_val (takeWhile is_digit s)" and "digits_val (takeWhile is_digit s) < 10 ^ 300"
proof -
  have "list_all is_digit (takeWhile is_digit s)" unfolding list_all_iff by (blast dest: set_takeWhileD)
  note b = digits_val_bounds [OF this]
  then show "0 \<le> digits_val (takeWhile is_digit s)" by blast
  have "(10 :: int) ^ length (takeWhile is_digit s) \<le> 10 ^ 300"
    using assms length_takeWhile_le [of is_digit s] by (intro power_increasing) simp_all
  with b show "digits_val (takeWhile is_digit s) < 10 ^ 300" by linarith
qed

lemma parse_int_cases:
  obtains (nan) "parse_int v = NaN"
    | (whole) s k where "parse_int v = num_of_mag s (of_int k)" "0 \<le> k" "length v \<le> 300 \<Longrightarrow> k < 10 ^ 300"
proof -
  define u where "u = (case dropWhile is_space v of
      c # r \<Rightarrow> if c = CHR ''-'' then r else if c = CHR ''+'' then r else dropWhile is_space v | [] \<Rightarrow> [])"
  have "length u \<le> length v"
    using length_dropWhile_le [of is_space v] by (auto simp: u_def split: list.splits)
  then have u: "length v \<le> 300 \<Longrightarrow> length u \<le> 300" by simp
  have pos: "0 \<le> digits_val (takeWhile is_digit u)"
    by (rule digits_val_bounds [THEN conjunct1]) (auto simp: list_all_iff dest: set_takeWhileD)
  have "parse_int v = NaN \<or> (\<exists>s. parse_int v = num_of_mag s (of_int (digits_val (takeWhile is_digit u))))"
    by (auto simp: parse_int_def u_def Let_def split: list.splits)
  then show thesis using nan whole [OF _ pos] digits_taken(2) u by blast
qed

lemma hours_of:
  assumes "length v \<le> 300"
  shows "hours (hours_of v)"
proof (cases rule: parse_int_cases [of v])
  case nan
  then show ?thesis by (simp add: hours_of_def num_or_def math_max_def)
next
  case (whole s k)
  have "round_mag (of_int k) = of_int \<lfloor>round_mag (of_int k)\<rfloor>" "0 \<le> round_mag (of_int k)"
    using whole(2) by (rule round_mag_int, simp)
  moreover have "\<not> overflows (round_mag (of_int k))" using digits_finite whole assms by blast
  ultimately show ?thesis
    using whole(1) by (cases s) (auto simp: hours_of_def num_or_def num_of_mag_def math_max_def Let_def)
qed

text \<open>The events with the requests: the buttons work only while they are enabled.\<close>

datatype schedule_event =
    Beside snapshot_event
  | SaveClick
  | SaveSettled int "js_error + snapshot_config"
  | TakeClick
  | TakeSettled int "js_error + snapshot_summary"

fun snapshots_step :: "language \<Rightarrow> schedule_event \<Rightarrow> snapshots_page \<Rightarrow> snapshots_page \<times> http_request option" where
  "snapshots_step lang (Beside ev) st =
     (on_snapshots lang ev st,
      case ev of RestoreClick b i \<Rightarrow> snd (snap_restore b i st) | DeleteClick b i \<Rightarrow> snd (snap_delete b i st) | _ \<Rightarrow> None)"
| "snapshots_step lang SaveClick st = (if snd (save_button lang st) then handleSaveConfig st else (st, None))"
| "snapshots_step lang (SaveSettled now res) st = (save_settled lang now res st, None)"
| "snapshots_step lang TakeClick st = (if snd (take_button lang st) then handleTakeSnapshot st else (st, None))"
| "snapshots_step lang (TakeSettled now res) st = (take_settled lang now res st, None)"

text \<open>All the requests of a run, in their order\<close>

fun snapshots_run :: "language \<Rightarrow> schedule_event list \<Rightarrow> snapshots_page \<Rightarrow> snapshots_page \<times> http_request list" where
  "snapshots_run lang [] st = (st, [])"
| "snapshots_run lang (ev # evs) st =
     (case snapshots_step lang ev st of (st1, out) \<Rightarrow>
      case snapshots_run lang evs st1 of (st2, outs) \<Rightarrow>
        (st2, (case out of Some r \<Rightarrow> [r] | None \<Rightarrow> []) @ outs))"

text \<open>The schedule the server sends is well typed, and no field holds more than 300 characters.\<close>

fun sound_event :: "schedule_event \<Rightarrow> bool" where
  "sound_event (Beside (SnapshotsLoaded (Inr (Some c)) l)) = (hours (sc_frequency c) \<and> hours (sc_ttl c))"
| "sound_event (Beside (FrequencyInput v)) = (length v \<le> 300)"
| "sound_event (Beside (TtlInput v)) = (length v \<le> 300)"
| "sound_event _ = True"

definition schedule_ok :: "snapshots_page \<Rightarrow> bool" where
  "schedule_ok st \<longleftrightarrow> hours (sn_frequency st) \<and> hours (sn_ttl st)"

lemma schedule_ok_step:
  assumes "sound_event ev" and "schedule_ok st"
  shows "schedule_ok (fst (snapshots_step lang ev st))"
proof (cases ev)
  case (Beside e)
  with assms show ?thesis
    by (cases ev rule: sound_event.cases; auto simp: schedule_ok_def snapshot_defs hours_of split: sum.splits)
qed (use assms in \<open>auto simp: schedule_ok_def snapshot_defs split: sum.splits\<close>)

lemma save_request:
  assumes "snapshots_step lang ev st = (st', Some r)" and "rq_method r = PUT"
  shows "r = upsertSnapshotConfig (sn_frequency st) (sn_ttl st) (sn_active st)"
  using assms
  by (cases ev)
    (auto simp: snapshot_defs restoreSnapshot_def deleteSnapshot_def takeSnapshot_def bare_request_def send_request_def
      split: if_splits snapshot_event.splits)

text \<open>
  C36. Along any run of the page, with any number of saves and their answers, other requests,
  messages and inputs in any order, every schedule that is sent has two finite whole numbers of
  hours, never negative and never \<^verbatim>\<open>NaN\<close>, whatever is typed into the fields:
  signs, letters, nothing. And while no save is out the button sends one. Conditions: the schedule
  the server sent has such hours, and no field holds more than 300 characters; a longer text may
  overflow to infinity, which JSON sends as \<^verbatim>\<open>null\<close>.
\<close>

theorem schedule_well_typed:
  assumes "list_all sound_event evs" and "snapshots_run lang evs snapshots_init = (st, reqs)"
  shows "(\<forall>r\<in>set reqs. rq_method r = PUT \<longrightarrow> (\<exists>f l a. r = upsertSnapshotConfig f l a \<and> hours f \<and> hours l))
    \<and> (\<not> sn_saving st \<longrightarrow>
        (\<exists>f l a. snd (snapshots_step lang SaveClick st) = Some (upsertSnapshotConfig f l a) \<and> hours f \<and> hours l))"
proof -
  have run: "schedule_ok st \<and>
      (\<forall>r\<in>set reqs. rq_method r = PUT \<longrightarrow> (\<exists>f l a. r = upsertSnapshotConfig f l a \<and> hours f \<and> hours l))"
    if "list_all sound_event evs" "schedule_ok st0" "snapshots_run lang evs st0 = (st, reqs)" for st0
    using that
  proof (induction evs arbitrary: st0 reqs)
    case (Cons ev evs)
    obtain st1 out where s: "snapshots_step lang ev st0 = (st1, out)" by fastforce
    obtain outs where r: "snapshots_run lang evs st1 = (st, outs)" "reqs = (case out of Some r \<Rightarrow> [r] | None \<Rightarrow> []) @ outs"
      using Cons.prems(3) s by (auto split: prod.splits)
    have "schedule_ok st1" using schedule_ok_step [of ev st0 lang] Cons.prems s by simp
    with Cons.IH [OF _ _ r(1)] Cons.prems(1)
    have "schedule_ok st" "\<forall>r\<in>set outs. rq_method r = PUT \<longrightarrow> (\<exists>f l a. r = upsertSnapshotConfig f l a \<and> hours f \<and> hours l)"
      by auto
    moreover have "\<exists>f l a. r = upsertSnapshotConfig f l a \<and> hours f \<and> hours l" if "out = Some r" "rq_method r = PUT" for r
      using save_request [of lang ev st0 st1 r] s that Cons.prems(2) by (auto simp: schedule_ok_def)
    ultimately show ?case using r(2) by (auto split: option.splits)
  qed simp
  have "schedule_ok snapshots_init" by (simp add: schedule_ok_def snapshots_init_def)
  from run [OF assms(1) this assms(2)] show ?thesis
    by (auto simp: schedule_ok_def save_button_def handleSaveConfig_def)
qed

text \<open>Two saves, the second after the answer to the first and more input\<close>

definition two_saves :: "schedule_event list" where
  "two_saves = [Beside (FrequencyInput ''-5''), Beside (TtlInput ''x''), SaveClick, SaveSettled 0 (Inl Thrown),
     Beside (TtlInput ''72''), SaveClick]"

theorem schedule_well_typed_witness:
  "\<exists>f l a f' l' a'. snd (snapshots_run ''en'' two_saves snapshots_init)
      = [upsertSnapshotConfig f l a, upsertSnapshotConfig f' l' a'] \<and> hours f \<and> hours l \<and> hours f' \<and> hours l'"
proof -
  obtain st reqs where run: "snapshots_run ''en'' two_saves snapshots_init = (st, reqs)" by fastforce
  have two: "\<exists>r r'. reqs = [r, r'] \<and> rq_method r = PUT \<and> rq_method r' = PUT"
    using run by (auto simp: two_saves_def snapshot_defs save_button_def upsertSnapshotConfig_def send_request_def snapshots_init_def)
  have "list_all sound_event two_saves" by (simp add: two_saves_def)
  from schedule_well_typed [OF this run] two show ?thesis unfolding run by fastforce
qed

section \<open>Messages\<close>

text \<open>
  A message shown while no other is waiting to be taken away stays for exactly four seconds. But a
  message shown less than four seconds after another is taken away with the earlier one, before
  its time.
\<close>

theorem message_time:
  "(sn_timers st = [] \<longrightarrow>
      (sn_message (run_timers u (showMessage now ty msg st)) = (if u < now + 4000 then Some (ty, msg) else None)))
   \<and> (now < later \<longrightarrow>
      sn_message (run_timers (now + 4000) (showMessage later ty' msg' (showMessage now ty msg st))) = None)"
  by (auto simp: run_timers_def showMessage_def)

theorem message_time_witness:
  "sn_message (run_timers 4000 (showMessage 3900 NoteError ''failed'' (showMessage 0 NoteSuccess ''saved'' snapshots_init))) = None"
  using message_time [of snapshots_init 0 0 NoteSuccess "''saved''" 3900 NoteError "''failed''"] by simp

section \<open>Deleting\<close>

text \<open>
  While a snapshot is being deleted its buttons are disabled; but the page remembers only one
  snapshot: after starting to delete a second one, the answer for the first enables the buttons
  of the second, although its request is still out. A deleted snapshot leaves the list and no
  other does.
\<close>

theorem deleting_forgotten:
  assumes "row < length (sn_list st)" and "ss_id (sn_list st ! row) = b" and "a \<noteq> b" and "sn_restoring st = None"
  shows "let both = fst (snap_delete True b (fst (snap_delete True a st))) in
    \<not> sr_enabled (snapshot_rows local_text lang both ! row)
    \<and> sn_list (snap_delete_settled lang now a (Inr ()) both) = filter (\<lambda>s. ss_id s \<noteq> a) (sn_list st)
    \<and> (\<forall>r\<in>set (snapshot_rows local_text lang (snap_delete_settled lang now a (Inr ()) both)). sr_enabled r)
    \<and> (\<exists>s\<in>set (sn_list (snap_delete_settled lang now a (Inr ()) both)). ss_id s = b)"
  using assms nth_mem [of row "sn_list st"]
  by (auto simp: snapshot_rows_def snap_delete_def snap_delete_settled_def showMessage_def Let_def
      intro!: exI [of _ "sn_list st ! row"])

definition sample_snapshot :: "string \<Rightarrow> snapshot_summary" where
  "sample_snapshot i = \<lparr>ss_id = i, ss_book = ''b'', ss_label = [], ss_trigger = ''manual'', ss_created = ''2024-03-05T10:00:00Z''\<rparr>"

theorem deleting_forgotten_witness:
  "\<forall>r\<in>set (snapshot_rows (\<lambda>d. d) ''en'' (snap_delete_settled ''en'' 0 ''1'' (Inr ()) (fst (snap_delete True ''2''
      (fst (snap_delete True ''1'' (snapshots_init\<lparr>sn_list := [sample_snapshot ''1'', sample_snapshot ''2'']\<rparr>))))))). sr_enabled r"
  using deleting_forgotten [of 1 "snapshots_init\<lparr>sn_list := [sample_snapshot ''1'', sample_snapshot ''2'']\<rparr>" "''2''" "''1''"
      "\<lambda>d. d" "''en''" 0]
  by (simp add: sample_snapshot_def snapshots_init_def Let_def)

end
