(* ===== verification/Dashboard.thy ===== *)
theory Dashboard
  imports ApiClient I18n Types JsDate
begin

text \<open>
  The dashboard (\<^verbatim>\<open>pages/Dashboard.tsx\<close>): the figures computed from the accounts, the
  ranges of dates, the charts, and the state of the page. \<open>money\<close> is the formatting of amounts;
  \<open>offset\<close> and \<open>to_utc\<close> are the host's conversions between local time and UTC, in milliseconds.
\<close>

section \<open>Figures\<close>

record top_account =
  ta_guid :: string
  ta_name :: string
  ta_value :: number
  ta_rvalue :: number
  ta_color :: string
  ta_type :: account_type

record share =
  sh_name :: string
  sh_value :: number
  sh_rvalue :: number
  sh_color :: string

record dashboard =
  da_assets :: number
  da_liabilities :: number
  da_income :: number
  da_expenses :: number
  da_rassets :: number
  da_rliabilities :: number
  da_rincome :: number
  da_rexpenses :: number
  da_top :: "top_account list"
  da_expense_accounts :: "share list"
  da_income_accounts :: "share list"

definition EXPENSE_PALETTE :: "string list" where
  "EXPENSE_PALETTE =
     [''#ec4899'', ''#f43f5e'', ''#f97316'', ''#eab308'', ''#a855f7'', ''#6366f1'', ''#14b8a6'', ''#06b6d4'',
      ''#84cc16'', ''#64748b'']"

text \<open>The variables of the loop over the accounts; \<open>in_sums\<close> says which types are keys of the sums.\<close>

record tally =
  tl_sums :: "account_type \<Rightarrow> number"
  tl_rsums :: "account_type \<Rightarrow> number"
  tl_top :: "top_account list"
  tl_expense :: "share list"
  tl_income :: "share list"

definition in_sums :: "account_type \<Rightarrow> bool" where
  "in_sums ty \<longleftrightarrow> ty \<in> {ASSET, BANK, CASH, LIABILITY, CREDIT, INCOME, EXPENSE}"

definition tally_init :: tally where
  "tally_init = \<lparr>tl_sums = (\<lambda>_. zero), tl_rsums = (\<lambda>_. zero), tl_top = [], tl_expense = [], tl_income = []\<rparr>"

definition sizeable :: "number \<Rightarrow> bool" where
  "sizeable x \<longleftrightarrow> num_less (num_of (5 / 1000)) x"

definition tally_sums :: "account \<Rightarrow> tally \<Rightarrow> tally" where
  "tally_sums a st =
     (let ty = acc_type a
      in if in_sums ty then
           st\<lparr>tl_sums := (tl_sums st)(ty := num_add (tl_sums st ty) (num_or (acc_balance a) zero)),
              tl_rsums := (tl_rsums st)(ty := num_add (tl_rsums st ty) (num_or (acc_reconciled a) zero))\<rparr>
         else st)"

definition tally_account :: "account \<Rightarrow> tally \<Rightarrow> tally" where
  "tally_account a st =
     (let st = tally_sums a st;
          ty = acc_type a;
          val = num_abs (num_or (acc_balance a) zero);
          rVal = num_abs (num_or (acc_reconciled a) zero);
          top = \<lparr>ta_guid = acc_guid a, ta_name = acc_name a, ta_value = val, ta_rvalue = rVal,
                 ta_color = (if ACCOUNT_TYPE_COLORS ty \<noteq> [] then ACCOUNT_TYPE_COLORS ty else ''#64748b''), ta_type = ty\<rparr>;
          sh = \<lparr>sh_name = acc_name a, sh_value = val, sh_rvalue = rVal, sh_color = []\<rparr>
      in if acc_placeholder a \<or> ty = ROOT \<or> ty = EQUITY then st
         else st\<lparr>tl_top := tl_top st @ (if sizeable val \<or> sizeable rVal then [top] else []),
                 tl_expense := tl_expense st @ (if ty = EXPENSE \<and> sizeable val then [sh] else []),
                 tl_income := tl_income st @ (if ty = INCOME \<and> sizeable val then [sh] else [])\<rparr>)"

text \<open>\<^verbatim>\<open>b.value - a.value\<close> as the comparison\<close>

definition by_value :: "('a \<Rightarrow> number) \<Rightarrow> 'a \<Rightarrow> 'a \<Rightarrow> bool" where
  "by_value f a b \<longleftrightarrow> num_less zero (num_sub (f b) (f a))"

definition paint :: "share list \<Rightarrow> share list" where
  "paint es = map (\<lambda>(i, e). e\<lparr>sh_color := EXPENSE_PALETTE ! (i mod length EXPENSE_PALETTE)\<rparr>) (enumerate 0 es)"

definition computeDashboard :: "account list \<Rightarrow> dashboard" where
  "computeDashboard accounts =
     (let st = fold tally_account accounts tally_init; bal = tl_sums st; rBal = tl_rsums st
      in \<lparr>da_assets = num_add (num_add (bal ASSET) (bal BANK)) (bal CASH),
          da_liabilities = num_abs (num_add (bal LIABILITY) (bal CREDIT)),
          da_income = num_abs (bal INCOME), da_expenses = bal EXPENSE,
          da_rassets = num_add (num_add (rBal ASSET) (rBal BANK)) (rBal CASH),
          da_rliabilities = num_abs (num_add (rBal LIABILITY) (rBal CREDIT)),
          da_rincome = num_abs (rBal INCOME), da_rexpenses = rBal EXPENSE,
          da_top = take 10 (sort_by (by_value ta_value) (tl_top st)),
          da_expense_accounts = paint (sort_by (by_value sh_value) (tl_expense st)),
          da_income_accounts = paint (sort_by (by_value sh_value) (tl_income st))\<rparr>)"

section \<open>Charts\<close>

definition math_pi :: number where
  "math_pi = num_of (3141592653589793 / 10 ^ 15)"

text \<open>Length of the arc, the rest of the circle, the offset where the arc starts, and its colour\<close>

fun donut_arcs :: "number \<Rightarrow> number \<Rightarrow> number \<Rightarrow> (number \<times> string) list \<Rightarrow> (number \<times> number \<times> number \<times> string) list" where
  "donut_arcs circumference sum_all offset [] = []"
| "donut_arcs circumference sum_all offset ((v, color) # segs) =
     (let pct = num_div v sum_all; dashLen = num_mul pct circumference;
          dashOff = num_mul (num_neg offset) circumference
      in (dashLen, num_sub circumference dashLen, dashOff, color)
         # donut_arcs circumference sum_all (num_add offset pct) segs)"

definition SegmentDonut :: "number \<Rightarrow> number \<Rightarrow> (number \<times> string) list \<Rightarrow> (number \<times> number \<times> number \<times> string) list" where
  "SegmentDonut diameter thickness segments =
     (let r = num_div (num_sub diameter thickness) (num_of_int 2);
          circumference = num_mul (num_mul (num_of_int 2) math_pi) r;
          sum_all = num_sum (map fst segments)
      in if num_eq sum_all zero then [] else donut_arcs circumference sum_all zero segments)"

definition math_max_list :: "number list \<Rightarrow> number" where
  "math_max_list xs = foldl math_max (Infinity True) xs"

definition percent :: "number \<Rightarrow> number \<Rightarrow> number" where
  "percent v most = num_mul (num_div v most) (num_of_int 100)"

definition tiny :: "number \<Rightarrow> bool" where
  "tiny v \<longleftrightarrow> num_less (num_abs v) (num_of (5 / 1000))"

record bar =
  hb_label :: string
  hb_link :: "string option"
  hb_width :: number
  hb_color :: string
  hb_muted :: bool
  hb_text :: string

text \<open>An item is a label, a value, a colour and an optional account; without items a note is shown.\<close>

definition HorizBars ::
  "(number \<Rightarrow> string) \<Rightarrow> language \<Rightarrow> (string \<times> number \<times> string \<times> string option) list \<Rightarrow> string + bar list" where
  "HorizBars money lang items =
     (if items = [] then Inl (t lang ''dashboard.noData'')
      else (let maxVal = math_max_list (map (\<lambda>(l, v, c, g). v) items @ [num_of_int 1])
            in Inr (map (\<lambda>(l, v, c, g).
                 \<lparr>hb_label = l, hb_link = (if truthy g then Some (''/accounts/'' @ the g) else None),
                  hb_width = percent v maxVal, hb_color = c, hb_muted = tiny v, hb_text = money v\<rparr>) items)))"

text \<open>The two bars, each with its width, colour and text, and the line of the net amount\<close>

definition CashFlowBars ::
  "(number \<Rightarrow> string) \<Rightarrow> number \<Rightarrow> number \<Rightarrow> (number \<times> string \<times> string) list \<times> bool \<times> string \<times> string" where
  "CashFlowBars money income expenses =
     (let most = math_max_list [income, expenses, num_of_int 1];
          net = num_sub income expenses; up = num_le zero net
      in ([(percent income most, if tiny income then ''var(--text-muted)'' else ''var(--color-income)'', money income),
           (percent expenses most, if tiny expenses then ''var(--text-muted)'' else ''var(--color-expense)'', money expenses)],
          up, if tiny net then ''var(--text-muted)'' else if up then ''var(--color-income)'' else ''var(--color-expense)'',
          (if up then ''+'' else []) @ money net))"

text \<open>Each button with its value and whether it is the active one\<close>

definition ToggleGroup :: "language \<Rightarrow> bool \<Rightarrow> (string \<times> bool \<times> bool) list" where
  "ToggleGroup lang v = [(t lang ''dashboard.total'', False, \<not> v), (t lang ''dashboard.reconciled'', True, v)]"

text \<open>Colours of the value and of the border, and the text\<close>

definition MetricCard :: "(number \<Rightarrow> string) \<Rightarrow> number \<Rightarrow> string \<Rightarrow> string \<times> string \<times> string" where
  "MetricCard money v colorVar =
     (let isZero = tiny v
      in (if isZero then ''var(--text-muted)'' else if num_le zero v then ''var(--text-primary)'' else ''var(--color-expense)'',
          if isZero then ''var(--border-color)'' else ''var(--color-'' @ colorVar @ '')'', money v))"

section \<open>Ranges of dates\<close>

text \<open>\<^verbatim>\<open>new Date(y, m, d, h, mi, s, ms)\<close> in local milliseconds, for years from 100\<close>

definition local_ms :: "int \<Rightarrow> int \<Rightarrow> int \<Rightarrow> int \<Rightarrow> int \<Rightarrow> int \<Rightarrow> int \<Rightarrow> int" where
  "local_ms y m d h mi s ms = make_day y m d * ms_per_day + ((h * 60 + mi) * 60 + s) * 1000 + ms"

definition local_range :: "string \<Rightarrow> int \<Rightarrow> int \<Rightarrow> (int \<times> int) option" where
  "local_range rg y m =
     (if rg = ''this_month'' then Some (local_ms y m 1 0 0 0 0, local_ms y (m + 1) 0 23 59 59 999)
      else if rg = ''last_month'' then Some (local_ms y (m - 1) 1 0 0 0 0, local_ms y m 0 23 59 59 999)
      else if rg = ''this_year'' then Some (local_ms y 0 1 0 0 0 0, local_ms y 11 31 23 59 59 999)
      else if rg = ''last_year'' then Some (local_ms (y - 1) 0 1 0 0 0 0, local_ms (y - 1) 11 31 23 59 59 999)
      else None)"

definition getDateRange ::
  "(int \<Rightarrow> int) \<Rightarrow> (int \<Rightarrow> int) \<Rightarrow> int \<Rightarrow> string \<Rightarrow> string option \<times> string option" where
  "getDateRange offset to_utc now rg =
     (case civil ((now + offset now) div ms_per_day) of
        (y, m, d) \<Rightarrow> (case local_range rg y m of
                       Some (s, e) \<Rightarrow> (Some (toISOString (to_utc s)), Some (toISOString (to_utc e)))
                     | None \<Rightarrow> (None, None)))"

section \<open>The page\<close>

record dashboard_page =
  dh_accounts :: "account list"
  dh_loading :: bool
  dh_reconciled :: bool
  dh_range :: string

definition dashboard_init :: dashboard_page where
  "dashboard_init = \<lparr>dh_accounts = [], dh_loading = True, dh_reconciled = False, dh_range = ''all''\<rparr>"

text \<open>The effect runs when the page is opened and when the range has changed.\<close>

definition dashboard_load :: "(string \<Rightarrow> string option \<times> string option) \<Rightarrow> dashboard_page \<Rightarrow> dashboard_page \<times> http_request option" where
  "dashboard_load range_of st =
     (case range_of (dh_range st) of (start, end_date) \<Rightarrow> (st\<lparr>dh_loading := True\<rparr>, Some (getAccounts start end_date)))"

definition dashboard_settled :: "js_error + account list \<Rightarrow> dashboard_page \<Rightarrow> dashboard_page" where
  "dashboard_settled res st =
     (case res of Inr accounts \<Rightarrow> st\<lparr>dh_accounts := accounts, dh_loading := False\<rparr> | Inl e \<Rightarrow> st\<lparr>dh_loading := False\<rparr>)"

definition select_range ::
  "(string \<Rightarrow> string option \<times> string option) \<Rightarrow> string \<Rightarrow> dashboard_page \<Rightarrow> dashboard_page \<times> http_request option" where
  "select_range range_of rg st =
     (if rg = dh_range st then (st, None) else dashboard_load range_of (st\<lparr>dh_range := rg\<rparr>))"

definition show_reconciled :: "bool \<Rightarrow> dashboard_page \<Rightarrow> dashboard_page" where
  "show_reconciled b st = st\<lparr>dh_reconciled := b\<rparr>"

definition range_options :: "language \<Rightarrow> (string \<times> string) list" where
  "range_options lang =
     [(''all'', t lang ''dashboard.allTime''), (''this_month'', t lang ''dashboard.thisMonth''),
      (''last_month'', t lang ''dashboard.lastMonth''), (''this_year'', t lang ''dashboard.thisYear''),
      (''last_year'', t lang ''dashboard.lastYear'')]"

record shown_figures =
  sf_assets :: number
  sf_liabilities :: number
  sf_income :: number
  sf_expenses :: number
  sf_net_worth :: number
  sf_segments :: "(number \<times> string) list"
  sf_top :: "(string \<times> number \<times> string \<times> string option) list"

definition figures :: "dashboard_page \<Rightarrow> shown_figures" where
  "figures st =
     (let data = computeDashboard (dh_accounts st); r = dh_reconciled st;
          assets = (if r then da_rassets data else da_assets data);
          liab = (if r then da_rliabilities data else da_liabilities data)
      in \<lparr>sf_assets = assets, sf_liabilities = liab,
          sf_income = (if r then da_rincome data else da_income data),
          sf_expenses = (if r then da_rexpenses data else da_expenses data),
          sf_net_worth = num_sub assets liab,
          sf_segments = map (\<lambda>e. (if r then sh_rvalue e else sh_value e, sh_color e)) (da_expense_accounts data),
          sf_top = map (\<lambda>a. (ta_name a, if r then ta_rvalue a else ta_value a, ta_color a, Some (ta_guid a))) (da_top data)\<rparr>)"

text \<open>The legend beside the ring of expenses\<close>

definition legend :: "(number \<Rightarrow> string) \<Rightarrow> dashboard_page \<Rightarrow> (string \<times> string \<times> string) list" where
  "legend money st =
     map (\<lambda>e. (sh_color e, sh_name e, money (if dh_reconciled st then sh_rvalue e else sh_value e)))
       (take 6 (da_expense_accounts (computeDashboard (dh_accounts st))))"

text \<open>The overview: each pair of bars is scaled to its larger value.\<close>

definition overview_bars :: "(number \<Rightarrow> string) \<Rightarrow> language \<Rightarrow> shown_figures \<Rightarrow> (string \<times> string \<times> number \<times> string) list" where
  "overview_bars money lang f =
     (let worth = math_max_list [sf_assets f, sf_liabilities f, num_of_int 1];
          flow = math_max_list [sf_income f, sf_expenses f, num_of_int 1]
      in [(t lang ''dashboard.assets'', money (sf_assets f), percent (sf_assets f) worth, ''var(--color-income)''),
          (t lang ''dashboard.liabilities'', money (sf_liabilities f), percent (sf_liabilities f) worth, ''var(--color-expense)''),
          (t lang ''dashboard.income'', money (sf_income f), percent (sf_income f) flow, ''#8b5cf6''),
          (t lang ''dashboard.expenses'', money (sf_expenses f), percent (sf_expenses f) flow, ''#ec4899'')])"

definition overview_donut :: "shown_figures \<Rightarrow> (number \<times> number \<times> number \<times> string) list" where
  "overview_donut f =
     SegmentDonut (num_of_int 100) (num_of_int 12)
       [(sf_assets f, ''var(--color-income)''), (sf_liabilities f, ''var(--color-expense)'')]"

end
