(* ===== verification/DashboardLaws.thy ===== *)
theory DashboardLaws
  imports Dashboard JsSum AccountTreeLaws
begin

text \<open>
  The dashboard: its ranges of dates cover exactly the days they name, its figures are exact to a
  tenth of a cent, the accounts at the top are the largest, and no bar is longer than its track.
\<close>

section \<open>Ranges of dates\<close>

text \<open>The first day of a month, counted from year 0\<close>

definition month_start :: "int \<Rightarrow> int" where
  "month_start k = make_day (k div 12) (k mod 12) 1"

lemma make_day_month: "make_day y m d = month_start (12 * y + m) + d - 1"
proof -
  have "(12 * y + m) div 12 = y + m div 12" "(12 * y + m) mod 12 = m mod 12" by simp_all
  then show ?thesis by (simp add: month_start_def make_day_def Let_def)
qed

lemma month_start_step:
  "month_start (k + 1) = month_start k + month_lengths (k div 12) ! nat (k mod 12)
   \<and> 0 < month_lengths (k div 12) ! nat (k mod 12)"
proof -
  let ?y = "k div 12"
  have m: "0 \<le> k mod 12" "k mod 12 < 12" by simp_all
  have pos: "0 < month_lengths ?y ! i" if "i < 12" for i
    using that by (auto simp: month_lengths_def less_Suc_eq numeral_eq_Suc)
  show ?thesis
  proof (cases "k mod 12 = 11")
    case True
    then have "(k + 1) div 12 = ?y + 1" "(k + 1) mod 12 = 0" by presburger+
    then have "month_start (k + 1) = day_from_year (?y + 1)" by (simp add: month_start_def make_day_def)
    moreover have "month_start k = day_from_year ?y + sum_list (take 11 (month_lengths ?y))"
      by (simp add: month_start_def make_day_def True Let_def)
    moreover have "day_from_year (z + 1) = day_from_year z + sum_list (take 11 (month_lengths z)) + 31"
      and "month_lengths z ! nat 11 = 31" for z
      unfolding day_from_year_step by (simp_all add: month_lengths_def)
    note this [of ?y]
    ultimately show ?thesis unfolding True by linarith
  next
    case False
    then have s: "0 \<le> k mod 12 + 1" "k mod 12 + 1 < 12" using m by linarith+
    have "k + 1 = 12 * ?y + (k mod 12 + 1)" by simp
    then have k: "(k + 1) div 12 = ?y" "(k + 1) mod 12 = k mod 12 + 1"
      using div_pos_pos_trivial [OF s] mod_pos_pos_trivial [OF s] by (metis add_0_right div_mult_self4 zero_neq_numeral, metis mod_mult_self4)
    have len: "nat (k mod 12) < length (month_lengths ?y)" using m by (simp add: month_lengths_def)
    have "nat (k mod 12 + 1) = Suc (nat (k mod 12))" using m by simp
    moreover have "k mod 12 mod 12 = k mod 12" "(k mod 12 + 1) mod 12 = k mod 12 + 1" "k mod 12 div 12 = 0" "(k mod 12 + 1) div 12 = 0"
      using m False by (simp_all add: div_pos_pos_trivial mod_pos_pos_trivial)
    ultimately show ?thesis
      using pos [of "nat (k mod 12)"] m
      by (simp add: month_start_def make_day_def Let_def k take_Suc_conv_app_nth [OF len])
  qed
qed

lemma month_start_less: "j < k \<Longrightarrow> month_start j < month_start k"
proof (induction rule: int_gr_induct)
  case base
  then show ?case using month_start_step [of j] by simp
next
  case (step k)
  then show ?case using month_start_step [of k] by simp
qed

text \<open>A day lies between the first days of two months exactly when its month does.\<close>

lemma civil_month:
  assumes "civil n = (y, m, d)"
  shows "month_start k \<le> n \<longleftrightarrow> k \<le> 12 * y + m"
proof -
  note c = make_day_civil [OF assms]
  let ?j = "12 * y + m"
  have n: "n = month_start ?j + d - 1" using c(1) make_day_month [of y m d] by simp
  have "?j div 12 = y" "?j mod 12 = m" using c(2) by auto
  then have "month_start ?j \<le> n" "n < month_start (?j + 1)" using c(3) month_start_step [of ?j] n by simp_all
  then show ?thesis
    using month_start_less [of ?j k] month_start_less [of "k" ?j] month_start_less [of "?j + 1" k]
    by (cases "k < ?j \<or> k = ?j"; cases "k = ?j + 1") auto
qed

lemma local_range_days:
  assumes "local_range rg y m = Some (s, e)"
  obtains j k where "s = month_start j * ms_per_day" and "e = month_start k * ms_per_day - 1"
    and "(rg = ''this_month'' \<and> j = 12 * y + m \<and> k = j + 1) \<or> (rg = ''last_month'' \<and> j = 12 * y + m - 1 \<and> k = j + 1)
      \<or> (rg = ''this_year'' \<and> j = 12 * y \<and> k = j + 12) \<or> (rg = ''last_year'' \<and> j = 12 * (y - 1) \<and> k = j + 12)"
proof -
  have dec: "month_start (12 * z + 11) + 30 = month_start (12 * z + 12) - 1" for z
    using month_start_step [of "12 * z + 11"] by (simp add: month_lengths_def add.commute)
  show thesis
  proof (cases "rg = ''this_month'' \<or> rg = ''last_month''")
    case True
    with assms show thesis
      by (intro that [of "12 * y + m - (if rg = ''this_month'' then 0 else 1)" "12 * y + m - (if rg = ''this_month'' then 0 else 1) + 1"])
        (auto simp: local_range_def local_ms_def make_day_month ms_per_day_def algebra_simps split: if_splits)
  next
    case False
    let ?z = "if rg = ''this_year'' then y else y - 1"
    from False assms show thesis
      using dec [of ?z]
      by (intro that [of "12 * ?z" "12 * ?z + 12"])
        (auto simp: local_range_def local_ms_def make_day_month ms_per_day_def algebra_simps split: if_splits)
  qed
qed

lemma scaled_le:
  fixes n :: int
  assumes "0 \<le> tod" and "tod < unit"
  shows "j * unit \<le> n * unit + tod \<longleftrightarrow> j \<le> n"
proof
  assume "j \<le> n"
  then have "j * unit \<le> n * unit" using assms by (intro mult_right_mono) auto
  with assms show "j * unit \<le> n * unit + tod" by linarith
next
  assume le: "j * unit \<le> n * unit + tod"
  show "j \<le> n"
  proof (rule ccontr)
    assume "\<not> j \<le> n"
    then have "(n + 1) * unit \<le> j * unit" using assms by (intro mult_right_mono) auto
    with le assms show False by (simp add: distrib_right)
  qed
qed

lemma year_between:
  fixes y y' m' :: int
  assumes "0 \<le> m' \<and> m' < 12"
  shows "12 * y \<le> 12 * y' + m' \<and> 12 * y' + m' < 12 * y + 12 \<longleftrightarrow> y' = y"
proof
  assume "12 * y \<le> 12 * y' + m' \<and> 12 * y' + m' < 12 * y + 12"
  with assms show "y' = y" by linarith
qed (use assms in simp)

lemma month_between:
  fixes y m y' m' :: int
  assumes "0 \<le> m \<and> m < 12" and "0 \<le> m' \<and> m' < 12"
  shows "12 * y + m \<le> 12 * y' + m' \<and> 12 * y' + m' < 12 * y + m + 1 \<longleftrightarrow> y' = y \<and> m' = m"
proof
  assume *: "12 * y + m \<le> 12 * y' + m' \<and> 12 * y' + m' < 12 * y + m + 1"
  with assms have "y' = y" by linarith
  with * show "y' = y \<and> m' = m" by linarith
qed simp

lemma months_between:
  fixes y m y' m' :: int
  assumes "0 \<le> m \<and> m < 12" and "0 \<le> m' \<and> m' < 12"
  shows "12 * y + m \<le> 12 * y' + m' \<and> 12 * y' + m' < 12 * y + m + 1 \<longleftrightarrow> y' = y \<and> m' = m"
    and "12 * y + m - 1 \<le> 12 * y' + m' \<and> 12 * y' + m' < 12 * y + m - 1 + 1 \<longleftrightarrow>
      (if m = 0 then y' = y - 1 \<and> m' = 11 else y' = y \<and> m' = m - 1)"
    and "12 * y \<le> 12 * y' + m' \<and> 12 * y' + m' < 12 * y + 12 \<longleftrightarrow> y' = y"
    and "12 * (y - 1) \<le> 12 * y' + m' \<and> 12 * y' + m' < 12 * (y - 1) + 12 \<longleftrightarrow> y' = y - 1"
  using month_between [OF assms, of y y'] month_between [of 11 m' "y - 1" y'] month_between [of "m - 1" m' y y']
    year_between [OF assms(2), of y y'] year_between [OF assms(2), of "y - 1" y'] assms
  by (simp_all add: algebra_simps)

text \<open>
  C37. The range chosen on the dashboard covers exactly the moments of the month or year it names:
  from its first to its last millisecond in local time, across the ends of years and in leap
  years.
\<close>

theorem date_ranges:
  assumes "civil today = (y, m, d)" and "local_range rg y m = Some (s, e)"
    and "civil n = (y', m', d')" and "0 \<le> tod" and "tod < ms_per_day"
  shows "s \<le> n * ms_per_day + tod \<and> n * ms_per_day + tod \<le> e \<longleftrightarrow>
    rg = ''this_month'' \<and> y' = y \<and> m' = m
    \<or> rg = ''last_month'' \<and> (if m = 0 then y' = y - 1 \<and> m' = 11 else y' = y \<and> m' = m - 1)
    \<or> rg = ''this_year'' \<and> y' = y \<or> rg = ''last_year'' \<and> y' = y - 1"
proof -
  obtain j k where jk: "s = month_start j * ms_per_day" "e = month_start k * ms_per_day - 1"
    and rg: "(rg = ''this_month'' \<and> j = 12 * y + m \<and> k = j + 1) \<or> (rg = ''last_month'' \<and> j = 12 * y + m - 1 \<and> k = j + 1)
      \<or> (rg = ''this_year'' \<and> j = 12 * y \<and> k = j + 12) \<or> (rg = ''last_year'' \<and> j = 12 * (y - 1) \<and> k = j + 12)"
    by (rule local_range_days [OF assms(2)])
  have "s \<le> n * ms_per_day + tod \<longleftrightarrow> month_start j \<le> n" "n * ms_per_day + tod \<le> e \<longleftrightarrow> \<not> month_start k \<le> n"
    using scaled_le [OF assms(4,5), of "month_start j" n] scaled_le [OF assms(4,5), of "month_start k" n]
    unfolding jk by linarith+
  then have "s \<le> n * ms_per_day + tod \<and> n * ms_per_day + tod \<le> e \<longleftrightarrow> j \<le> 12 * y' + m' \<and> 12 * y' + m' < k"
    unfolding civil_month [OF assms(3)] by auto
  moreover have "0 \<le> m \<and> m < 12" "0 \<le> m' \<and> m' < 12"
    using make_day_civil(2) [OF assms(1)] make_day_civil(2) [OF assms(3)] by simp_all
  note months_between [OF this, of y y']
  ultimately show ?thesis using rg by (elim disjE conjE) simp_all
qed

theorem date_ranges_witness:
  "\<exists>s e. local_range ''last_month'' 2024 0 = Some (s, e) \<and> s \<le> 19722 * ms_per_day + 5 \<and> 19722 * ms_per_day + 5 \<le> e"
proof -
  have days: "civil 19737 = (2024, 0, 15)" "civil 19722 = (2023, 11, 31)" by code_simp+
  obtain s e where r: "local_range ''last_month'' 2024 0 = Some (s, e)" by (simp add: local_range_def)
  show ?thesis using date_ranges [OF days(1) r days(2), of 5] r by (simp add: ms_per_day_def)
qed

section \<open>Figures\<close>

definition owned :: "account_type \<Rightarrow> account list \<Rightarrow> account list" where
  "owned ty = filter (\<lambda>a. acc_type a = ty)"

text \<open>The balance of the view that is shown, all of it or the reconciled part, and its sums\<close>

definition view_balance :: "bool \<Rightarrow> account \<Rightarrow> number" where
  "view_balance r a = (if r then acc_reconciled a else acc_balance a)"

definition view_sums :: "bool \<Rightarrow> tally \<Rightarrow> account_type \<Rightarrow> number" where
  "view_sums r st = (if r then tl_rsums st else tl_sums st)"

lemma tally_account_sums:
  "in_sums ty \<Longrightarrow> view_sums r (tally_account a st) ty =
     (if acc_type a = ty then num_add (view_sums r st ty) (num_or (view_balance r a) zero) else view_sums r st ty)"
  by (auto simp: tally_account_def tally_sums_def view_sums_def view_balance_def Let_def)

lemma tally_sums_fold:
  assumes "in_sums ty"
  shows "view_sums r (fold tally_account as st) ty
       = foldl num_add (view_sums r st ty) (map (\<lambda>a. num_or (view_balance r a) zero) (owned ty as))"
  by (induction as arbitrary: st) (simp_all add: owned_def tally_account_sums [OF assms])

lemma near_abs: "near x q d \<Longrightarrow> near (num_abs x) \<bar>q\<bar> d"
proof -
  assume x: "near x q d"
  then obtain s m where m: "x = Num s m" "0 \<le> m" by (cases x) (auto simp: near_def double_mag_nonneg)
  then have "num_val (num_abs x) = \<bar>num_val x\<bar>" by simp
  then show ?thesis using x m abs_triangle_ineq3 [of "num_val x" q] by (simp add: near_def)
qed

text \<open>Adding up numbers that each have an error of their own\<close>

lemma near_foldl_errors:
  assumes "near a p d" and "\<And>x. x \<in> set xs \<Longrightarrow> near (f x) (q x) (e x)"
    and "\<bar>p\<bar> + (\<Sum>x\<leftarrow>xs. \<bar>q x\<bar>) + d + (\<Sum>x\<leftarrow>xs. e x) + of_nat (length xs) / 2 ^ 24 < 2 ^ 30"
  shows "near (foldl num_add a (map f xs)) (p + (\<Sum>x\<leftarrow>xs. q x)) (d + (\<Sum>x\<leftarrow>xs. e x) + of_nat (length xs) / 2 ^ 24)"
  using assms
proof (induction xs arbitrary: a p d)
  case (Cons x xs)
  define S E L where "S = (\<Sum>x\<leftarrow>xs. \<bar>q x\<bar>)" and "E = (\<Sum>x\<leftarrow>xs. e x)" and "L = (of_nat (length xs) :: rat)"
  have "0 \<le> e y" if "y \<in> set xs" for y using Cons.prems(2) [of y] that by (auto simp: near_def)
  then have S: "0 \<le> S" "0 \<le> E" "0 \<le> L" by (auto simp: S_def E_def L_def intro!: sum_list_nonneg)
  have hyp: "\<bar>p\<bar> + (\<bar>q x\<bar> + S) + d + (e x + E) + (1 + L) / 2 ^ 24 < 2 ^ 30"
    using Cons.prems(3) by (simp add: S_def E_def L_def)
  have tri: "\<bar>p + q x\<bar> \<le> \<bar>p\<bar> + \<bar>q x\<bar>" by (rule abs_triangle_ineq)
  have step: "near (num_add a (f x)) (p + q x) (d + e x + 1 / 2 ^ 24)"
    using Cons.prems(1,2) hyp tri S by (intro near_add) (auto simp: add_divide_distrib)
  have "near (foldl num_add (num_add a (f x)) (map f xs)) (p + q x + (\<Sum>x\<leftarrow>xs. q x))
      (d + e x + 1 / 2 ^ 24 + (\<Sum>x\<leftarrow>xs. e x) + of_nat (length xs) / 2 ^ 24)"
    using Cons.prems(2) hyp tri
    by (intro Cons.IH [OF step]) (auto simp: add_divide_distrib S_def E_def L_def)
  from near_weaken [OF this, of "p + (\<Sum>x\<leftarrow>x # xs. q x)" "d + (\<Sum>x\<leftarrow>x # xs. e x) + of_nat (length (x # xs)) / 2 ^ 24"]
  show ?case by (simp add: add_divide_distrib)
qed simp

text \<open>The exact sum over the accounts of a type\<close>

definition exact_sum :: "(account \<Rightarrow> rat) \<Rightarrow> account_type \<Rightarrow> account list \<Rightarrow> rat" where
  "exact_sum q ty as = (\<Sum>a\<leftarrow>owned ty as. q a)"

text \<open>
  The balances the server sent: for each account \<open>a\<close> its balance in the book is \<open>q a\<close>, and the
  number sent, a sum of doubles, is at most \<open>e a\<close> off. There are at most a thousand
  accounts, their balances add up to at most \<open>2\<^sup>2\<^sup>6\<close> units, and the errors to at most \<open>2\<^sup>-\<^sup>1\<^sup>4\<close>, less
  than a hundredth of a cent.
\<close>

definition balances_sent :: "bool \<Rightarrow> (account \<Rightarrow> rat) \<Rightarrow> (account \<Rightarrow> rat) \<Rightarrow> account list \<Rightarrow> bool" where
  "balances_sent r q e as \<longleftrightarrow>
     (\<forall>a\<in>set as. near (view_balance r a) (q a) (e a)) \<and> length as \<le> 1000
     \<and> (\<Sum>a\<leftarrow>as. \<bar>q a\<bar>) \<le> 2 ^ 26 \<and> (\<Sum>a\<leftarrow>as. e a) \<le> 1 / 2 ^ 14"

lemma owned_sum_le:
  fixes f :: "account \<Rightarrow> rat"
  assumes "\<forall>a\<in>set as. 0 \<le> f a"
  shows "(\<Sum>a\<leftarrow>owned ty as. f a) \<le> (\<Sum>a\<leftarrow>as. f a)"
  using assms unfolding owned_def by (induction as) (auto intro: add_increasing)

lemma owned_subset: "set (owned ty as) \<subseteq> set as"
  by (auto simp: owned_def)

lemma sum_list_abs_le:
  fixes f :: "'a \<Rightarrow> rat"
  shows "\<bar>\<Sum>x\<leftarrow>xs. f x\<bar> \<le> (\<Sum>x\<leftarrow>xs. \<bar>f x\<bar>)"
  by (induction xs) (auto intro: order_trans [OF abs_triangle_ineq])

lemma exact_sum_bound:
  assumes "balances_sent r q e as"
  shows "\<bar>exact_sum q ty as\<bar> \<le> 2 ^ 26"
  using sum_list_abs_le [of q "owned ty as"] owned_sum_le [of as "\<lambda>a. \<bar>q a\<bar>" ty] assms
  by (simp add: exact_sum_def balances_sent_def)

lemma near_type:
  assumes "balances_sent r q e as" and "in_sums ty"
  shows "near (view_sums r (fold tally_account as tally_init) ty) (exact_sum q ty as) (1 / 2 ^ 13)"
proof -
  let ?xs = "owned ty as"
  have "length ?xs \<le> length as" unfolding owned_def by (rule length_filter_le)
  then have "length ?xs \<le> 1000" using assms(1) by (simp add: balances_sent_def)
  then have "(of_nat (length ?xs) :: rat) \<le> of_nat 1000" by (simp only: of_nat_le_iff)
  then have l: "(of_nat (length ?xs) :: rat) / 2 ^ 24 \<le> 1 / 2 ^ 14" by simp
  have n: "\<forall>a\<in>set as. near (num_or (view_balance r a) zero) (q a) (e a)"
    using assms(1) near_or by (auto simp: balances_sent_def)
  then have "\<forall>a\<in>set as. 0 \<le> e a" by (auto simp: near_def)
  then have e: "(\<Sum>a\<leftarrow>?xs. e a) \<le> 1 / 2 ^ 14"
    using owned_sum_le [of as e ty] assms(1) by (simp add: balances_sent_def)
  have s: "(\<Sum>a\<leftarrow>?xs. \<bar>q a\<bar>) \<le> 2 ^ 26"
    using owned_sum_le [of as "\<lambda>a. \<bar>q a\<bar>" ty] assms(1) by (simp add: balances_sent_def)
  have "near (foldl num_add zero (map (\<lambda>a. num_or (view_balance r a) zero) ?xs)) (0 + (\<Sum>a\<leftarrow>?xs. q a))
      (0 + (\<Sum>a\<leftarrow>?xs. e a) + of_nat (length ?xs) / 2 ^ 24)"
    using l e s n owned_subset [of ty as] by (intro near_foldl_errors near_zero) auto
  moreover have "view_sums r tally_init ty = zero" by (simp add: view_sums_def tally_init_def)
  ultimately show ?thesis
    unfolding tally_sums_fold [OF assms(2)] using l e by (simp add: exact_sum_def near_mono)
qed

text \<open>
  C38. In both views of the dashboard, all balances or only what is reconciled, the figures are within
  a tenth of a cent of the exact sums of the balances of the view, whatever the rounding. The net
  worth is what the assets exceed the liabilities by while these are owed; but when they are
  overpaid, so that their balance is positive, it is taken off the assets instead of being
  added. Conditions: the balances sent are as in \<open>balances_sent\<close>, that is at most a thousand accounts
  whose balances in the view add up, without signs, to at most \<open>2\<^sup>2\<^sup>6\<close> units, and rounding
  errors of the server of together at most \<open>2\<^sup>-\<^sup>1\<^sup>4\<close>; the balances need not be whole cents.
\<close>

theorem figures_near_exact:
  assumes "balances_sent (dh_reconciled st) q e (dh_accounts st)"
  defines "sum_of ty \<equiv> exact_sum q ty (dh_accounts st)"
  shows "near (sf_assets (figures st)) (sum_of ASSET + sum_of BANK + sum_of CASH) (1 / 1000)
    \<and> near (sf_liabilities (figures st)) \<bar>sum_of LIABILITY + sum_of CREDIT\<bar> (1 / 1000)
    \<and> near (sf_income (figures st)) \<bar>sum_of INCOME\<bar> (1 / 1000)
    \<and> near (sf_expenses (figures st)) (sum_of EXPENSE) (1 / 1000)
    \<and> near (sf_net_worth (figures st))
        (sum_of ASSET + sum_of BANK + sum_of CASH
          + (if sum_of LIABILITY + sum_of CREDIT \<le> 0 then sum_of LIABILITY + sum_of CREDIT
             else - (sum_of LIABILITY + sum_of CREDIT))) (1 / 1000)"
proof -
  let ?t = "view_sums (dh_reconciled st) (fold tally_account (dh_accounts st) tally_init)"
  have n: "near (?t ty) (sum_of ty) (1 / 2 ^ 13)" if "in_sums ty" for ty
    unfolding sum_of_def using assms(1) that by (rule near_type)
  have b: "\<bar>sum_of ty\<bar> \<le> 2 ^ 26" for ty unfolding sum_of_def by (rule exact_sum_bound [OF assms(1)])
  have ab: "near (num_add (?t ASSET) (?t BANK)) (sum_of ASSET + sum_of BANK) (1 / 2 ^ 13 + 1 / 2 ^ 13 + 1 / 2 ^ 24)"
    using b [of ASSET] b [of BANK] by (intro near_add n) (auto simp: in_sums_def abs_le_iff abs_less_iff)
  have abc: "near (num_add (num_add (?t ASSET) (?t BANK)) (?t CASH)) (sum_of ASSET + sum_of BANK + sum_of CASH)
      (1 / 2 ^ 13 + 1 / 2 ^ 13 + 1 / 2 ^ 24 + 1 / 2 ^ 13 + 1 / 2 ^ 24)"
    using b [of ASSET] b [of BANK] b [of CASH] by (intro near_add n ab) (auto simp: in_sums_def)
  have lc: "near (num_abs (num_add (?t LIABILITY) (?t CREDIT))) \<bar>sum_of LIABILITY + sum_of CREDIT\<bar>
      (1 / 2 ^ 13 + 1 / 2 ^ 13 + 1 / 2 ^ 24)"
    using b [of LIABILITY] b [of CREDIT] by (intro near_abs near_add n) (auto simp: in_sums_def)
  have net: "near (num_sub (num_add (num_add (?t ASSET) (?t BANK)) (?t CASH)) (num_abs (num_add (?t LIABILITY) (?t CREDIT))))
      (sum_of ASSET + sum_of BANK + sum_of CASH - \<bar>sum_of LIABILITY + sum_of CREDIT\<bar>)
      (1 / 2 ^ 13 + 1 / 2 ^ 13 + 1 / 2 ^ 24 + 1 / 2 ^ 13 + 1 / 2 ^ 24 + (1 / 2 ^ 13 + 1 / 2 ^ 13 + 1 / 2 ^ 24) + 1 / 2 ^ 24)"
    using b [of ASSET] b [of BANK] b [of CASH] b [of LIABILITY] b [of CREDIT] by (intro near_sub abc lc) auto
  have f: "sf_assets (figures st) = num_add (num_add (?t ASSET) (?t BANK)) (?t CASH)"
    "sf_liabilities (figures st) = num_abs (num_add (?t LIABILITY) (?t CREDIT))"
    "sf_income (figures st) = num_abs (?t INCOME)" "sf_expenses (figures st) = ?t EXPENSE"
    "sf_net_worth (figures st) = num_sub (num_add (num_add (?t ASSET) (?t BANK)) (?t CASH)) (num_abs (num_add (?t LIABILITY) (?t CREDIT)))"
    by (simp_all add: figures_def computeDashboard_def view_sums_def Let_def)
  show ?thesis
    unfolding f
  proof (intro conjI)
    show "near (num_add (num_add (?t ASSET) (?t BANK)) (?t CASH)) (sum_of ASSET + sum_of BANK + sum_of CASH) (1 / 1000)"
      by (rule near_mono [OF abc]) simp
    show "near (num_abs (num_add (?t LIABILITY) (?t CREDIT))) \<bar>sum_of LIABILITY + sum_of CREDIT\<bar> (1 / 1000)"
      by (rule near_mono [OF lc]) simp
    show "near (num_abs (?t INCOME)) \<bar>sum_of INCOME\<bar> (1 / 1000)"
      by (rule near_mono [OF near_abs [OF n]]) (simp_all add: in_sums_def)
    show "near (?t EXPENSE) (sum_of EXPENSE) (1 / 1000)"
      by (rule near_mono [OF n]) (simp_all add: in_sums_def)
  qed (rule near_weaken [OF net], simp_all)
qed

text \<open>
  A bank account with fifty units and a credit card overpaid by ten, of which thirty and four are
  reconciled
\<close>

definition overpaid :: "account list" where
  "overpaid = [(sample_account ''b'' None BANK 0)\<lparr>acc_balance := cents 5000, acc_reconciled := cents 3000\<rparr>,
               (sample_account ''c'' None CREDIT 0)\<lparr>acc_balance := cents 1000, acc_reconciled := cents 400\<rparr>]"

theorem figures_near_exact_witness:
  "near (sf_net_worth (figures (dashboard_init\<lparr>dh_accounts := overpaid\<rparr>))) 40 (1 / 1000)
   \<and> near (sf_net_worth (figures (dashboard_init\<lparr>dh_accounts := overpaid, dh_reconciled := True\<rparr>))) 26 (1 / 1000)"
proof -
  let ?all = "\<lambda>a. if acc_type a = BANK then 50 else 10 :: rat"
    and ?rec = "\<lambda>a. if acc_type a = BANK then 30 else 4 :: rat" and ?e = "\<lambda>_ :: account. 1 / 2 ^ 24 :: rat"
  have "near (cents 5000) 50 (1 / 2 ^ 24)" "near (cents 1000) 10 (1 / 2 ^ 24)"
    "near (cents 3000) 30 (1 / 2 ^ 24)" "near (cents 400) 4 (1 / 2 ^ 24)"
    using near_cents [of 5000] near_cents [of 1000] near_cents [of 3000] near_cents [of 400] by simp_all
  then have "balances_sent False ?all ?e overpaid" "balances_sent True ?rec ?e overpaid"
    by (simp_all add: balances_sent_def view_balance_def overpaid_def sample_account_def)
  then show ?thesis
    using figures_near_exact [of "dashboard_init\<lparr>dh_accounts := overpaid\<rparr>" ?all ?e]
      figures_near_exact [of "dashboard_init\<lparr>dh_accounts := overpaid, dh_reconciled := True\<rparr>" ?rec ?e]
    by (simp add: exact_sum_def owned_def overpaid_def sample_account_def dashboard_init_def)
qed

section \<open>The largest accounts\<close>

definition usual :: "number \<Rightarrow> bool" where
  "usual x \<longleftrightarrow> is_finite x \<and> is_double x"

text \<open>Different doubles differ by at least the smallest positive one, so that their difference has the right sign.\<close>

lemma double_mag_unit:
  assumes "double_mag q"
  shows "\<exists>n. q = of_int n * 2 powi - 1074"
proof -
  from assms obtain m e where "q = of_int m * 2 powi e" "- 1074 \<le> e" by (auto simp: double_mag_def)
  then show ?thesis using of_int_powi_multiple [of "- 1074" e m] by simp
qed

lemma usual_unit: "usual x \<Longrightarrow> \<exists>n. num_val x = of_int n * 2 powi - 1074"
proof -
  assume "usual x"
  then obtain s m where x: "x = Num s m" "double_mag m" by (cases x) (auto simp: usual_def)
  obtain n where "m = of_int n * 2 powi - 1074" using double_mag_unit [OF x(2)] by blast
  then show ?thesis by (intro exI [of _ "if s then - n else n"]) (simp add: x)
qed

lemma unit_positive: "0 < round_mag (of_int n * 2 powi - 1074)" if "0 < n"
proof -
  have "(2 :: rat) powi - 1074 \<le> of_int n * 2 powi - 1074"
    using that by (simp del: power_int_numeral_neg_numeral)
  then have "round_mag (2 powi - 1074) \<le> round_mag (of_int n * 2 powi - 1074)"
    by (intro round_mag_mono) (simp_all del: power_int_numeral_neg_numeral)
  moreover have "\<not> overflows (2 powi - 1074)"
    by (rule not_overflows) (simp only: two_powi_less_iff)
  then have "double_mag (2 powi - 1074)" by (intro double_magI [of _ 1 "- 1074"]) simp_all
  then have "round_mag (2 powi - 1074) = 2 powi - 1074" by (simp del: power_int_numeral_neg_numeral)
  ultimately show ?thesis using two_powi_pos [of "- 1074"] by linarith
qed

lemma sub_sign:
  assumes "usual x" and "usual y"
  shows "num_less zero (num_sub x y) \<longleftrightarrow> num_val y < num_val x"
proof -
  obtain s m u n where xy: "x = Num s m" "y = Num u n" using assms by (cases x; cases y) (auto simp: usual_def)
  define v where "v = num_val x - num_val y"
  obtain i j where "num_val x = of_int i * 2 powi - 1074" "num_val y = of_int j * 2 powi - 1074"
    using usual_unit assms by meson
  then have v: "v = of_int (i - j) * 2 powi - 1074" by (simp add: v_def left_diff_distrib del: power_int_numeral_neg_numeral)
  have sub: "num_sub x y = (if v = 0 then Num (s \<and> \<not> u) 0 else num_of v)"
    by (simp add: num_sub_def xy v_def Let_def)
  consider "v = 0" | "0 < v" | "v < 0" by linarith
  then show ?thesis
  proof cases
    case 2
    then have "0 < (of_int (i - j) :: rat)" unfolding v by (rule zero_less_mult_pos2) (rule two_powi_pos)
    then have "0 < i - j" by (simp only: of_int_0_less_iff)
    then have "0 < round_mag \<bar>v\<bar>" using unit_positive [of "i - j"] 2 by (simp add: v)
    with 2 show ?thesis by (simp add: sub num_of_def num_of_mag_def Let_def v_def)
  next
    case 3
    moreover have "\<not> round_mag \<bar>v\<bar> < 0" by (simp add: not_less)
    ultimately show ?thesis by (simp add: sub num_of_def num_of_mag_def Let_def v_def)
  qed (simp add: sub v_def)
qed

interpretation by_size: comparator "by_value f" "\<lambda>x. usual (f x)"
  by (rule key_comparator [where key = "\<lambda>x. - num_val (f x)"]) (simp add: by_value_def sub_sign)

definition size_of :: "account \<Rightarrow> number" where
  "size_of a = num_abs (num_or (acc_balance a) zero)"

definition listed :: "account \<Rightarrow> bool" where
  "listed a \<longleftrightarrow> \<not> acc_placeholder a \<and> acc_type a \<notin> {ROOT, EQUITY}
     \<and> (sizeable (size_of a) \<or> sizeable (num_abs (num_or (acc_reconciled a) zero)))"

definition top_of :: "account \<Rightarrow> top_account" where
  "top_of a =
     \<lparr>ta_guid = acc_guid a, ta_name = acc_name a, ta_value = size_of a,
      ta_rvalue = num_abs (num_or (acc_reconciled a) zero), ta_color = ACCOUNT_TYPE_COLORS (acc_type a), ta_type = acc_type a\<rparr>"

lemma tally_top: "tl_top (fold tally_account as st) = tl_top st @ map top_of (filter listed as)"
proof (induction as arbitrary: st)
  case (Cons a as)
  have "ACCOUNT_TYPE_COLORS (acc_type a) \<noteq> []" by (cases "acc_type a") simp_all
  then have "tl_top (tally_account a st) = tl_top st @ (if listed a then [top_of a] else [])"
    by (auto simp: tally_account_def tally_sums_def Let_def listed_def top_of_def size_of_def)
  with Cons show ?case by simp
qed simp

lemma usual_size: "usual (acc_balance a) \<Longrightarrow> usual (size_of a) \<and> num_val (size_of a) = \<bar>num_val (acc_balance a)\<bar>"
  by (cases "acc_balance a") (auto simp: usual_def size_of_def num_or_def double_mag_nonneg)

text \<open>
  C39. The accounts at the top of the dashboard are at most ten, in descending order of the size of
  their balances; every one is an account in use, and none is shown twice; and an account in use
  that is not shown is no larger than any of the ten shown.
\<close>

theorem top_accounts_largest:
  assumes "\<forall>a\<in>set as. usual (acc_balance a)"
  defines "tops \<equiv> da_top (computeDashboard as)"
  shows "length tops \<le> 10
    \<and> sorted_wrt (\<lambda>x y. num_val (ta_value y) \<le> num_val (ta_value x)) tops
    \<and> (\<forall>x\<in>set tops. \<exists>a\<in>set as. listed a \<and> x = top_of a)
    \<and> (distinct (map acc_guid as) \<longrightarrow> distinct (map ta_guid tops))
    \<and> (\<forall>a\<in>set as. listed a \<and> top_of a \<notin> set tops \<longrightarrow>
        length tops = 10 \<and> (\<forall>x\<in>set tops. \<bar>num_val (acc_balance a)\<bar> \<le> num_val (ta_value x)))"
proof -
  let ?all = "map top_of (filter listed as)"
  let ?sorted = "sort_by (by_value ta_value) ?all"
  have tops: "tops = take 10 ?sorted"
    by (simp add: tops_def computeDashboard_def Let_def tally_top tally_init_def)
  have usual: "\<forall>x\<in>set ?all. usual (ta_value x)" using assms(1) by (auto simp: top_of_def usual_size)
  then have "sorted_wrt (\<lambda>x y. \<not> by_value ta_value x y) ?sorted" by (rule by_size.sorted_sort_by)
  then have sorted: "sorted_wrt (\<lambda>x y. num_val (ta_value y) \<le> num_val (ta_value x)) ?sorted"
    by (rule sorted_wrt_mono_rel [rotated]) (use usual in \<open>auto simp: by_value_def sub_sign\<close>)
  have rest: "length tops = 10 \<and> (\<forall>x\<in>set tops. \<bar>num_val (acc_balance a)\<bar> \<le> num_val (ta_value x))"
    if a: "a \<in> set as" "listed a" "top_of a \<notin> set tops" for a
  proof -
    have "top_of a \<in> set ?sorted" using a by simp
    then have "top_of a \<in> set (drop 10 ?sorted)" using a(3) unfolding tops by (metis Un_iff append_take_drop_id set_append)
    moreover have "sorted_wrt (\<lambda>x y. num_val (ta_value y) \<le> num_val (ta_value x)) (tops @ drop 10 ?sorted)"
      using sorted by (simp add: tops)
    ultimately have "\<forall>x\<in>set tops. num_val (ta_value (top_of a)) \<le> num_val (ta_value x)" "length ?sorted > 10"
      unfolding sorted_wrt_append by (blast, cases "length ?sorted \<le> 10") auto
    moreover have "num_val (ta_value (top_of a)) = \<bar>num_val (acc_balance a)\<bar>"
      using assms(1) a(1) by (simp add: top_of_def usual_size)
    ultimately show ?thesis by (simp add: tops)
  qed
  have "\<forall>x\<in>set tops. \<exists>a\<in>set as. listed a \<and> x = top_of a"
    using in_set_takeD [of _ 10 ?sorted] by (fastforce simp: tops)
  moreover have "distinct (map ta_guid tops)" if "distinct (map acc_guid as)"
  proof -
    have same: "map ta_guid ?all = map acc_guid (filter listed as)" by (simp add: top_of_def)
    have "distinct (map ta_guid ?all)" unfolding same using that by (rule distinct_map_filter)
    moreover have "mset (map ta_guid ?sorted) = mset (map ta_guid ?all)" by (simp only: mset_map mset_sort_by)
    ultimately have "distinct (map ta_guid ?sorted)" using mset_eq_imp_distinct_iff by blast
    then show ?thesis unfolding tops take_map [symmetric] by (rule distinct_take)
  qed
  ultimately show ?thesis using rest sorted_wrt_take [OF sorted, of 10] by (simp add: tops)
qed

theorem top_accounts_largest_witness:
  "sorted_wrt (\<lambda>x y. num_val (ta_value y) \<le> num_val (ta_value x)) (da_top (computeDashboard overpaid))"
proof -
  have "usual (cents 5000)" "usual (cents 1000)"
    using cents_double [of 5000] cents_double [of 1000] cents_mag(1) [of 5000] cents_mag(1) [of 1000]
    by (simp_all add: usual_def)
  then have "\<forall>a\<in>set overpaid. usual (acc_balance a)" by (simp add: overpaid_def)
  from top_accounts_largest [OF this] show ?thesis by simp
qed

section \<open>Bars\<close>

lemma max_usual:
  assumes "usual x" and "usual y"
  shows "usual (math_max x y) \<and> num_val x \<le> num_val (math_max x y) \<and> num_val y \<le> num_val (math_max x y)"
  using assms by (cases x; cases y) (auto simp: usual_def math_max_def)

lemma foldl_max_usual:
  "usual m \<Longrightarrow> \<forall>x\<in>set xs. usual x \<Longrightarrow>
   usual (foldl math_max m xs) \<and> (\<forall>x\<in>insert m (set xs). num_val x \<le> num_val (foldl math_max m xs))"
proof (induction xs arbitrary: m)
  case (Cons x xs)
  have "usual (foldl math_max (math_max m x) xs)
      \<and> (\<forall>z\<in>insert (math_max m x) (set xs). num_val z \<le> num_val (foldl math_max (math_max m x) xs))"
    using Cons.prems by (intro Cons.IH) (simp_all add: max_usual)
  with max_usual [of m x] Cons.prems show ?case by fastforce
qed simp

lemma max_list_usual:
  assumes "\<forall>x\<in>set xs. usual x" and "xs \<noteq> []"
  shows "usual (math_max_list xs) \<and> (\<forall>x\<in>set xs. num_val x \<le> num_val (math_max_list xs))"
proof -
  obtain y ys where xs: "xs = y # ys" using assms(2) by (cases xs) auto
  then have "math_max (Infinity True) y = y" using assms(1) by (cases y) (auto simp: usual_def math_max_def)
  then show ?thesis using foldl_max_usual [of y ys] assms(1) by (simp add: math_max_list_def xs)
qed

text \<open>A part of a whole, in percent\<close>

lemma percent_bounds:
  assumes "usual v" "usual w" "0 \<le> num_val v" "num_val v \<le> num_val w" "1 \<le> num_val w"
  shows "usual (percent v w) \<and> 0 \<le> num_val (percent v w) \<and> num_val (percent v w) \<le> 100"
proof -
  obtain s a where v: "v = Num s a" "double_mag a" "s \<Longrightarrow> a = 0"
    using assms(1,3) by (cases v) (auto simp: usual_def dest: double_mag_nonneg split: if_splits)
  obtain n where w: "w = Num False n" "1 \<le> n" "a \<le> n"
    using assms(2,4,5) v by (cases w) (auto simp: usual_def dest: double_mag_nonneg split: if_splits)
  have units: "double_mag 1" "double_mag 100" using double_mag_int [of 1] double_mag_int [of 100] by simp_all
  define r where "r = round_mag (a / n)"
  have "0 \<le> a" using v(2) by (rule double_mag_nonneg)
  then have "0 \<le> a / n" "a / n \<le> 1" using w by simp_all
  then have r: "0 \<le> r" "r \<le> 1"
    using round_mag_mono [of "a / n" 1] units by (simp_all add: r_def)
  then have "\<not> overflows r" by (intro not_overflows_small) (simp add: order_trans [of _ 1])
  then have d: "num_div v w = Num s r" using w v by (simp add: num_of_mag_def Let_def r_def)
  define p where "p = round_mag (r * 100)"
  have p: "0 \<le> p" "p \<le> 100" using round_mag_mono [of "r * 100" 100] r units by (simp_all add: p_def)
  then have "\<not> overflows p" by (intro not_overflows_small) (simp add: order_trans [of _ 100])
  then have "percent v w = Num s p" by (simp add: percent_def d num_of_int_100 num_of_mag_def Let_def p_def)
  moreover have "is_double (percent v w)"
    using assms(1,2) by (simp add: percent_def usual_def)
  ultimately show ?thesis using p v(3) by (cases s) (auto simp: usual_def r_def p_def)
qed

text \<open>
  For amounts that are not negative, no bar of the chart is wider than its track or narrower than
  nothing, whatever the rounding, and the texts beside the bars are those of the amounts, in
  order.
\<close>

theorem bars_fit:
  assumes "\<forall>(l, v, c, g)\<in>set items. usual v \<and> 0 \<le> num_val v" and "HorizBars money lang items = Inr bars"
  shows "list_all (\<lambda>b. usual (hb_width b) \<and> 0 \<le> num_val (hb_width b) \<and> num_val (hb_width b) \<le> 100) bars
    \<and> map hb_text bars = map (\<lambda>(l, v, c, g). money v) items"
proof -
  let ?vals = "map (\<lambda>(l, v, c, g). v) items @ [num_of_int 1]"
  have one: "num_of_int 1 = Num False 1" "double_mag 1" using double_mag_int [of 1] by (simp_all add: num_of_int_exact)
  have "\<forall>x\<in>set ?vals. usual x" using assms(1) one by (auto simp: usual_def)
  from max_list_usual [OF this] have m: "usual (math_max_list ?vals)" "\<forall>x\<in>set ?vals. num_val x \<le> num_val (math_max_list ?vals)"
    by simp_all
  then have "1 \<le> num_val (math_max_list ?vals)" using one by simp
  then have fit: "usual (percent v (math_max_list ?vals)) \<and> 0 \<le> num_val (percent v (math_max_list ?vals))
      \<and> num_val (percent v (math_max_list ?vals)) \<le> 100" if "(l, v, c, g) \<in> set items" for l v c g
    using m assms(1) that by (intro percent_bounds) force+
  then show ?thesis
    using assms(2) fit by (auto simp: HorizBars_def Let_def list_all_iff split: if_splits)
qed

theorem bars_fit_witness:
  "\<exists>bars. HorizBars (\<lambda>x. ''m'') ''en'' [(''Bank'', num_of_int 3, ''red'', None)] = Inr bars
    \<and> map hb_text bars = [''m''] \<and> list_all (\<lambda>b. num_val (hb_width b) \<le> 100) bars"
proof -
  obtain bars where bars: "HorizBars (\<lambda>x. ''m'') ''en'' [(''Bank'', num_of_int 3, ''red'', None)] = Inr bars"
    by (simp add: HorizBars_def Let_def)
  have "usual (num_of_int 3) \<and> 0 \<le> num_val (num_of_int 3)"
    using double_mag_int [of 3] by (simp add: num_of_int_exact usual_def)
  then have "\<forall>(l, v, c, g)\<in>set [(''Bank'', num_of_int 3, ''red'', None :: string option)]. usual v \<and> 0 \<le> num_val v" by simp
  from bars_fit [OF this bars] show ?thesis using bars by (auto simp: list_all_iff)
qed

end
