(* ===== verification/AccountsPage.thy ===== *)
theory AccountsPage
  imports ApiClient Register AccountTreeLaws
begin

text \<open>
  The page of the chart of accounts (\<^verbatim>\<open>pages/Accounts.tsx\<close>): loading up to today or
  altogether, editing, deleting, and reconciling an account together with everything below it.
  \<open>offset\<close> is the host's difference between local time and UTC.
\<close>

section \<open>State\<close>

record accounts_page =
  as_accounts :: "account list"
  as_loading :: bool
  as_show_form :: bool
  as_editing :: "account option"
  as_show_reconciled :: bool
  as_show_reconcile :: bool
  as_reconcile :: "(string \<times> string list) option"
  as_filter_today :: bool

definition accounts_init :: accounts_page where
  "accounts_init =
     \<lparr>as_accounts = [], as_loading = True, as_show_form = False, as_editing = None, as_show_reconciled = False,
      as_show_reconcile = False, as_reconcile = None, as_filter_today = True\<rparr>"

section \<open>Loading\<close>

definition accounts_load :: "(int \<Rightarrow> int) \<Rightarrow> int \<Rightarrow> accounts_page \<Rightarrow> accounts_page \<times> http_request option" where
  "accounts_load offset now st =
     (let end_date = (if as_filter_today st then Some (local_date offset now) else None)
      in (st\<lparr>as_loading := True\<rparr>, Some (getAccounts None end_date)))"

definition accounts_settled :: "js_error + account list \<Rightarrow> accounts_page \<Rightarrow> accounts_page" where
  "accounts_settled res st =
     (case res of Inr accounts \<Rightarrow> st\<lparr>as_accounts := accounts, as_loading := False\<rparr> | Inl e \<Rightarrow> st\<lparr>as_loading := False\<rparr>)"

text \<open>The effect runs when the filter has changed.\<close>

definition set_filter :: "(int \<Rightarrow> int) \<Rightarrow> int \<Rightarrow> bool \<Rightarrow> accounts_page \<Rightarrow> accounts_page \<times> http_request option" where
  "set_filter offset now b st =
     (if b = as_filter_today st then (st, None) else accounts_load offset now (st\<lparr>as_filter_today := b\<rparr>))"

section \<open>Handlers\<close>

definition handleEdit :: "account \<Rightarrow> accounts_page \<Rightarrow> accounts_page" where
  "handleEdit a st = st\<lparr>as_editing := Some a, as_show_form := True\<rparr>"

definition new_account :: "accounts_page \<Rightarrow> accounts_page" where
  "new_account st = st\<lparr>as_show_form := True\<rparr>"

definition handleCloseForm :: "accounts_page \<Rightarrow> accounts_page" where
  "handleCloseForm st = st\<lparr>as_show_form := False, as_editing := None\<rparr>"

definition account_delete :: "bool \<Rightarrow> account \<Rightarrow> http_request option" where
  "account_delete confirmed a = (if confirmed then Some (deleteAccount (acc_guid a)) else None)"

text \<open>A reload, or the text of an alert\<close>

definition account_deleted ::
  "(int \<Rightarrow> int) \<Rightarrow> int \<Rightarrow> js_error + unit \<Rightarrow> accounts_page \<Rightarrow> accounts_page \<times> (string + http_request option)" where
  "account_deleted offset now res st =
     (case res of
        Inr _ \<Rightarrow> (case accounts_load offset now st of (st', req) \<Rightarrow> (st', Inr req))
      | Inl e \<Rightarrow> (st, Inl (error_message_or e ''Failed to delete'')))"

fun findInTree :: "string \<Rightarrow> account_tree list \<Rightarrow> account_tree option" where
  "findInTree g [] = None"
| "findInTree g (AccNode a cs # nodes) =
     (if acc_guid a = g then Some (AccNode a cs)
      else case cs of
             None \<Rightarrow> findInTree g nodes
           | Some ts \<Rightarrow> (case findInTree g ts of Some found \<Rightarrow> Some found | None \<Rightarrow> findInTree g nodes))"

text \<open>A tree that cannot be built throws, and the handler changes nothing.\<close>

definition handleReconcile :: "account \<Rightarrow> accounts_page \<Rightarrow> accounts_page" where
  "handleReconcile a st =
     (case buildTree (as_accounts st) of
        None \<Rightarrow> st
      | Some tree \<Rightarrow>
          (let guids = (case findInTree (acc_guid a) tree of Some node \<Rightarrow> collectGuids node | None \<Rightarrow> [acc_guid a])
           in st\<lparr>as_reconcile := Some (acc_name a, guids), as_show_reconcile := True\<rparr>))"

definition close_reconcile :: "accounts_page \<Rightarrow> accounts_page" where
  "close_reconcile st = st\<lparr>as_show_reconcile := False\<rparr>"

definition show_reconciled_balances :: "bool \<Rightarrow> accounts_page \<Rightarrow> accounts_page" where
  "show_reconciled_balances b st = st\<lparr>as_show_reconciled := b\<rparr>"

section \<open>What is shown\<close>

text \<open>While loading only a note; else the toggles with the active ones, the dialogs that are open\<close>

definition filter_toggle :: "language \<Rightarrow> accounts_page \<Rightarrow> (string \<times> bool) list" where
  "filter_toggle lang st =
     [(t lang ''register.today'', as_filter_today st), (t lang ''dashboard.total'', \<not> as_filter_today st)]"

definition balance_toggle :: "language \<Rightarrow> accounts_page \<Rightarrow> (string \<times> bool) list" where
  "balance_toggle lang st =
     [(t lang ''register.balance'', \<not> as_show_reconciled st), (t lang ''dashboard.reconciled'', as_show_reconciled st)]"

definition form_shown :: "accounts_page \<Rightarrow> account option option" where
  "form_shown st = (if as_loading st \<or> \<not> as_show_form st then None else Some (as_editing st))"

definition wizard_shown :: "accounts_page \<Rightarrow> (string \<times> string list) option" where
  "wizard_shown st = (if as_loading st \<or> \<not> as_show_reconcile st then None else as_reconcile st)"

section \<open>Reconciling a branch\<close>

lemma well_shaped_collect:
  assumes "distinct (map acc_guid accounts)"
  shows "well_shaped accounts T \<Longrightarrow> set (collectGuids T) = {h. up (parent_of accounts) h (acc_guid (node_account T))}"
proof (induction T)
  case (AccNode a cs)
  then obtain ts where cs: "cs = Some ts" by (cases cs) auto
  with AccNode.prems have kids: "map (\<lambda>c. acc_guid (node_account c)) ts = kids_of accounts (acc_guid a)"
    and ts: "\<forall>c\<in>set ts. well_shaped accounts c" by (auto simp: list_all_iff)
  have "(\<Union>c\<in>set ts. set (collectGuids c)) = (\<Union>c\<in>set ts. {h. up (parent_of accounts) h (acc_guid (node_account c))})"
    using AccNode.IH cs ts by (intro SUP_cong) auto
  also have "\<dots> = (\<Union>g\<in>set (kids_of accounts (acc_guid a)). {h. up (parent_of accounts) h g})"
    unfolding kids [symmetric] by simp
  also have "\<dots> = (\<Union>g\<in>{g. parent_of accounts g = Some (acc_guid a)}. {h. up (parent_of accounts) h g})"
    by (simp add: set_kids_of [OF assms])
  finally have "set (collectGuids (AccNode a cs)) = insert (acc_guid a) \<dots>" by (simp add: cs)
  then show ?case using up_step_iff [of "parent_of accounts" _ "acc_guid a"] by auto
qed

lemma findInTree_None: "findInTree g ts = None \<longleftrightarrow> g \<notin> set (concat (map collectGuids ts))"
proof (induction g ts rule: findInTree.induct)
  case (2 g a cs nodes)
  then show ?case by (cases cs) (auto split: option.splits)
qed simp

lemma findInTree_Some:
  "findInTree g ts = Some n \<Longrightarrow>
   acc_guid (node_account n) = g \<and> (list_all (well_shaped accounts) ts \<longrightarrow> well_shaped accounts n)
   \<and> (\<exists>us vs. concat (map collectGuids ts) = us @ collectGuids n @ vs)"
proof (induction g ts rule: findInTree.induct)
  case (2 g a cs nodes)
  consider (here) "acc_guid a = g" | (below) ts where "acc_guid a \<noteq> g" "cs = Some ts" "findInTree g ts = Some n"
    | (later) "acc_guid a \<noteq> g" "cs = None \<or> (\<exists>ts. cs = Some ts \<and> findInTree g ts = None)" "findInTree g nodes = Some n"
    using "2.prems" by (auto split: if_splits option.splits)
  then show ?case
  proof cases
    case here
    with "2.prems" have "n = AccNode a cs" by simp
    with here show ?thesis by (auto intro: exI [of _ "[]"])
  next
    case below
    with "2.IH"(2) obtain us vs where "acc_guid (node_account n) = g"
      "list_all (well_shaped accounts) ts \<longrightarrow> well_shaped accounts n"
      "concat (map collectGuids ts) = us @ collectGuids n @ vs" by blast
    moreover from this(3) below have "concat (map collectGuids (AccNode a cs # nodes))
        = (acc_guid a # us) @ collectGuids n @ (vs @ concat (map collectGuids nodes))" by simp
    then have "\<exists>us vs. concat (map collectGuids (AccNode a cs # nodes)) = us @ collectGuids n @ vs" by blast
    ultimately show ?thesis using below by simp
  next
    case later
    with "2.IH" have "acc_guid (node_account n) = g
        \<and> (list_all (well_shaped accounts) nodes \<longrightarrow> well_shaped accounts n)
        \<and> (\<exists>us vs. concat (map collectGuids nodes) = us @ collectGuids n @ vs)"
      by (cases cs) auto
    moreover from this obtain us vs where "concat (map collectGuids nodes) = us @ collectGuids n @ vs" by blast
    then have "concat (map collectGuids (AccNode a cs # nodes)) = (collectGuids (AccNode a cs) @ us) @ collectGuids n @ vs" by simp
    then have "\<exists>us vs. concat (map collectGuids (AccNode a cs # nodes)) = us @ collectGuids n @ vs" by blast
    ultimately show ?thesis by simp
  qed
qed simp

text \<open>
  C40. Reconciling an account of the chart opens the wizard, which is shown unless the page is
  loading, for exactly that account and everything below it, each account once; an account that lost its way to the top, because its parents
  form a cycle, is reconciled alone.
\<close>

theorem reconcile_scope:
  assumes "distinct (map acc_guid (as_accounts st))" and "a \<in> set (as_accounts st)"
  shows "\<exists>guids. as_reconcile (handleReconcile a st) = Some (acc_name a, guids)
    \<and> as_show_reconcile (handleReconcile a st)
    \<and> wizard_shown (handleReconcile a st) = (if as_loading st then None else Some (acc_name a, guids)) \<and> distinct guids
    \<and> set guids = (if \<exists>xs. chain (parent_of (as_accounts st)) (acc_guid a) xs
                   then {h. up (parent_of (as_accounts st)) h (acc_guid a)} else {acc_guid a})"
proof -
  let ?as = "as_accounts st"
  obtain tree where tree: "buildTree ?as = Some tree" using buildTree_total [OF assms(1)] by blast
  note guids = tree_guids [OF assms(1) tree]
  have ws: "list_all (well_shaped ?as) tree"
    using tree_nodes [OF assms(1) tree] by simp
  have mem: "acc_guid a \<in> guids ?as" using assms(2) by (simp add: guids_def)
  show ?thesis
  proof (cases "findInTree (acc_guid a) tree")
    case None
    then have "acc_guid a \<notin> set (concat (map collectGuids tree))" by (simp only: findInTree_None not_False_eq_True)
    then have "\<not> (\<exists>xs. chain (parent_of ?as) (acc_guid a) xs)" using guids mem by (simp del: set_concat set_map)
    then show ?thesis using None tree by (simp add: handleReconcile_def wizard_shown_def)
  next
    case (Some n)
    then have "\<exists>xs. chain (parent_of ?as) (acc_guid a) xs"
      using guids findInTree_None [of "acc_guid a" tree] by auto
    moreover have "distinct (collectGuids n)" using findInTree_Some [OF Some, of ?as] guids by auto
    moreover have "set (collectGuids n) = {h. up (parent_of ?as) h (acc_guid a)}"
      using findInTree_Some [OF Some, of ?as] ws well_shaped_collect [OF assms(1), of n] by simp
    ultimately show ?thesis using Some tree by (simp add: handleReconcile_def wizard_shown_def)
  qed
qed

theorem reconcile_scope_witness:
  "\<exists>guids. as_reconcile (handleReconcile (sample_account ''b'' (Some ''r'') ASSET 2)
      (accounts_init\<lparr>as_accounts := sample_accounts\<rparr>)) = Some (''b'', guids) \<and> distinct guids \<and> ''c'' \<in> set guids"
proof -
  have "distinct (map acc_guid (as_accounts (accounts_init\<lparr>as_accounts := sample_accounts\<rparr>)))"
    using sample_accounts_distinct by simp
  note scope = reconcile_scope [OF this, of "sample_account ''b'' (Some ''r'') ASSET 2"]
  have par: "parent_of sample_accounts ''c'' = Some ''b''" "parent_of sample_accounts ''b'' = Some ''r''"
    "parent_of sample_accounts ''r'' = None" by code_simp+
  have "chain (parent_of sample_accounts) ''b'' [''b'', ''r'']"
    using chain_up [of "parent_of sample_accounts" "''b''" "''r''" "[''r'']"]
      chain_root [of "parent_of sample_accounts" "''r''"] par by simp
  moreover have "up (parent_of sample_accounts) ''c'' ''b''" using par(1) by (intro r_into_rtranclp)
  moreover have "sample_account ''b'' (Some ''r'') ASSET 2 \<in> set sample_accounts" by (simp add: sample_accounts_def)
  moreover have "acc_guid (sample_account ''b'' (Some ''r'') ASSET 2) = ''b''"
    "acc_name (sample_account ''b'' (Some ''r'') ASSET 2) = ''b''" by (simp_all add: sample_account_def)
  ultimately show ?thesis using scope by auto
qed

end
