(* ===== verification/TransactionsPage.thy ===== *)
theory TransactionsPage
  imports ApiClient Register Shortcuts DateOrder TransactionFormLaws
begin

text \<open>
  The page of all transactions (\<^verbatim>\<open>pages/Transactions.tsx\<close>): the list with the newest
  first, its rows, the dialog, and deleting. \<open>money\<close> is the formatting of amounts, \<open>offset\<close> the
  difference between local time and UTC, \<open>now\<close> the present time.
\<close>

section \<open>State\<close>

record transactions_page =
  tp_transactions :: "transaction list"
  tp_loading :: bool
  tp_show_form :: bool
  tp_edit :: "string option"
  tp_duplicate :: "string option"

definition transactions_init :: transactions_page where
  "transactions_init = \<lparr>tp_transactions = [], tp_loading = True, tp_show_form = False, tp_edit = None, tp_duplicate = None\<rparr>"

text \<open>The first fifty transactions of the server; \<open>None\<close> is the answer \<^verbatim>\<open>null\<close>.\<close>

definition transactions_load :: "transactions_page \<Rightarrow> transactions_page \<times> http_request option" where
  "transactions_load st = (st\<lparr>tp_loading := True\<rparr>, Some (getTransactions 50 0))"

definition older :: "transaction \<Rightarrow> transaction \<Rightarrow> bool" where
  "older a b =
     (case (date_parse (tx_post_date a), date_parse (tx_post_date b)) of (Some x, Some y) \<Rightarrow> x < y | _ \<Rightarrow> False)"

definition transactions_settled :: "js_error + transaction list option \<Rightarrow> transactions_page \<Rightarrow> transactions_page" where
  "transactions_settled res st =
     (case res of
        Inr txs \<Rightarrow> st\<lparr>tp_transactions := sort_by older (case txs of Some l \<Rightarrow> l | None \<Rightarrow> []), tp_loading := False\<rparr>
      | Inl e \<Rightarrow> st\<lparr>tp_loading := False\<rparr>)"

section \<open>Handlers\<close>

definition open_form :: "transactions_page \<Rightarrow> transactions_page" where
  "open_form st = st\<lparr>tp_show_form := True\<rparr>"

text \<open>The shortcut of the page\<close>

definition new_shortcut :: "language \<Rightarrow> 'a \<Rightarrow> 'a registry \<Rightarrow> nat \<times> 'a registry" where
  "new_shortcut lang action r = useShortcut ''n'' action (t lang ''shortcuts.newTx'') False False False r"

definition click_row :: "transaction \<Rightarrow> transactions_page \<Rightarrow> transactions_page" where
  "click_row txn st = st\<lparr>tp_edit := Some (tx_guid txn)\<rparr>"

definition click_duplicate :: "transaction \<Rightarrow> transactions_page \<Rightarrow> transactions_page" where
  "click_duplicate txn st = st\<lparr>tp_duplicate := Some (tx_guid txn)\<rparr>"

definition close_form :: "transactions_page \<Rightarrow> transactions_page" where
  "close_form st = st\<lparr>tp_show_form := False, tp_edit := None, tp_duplicate := None\<rparr>"

definition tx_delete :: "bool \<Rightarrow> string \<Rightarrow> http_request option" where
  "tx_delete confirmed guid = (if confirmed then Some (deleteTransaction guid) else None)"

definition tx_deleted :: "js_error + unit \<Rightarrow> transactions_page \<Rightarrow> transactions_page \<times> http_request option" where
  "tx_deleted res st = (case res of Inr _ \<Rightarrow> transactions_load st | Inl e \<Rightarrow> (st, None))"

section \<open>What is shown\<close>

definition formatSplitCurrency :: "(number \<Rightarrow> string) \<Rightarrow> number \<Rightarrow> number \<Rightarrow> string" where
  "formatSplitCurrency money num denom = money (num_div num denom)"

definition getTxTotal :: "(number \<Rightarrow> string) \<Rightarrow> transaction \<Rightarrow> string" where
  "getTxTotal money txn =
     money (foldl (\<lambda>acc s. if num_less zero (sp_value_num s) then num_add acc (num_div (sp_value_num s) (sp_value_denom s)) else acc)
       zero (tx_splits txn))"

definition utc_day :: "int \<Rightarrow> string" where
  "utc_day now = before_char (CHR ''T'') (toISOString now)"

definition tx_row_class :: "int \<Rightarrow> string \<Rightarrow> string" where
  "tx_row_class now postDateStr =
     (let d = before_char (CHR ''T'') postDateStr;
          timeClass = (if d < utc_day now then ''row-past'' else if d = utc_day now then ''row-today'' else ''row-future'')
      in js_join '' '' (filter (\<lambda>s. s \<noteq> []) [''hoverable-row'', timeClass]))"

record tx_line =
  tl_class :: string
  tl_num :: string
  tl_date :: string
  tl_description :: string
  tl_splits :: "(string \<times> string \<times> string) list"
  tl_total :: string

text \<open>For every split its colour, the account and the amount\<close>

definition tx_lines :: "(number \<Rightarrow> string) \<Rightarrow> (int \<Rightarrow> int) \<Rightarrow> int \<Rightarrow> transactions_page \<Rightarrow> tx_line list" where
  "tx_lines money offset now st =
     map (\<lambda>(idx, txn).
       \<lparr>tl_class = tx_row_class now (tx_post_date txn),
        tl_num = (if tx_custom_id txn \<noteq> [] then tx_custom_id txn else dec_int (int idx + 1)),
        tl_date = formatDate offset (tx_post_date txn), tl_description = tx_description txn,
        tl_splits = map (\<lambda>s.
          (if num_le zero (sp_value_num s) then ''var(--color-income)'' else ''var(--color-expense)'',
           if truthy (sp_account_name s) then the (sp_account_name s) else take 8 (sp_account s),
           formatSplitCurrency money (sp_value_num s) (sp_value_denom s))) (tx_splits txn),
        tl_total = getTxTotal money txn\<rparr>) (enumerate 0 (tp_transactions st))"

text \<open>The dialog is open for a new, an edited or a duplicated transaction.\<close>

definition dialog_props :: "transactions_page \<Rightarrow> form_props option" where
  "dialog_props st =
     (if tp_show_form st \<or> truthy (tp_edit st) \<or> truthy (tp_duplicate st)
      then Some \<lparr>fp_default = None, fp_edit = (if truthy (tp_edit st) then tp_edit st else None),
                 fp_duplicate = (if truthy (tp_duplicate st) then tp_duplicate st else None)\<rparr>
      else None)"

section \<open>Properties\<close>

interpretation newest_first: comparator older "\<lambda>x. date_parse (tx_post_date x) \<noteq> None"
  by (rule key_comparator [where key = "\<lambda>x. - the (date_parse (tx_post_date x))"]) (auto simp: older_def)

text \<open>
  The page lists exactly the transactions of the answer, the newest first, those of the same time
  in the order of the server.
\<close>

theorem transactions_newest_first:
  assumes "\<forall>x\<in>set txs. date_parse (tx_post_date x) \<noteq> None"
  shows "let shown = tp_transactions (transactions_settled (Inr (Some txs)) st) in
    mset shown = mset txs
    \<and> sorted_wrt (\<lambda>a b. the (date_parse (tx_post_date b)) \<le> the (date_parse (tx_post_date a))) shown
    \<and> (\<forall>d. filter (\<lambda>x. date_parse (tx_post_date x) = Some d) shown = filter (\<lambda>x. date_parse (tx_post_date x) = Some d) txs)"
proof -
  let ?shown = "sort_by older txs"
  have "sorted_wrt (\<lambda>a b. \<not> older a b) ?shown" using assms by (rule newest_first.sorted_sort_by)
  then have "sorted_wrt (\<lambda>a b. the (date_parse (tx_post_date b)) \<le> the (date_parse (tx_post_date a))) ?shown"
    by (rule sorted_wrt_mono_rel [rotated]) (use assms in \<open>auto simp: older_def split: option.splits\<close>)
  moreover have "filter (\<lambda>x. date_parse (tx_post_date x) = Some d) ?shown = filter (\<lambda>x. date_parse (tx_post_date x) = Some d) txs" for d
  proof (cases "\<exists>k\<in>set txs. date_parse (tx_post_date k) = Some d")
    case True
    then obtain k :: transaction where k: "date_parse (tx_post_date k) = Some d" by blast
    have same: "(\<not> older k y \<and> \<not> older y k) \<longleftrightarrow> date_parse (tx_post_date y) = Some d" if "y \<in> set txs" for y
      using k assms that by (auto simp: older_def split: option.splits)
    have "filter (\<lambda>y. \<not> older k y \<and> \<not> older y k) ?shown = filter (\<lambda>y. \<not> older k y \<and> \<not> older y k) txs"
      using assms k by (intro newest_first.stable_sort_by) auto
    moreover have "filter (\<lambda>y. \<not> older k y \<and> \<not> older y k) zs = filter (\<lambda>x. date_parse (tx_post_date x) = Some d) zs"
      if "set zs \<subseteq> set txs" for zs using that same by (intro filter_cong) auto
    ultimately show ?thesis by simp
  qed (auto simp: filter_empty_conv)
  ultimately show ?thesis by (simp add: transactions_settled_def Let_def)
qed

theorem transactions_newest_first_witness:
  "mset (tp_transactions (transactions_settled (Inr (Some [sample_tx, sample_tx])) transactions_init)) = mset [sample_tx, sample_tx]"
proof -
  have "date_parse ''2024-02-26T11:00:00Z'' \<noteq> None" by code_simp
  then have "date_parse (tx_post_date sample_tx) \<noteq> None" by (simp add: sample_tx_def Let_def)
  then show ?thesis using transactions_newest_first [of "[sample_tx, sample_tx]" transactions_init] by (simp add: Let_def)
qed

text \<open>
  Whether a row counts as past, today or future is decided by the day in UTC, for every day with
  a year of four digits: in the evening west of Greenwich a transaction of the user's own day,
  which is the day before in UTC, is marked as past.
\<close>

theorem row_class_by_utc:
  assumes "four_digit_day n" and "four_digit_day (now div ms_per_day)"
  shows "tx_row_class now (date_text n @ ''T'' @ rest) =
    (if n < now div ms_per_day then ''hoverable-row row-past''
     else if n = now div ms_per_day then ''hoverable-row row-today'' else ''hoverable-row row-future'')"
proof -
  have utc: "utc_day now = date_text (now div ms_per_day)"
    using no_T_in_date_text [OF assms(2)] by (simp add: utc_day_def toISOString_def Let_def)
  have "before_char (CHR ''T'') (date_text n @ ''T'' @ rest) = date_text n" by (rule no_T_in_date_text [OF assms(1)])
  moreover have "date_text n = date_text (now div ms_per_day) \<longleftrightarrow> n = now div ms_per_day"
    using date_text_less_iff [OF assms(1,2)] date_text_less_iff [OF assms(2,1)] by (metis less_irrefl linorder_neqE)
  ultimately show ?thesis
    by (simp add: tx_row_class_def utc Let_def date_text_less_iff [OF assms(1,2)])
qed

text \<open>Ten in the evening of 26 February 2024, five hours west of Greenwich\<close>

theorem row_class_by_utc_witness:
  "tx_row_class (19780 * ms_per_day + 3 * 3600000) (date_text 19779 @ ''T'' @ ''11:00:00Z'') = ''hoverable-row row-past''
   \<and> (19780 * ms_per_day + 3 * 3600000 - 5 * 3600000) div ms_per_day = 19779"
  using row_class_by_utc [of 19779 "19780 * ms_per_day + 3 * 3600000" "''11:00:00Z''"]
  by (simp add: four_digit_day_def ms_per_day_def)

end
