(* ===== verification/TransactionFormView.thy ===== *)
theory TransactionFormView
  imports TransactionFormLaws Shortcuts
begin

text \<open>
  What the transaction editor shows (the markup of \<^verbatim>\<open>components/TransactionForm.tsx\<close>) and
  its keyboard shortcuts: title, day of the week, rows with the balance an account will have, the
  line with the total, and the buttons. \<open>weekday\<close> is the host's name of the day of the week of a
  time, in a language; \<open>money\<close> is \<open>formatCurrency\<close>. That the balance announced beside a split
  is the one the account has after saving is in \<^verbatim>\<open>TransactionStore\<close>.
\<close>

section \<open>Keyboard\<close>

datatype form_action = CloseDialog | RequestSubmit

definition form_shortcuts :: "language \<Rightarrow> form_action registry \<Rightarrow> nat list \<times> form_action registry" where
  "form_shortcuts lang r =
     (case useShortcut ''Escape'' CloseDialog (t lang ''shortcuts.close'') False False False r of
        (i, r') \<Rightarrow>
          (case useShortcut ''Enter'' RequestSubmit ''Submit form'' True False False r' of
             (j, r'') \<Rightarrow> ([i, j], r'')))"

section \<open>What is shown\<close>

definition dialog_title :: "language \<Rightarrow> form_props \<Rightarrow> string" where
  "dialog_title lang p =
     (if truthy (fp_edit p) then t lang ''form.editTransaction''
      else if truthy (fp_duplicate p) then t lang ''form.duplicateTransaction''
      else t lang ''form.newTransaction'')"

text \<open>While an existing transaction is loaded, and also while one is saved, only a spinner\<close>

definition spinner_shown :: "form_props \<Rightarrow> form_state \<Rightarrow> bool" where
  "spinner_shown p st \<longleftrightarrow> fm_loading st \<and> (truthy (fp_edit p) \<or> truthy (fp_duplicate p))"

text \<open>
  Two dates the host writes in the current language: the short date of \<^verbatim>\<open>i18n.ts\<close>,
  which no component uses, and the day of the week beside the date field.
\<close>

definition formatDateShort :: "(string \<Rightarrow> int option \<Rightarrow> string) \<Rightarrow> language \<Rightarrow> string \<Rightarrow> string" where
  "formatDateShort day_format lang dateStr = day_format (intl_locale lang) (date_parse dateStr)"

definition weekday_label :: "(string \<Rightarrow> int \<Rightarrow> string) \<Rightarrow> language \<Rightarrow> form_state \<Rightarrow> string option" where
  "weekday_label weekday lang st =
     (if fm_post_date st = [] then None
      else map_option (weekday (intl_locale lang)) (date_parse (fm_post_date st @ ''T12:00:00Z'')))"

record split_line =
  sl_account :: string
  sl_jump :: bool
  sl_amount :: string
  sl_projected :: "string option"
  sl_memo :: string
  sl_remove :: bool

definition split_lines ::
  "(number \<Rightarrow> number \<Rightarrow> number) \<Rightarrow> (number \<Rightarrow> string) \<Rightarrow> form_state \<Rightarrow> split_line list" where
  "split_lines pow money st =
     map (\<lambda>s. \<lparr>sl_account = si_account s, sl_jump = (si_account s \<noteq> []), sl_amount = si_amount s,
               sl_projected = map_option money (projected_balance pow st s),
               sl_memo = si_memo s, sl_remove = remove_enabled st\<rparr>) (fm_splits st)"

definition balance_line :: "language \<Rightarrow> (number \<Rightarrow> string) \<Rightarrow> form_state \<Rightarrow> string \<times> string \<times> string" where
  "balance_line lang money st =
     (t lang ''form.balance'', money (form_total (fm_splits st)),
      if form_balanced (fm_splits st) then t lang ''form.balanced'' else t lang ''form.unbalanced'')"

definition tx_submit_label :: "language \<Rightarrow> form_props \<Rightarrow> form_state \<Rightarrow> string" where
  "tx_submit_label lang p st =
     (if fm_loading st then (if truthy (fp_edit p) then t lang ''common.saving'' else t lang ''form.creating'')
      else (if truthy (fp_edit p) then t lang ''common.save'' else t lang ''form.create''))"

text \<open>
  The form: labels of the fields with their values, rows, total, error and the submit button.
\<close>

datatype tx_dialog =
    Spinner string
  | FormShown string "string option" "(string \<times> string) list" "split_line list"
      "string \<times> string \<times> string" "string option" "string \<times> bool"

definition tx_dialog_of ::
  "(number \<Rightarrow> number \<Rightarrow> number) \<Rightarrow> (string \<Rightarrow> int \<Rightarrow> string) \<Rightarrow> language \<Rightarrow> (number \<Rightarrow> string) \<Rightarrow> form_props
    \<Rightarrow> form_state \<Rightarrow> tx_dialog" where
  "tx_dialog_of pow weekday lang money p st =
     (if spinner_shown p st then Spinner (dialog_title lang p)
      else FormShown (dialog_title lang p) (weekday_label weekday lang st)
             [(t lang ''form.date'', fm_post_date st), (''ID / Num'', fm_custom_id st),
              (t lang ''form.description'', fm_description st)]
             (split_lines pow money st) (balance_line lang money st) (if truthy (fm_error st) then fm_error st else None)
             (tx_submit_label lang p st, submit_enabled st))"

text \<open>
  Saving a loaded transaction replaces the form by the spinner, so that the button of the form is
  always enabled and never says that it is saving.
\<close>

lemma never_saving:
  assumes "tx_dialog_of pow weekday lang money p st = FormShown a b c d e f (label, enabled)" and "truthy (fp_edit p)"
  shows "label = t lang ''common.save'' \<and> enabled"
  using assms by (auto simp: tx_dialog_of_def spinner_shown_def tx_submit_label_def submit_enabled_def split: if_splits)

end
