(* ===== verification/RegisterView.thy ===== *)
theory RegisterView
  imports ApiClient
begin

text \<open>
  What can be clicked in the register (\<^verbatim>\<open>components/Register.tsx\<close>) and what the
  account page (\<^verbatim>\<open>pages/AccountRegister.tsx\<close>) does about it, the header of the page,
  the properties its dialogs are opened with, and the scrolling to the focus row: once per
  account, 100 ms after the entries last changed.
\<close>

section \<open>Clicks\<close>

text \<open>
  The parts of a row; every button, and the cell of the mark, keeps a click from reaching the row.
  Deleting asks first; the flag is the answer.
\<close>

datatype row_part = RowBody | JumpButton | MarkCell | MarkButton | DuplicateButton | DeleteButton bool

datatype row_effect =
    OpenEditor string
  | JumpTo string string
  | ToggleMark "string \<times> string"
  | OpenDuplicate string
  | DeleteTransaction string

fun row_click :: "row_part \<Rightarrow> register_entry \<Rightarrow> row_effect option" where
  "row_click RowBody e = Some (OpenEditor (re_tx e))"
| "row_click JumpButton e =
     (if re_transfer_guid e \<noteq> [] then Some (JumpTo (''/accounts/'' @ re_transfer_guid e) (entry_day e)) else None)"
| "row_click MarkCell e = None"
| "row_click MarkButton e = Some (ToggleMark (handleReconcileClick (re_split e) (re_state e)))"
| "row_click DuplicateButton e = Some (OpenDuplicate (re_tx e))"
| "row_click (DeleteButton confirmed) e = map_option DeleteTransaction (handleDelete confirmed e)"

text \<open>The page's callbacks: the new state and the request; a jump is up to the router.\<close>

fun row_effect_on :: "row_effect \<Rightarrow> account_page \<Rightarrow> account_page \<times> http_request option" where
  "row_effect_on (OpenEditor g) st = (st\<lparr>ap_edit := Some g\<rparr>, None)"
| "row_effect_on (JumpTo path day) st = (st, None)"
| "row_effect_on (ToggleMark (g, s)) st = (st, Some (toggleSplitAcknowledge g s))"
| "row_effect_on (OpenDuplicate g) st = (st\<lparr>ap_duplicate := Some g\<rparr>, None)"
| "row_effect_on (DeleteTransaction g) st = (st, Some (deleteTransaction g))"

definition mark_settled :: "js_error + unit \<Rightarrow> string \<times> string \<Rightarrow> account_page \<Rightarrow> account_page" where
  "mark_settled res req st =
     (case reconcile_click_settled res req of
        Some (g, s) \<Rightarrow> handleReconcileStateChanged g s st
      | None \<Rightarrow> st)"

section \<open>The whole table\<close>

text \<open>Title and part of the buttons at the end of a row, for the handlers that were given\<close>

definition row_buttons :: "language \<Rightarrow> bool \<Rightarrow> bool \<Rightarrow> bool \<Rightarrow> (string \<times> row_part) list" where
  "row_buttons lang onDuplicate onDelete confirmed =
     (if onDuplicate then [(t lang ''common.duplicate'', DuplicateButton)] else [])
     @ (if onDelete then [(t lang ''transactions.delete'', DeleteButton confirmed)] else [])"

datatype load_line = LoadNote string | LoadButton direction string

text \<open>What stands above and below the table\<close>

definition load_lines :: "language \<Rightarrow> bool \<Rightarrow> bool \<Rightarrow> bool \<Rightarrow> load_line list \<times> load_line list" where
  "load_lines lang hasBefore hasAfter loadingMore =
     (case load_controls hasBefore hasAfter loadingMore of
        (busyAbove, older, newer, busyBelow) \<Rightarrow>
          ((if busyAbove then [LoadNote (t lang ''common.loading'')] else [])
             @ (if older then [LoadButton Before (t lang ''register.loadOlder'')] else []),
           (if newer then [LoadButton After (t lang ''register.loadNewer'')] else [])
             @ (if busyBelow then [LoadNote (t lang ''common.loading'')] else [])))"

record register_table =
  rt_lines :: "load_line list \<times> load_line list"
  rt_header :: "string list"
  rt_jump_title :: string
  rt_rows :: "register_row list"

text \<open>The table shown as the page shows it, with all handlers; without entries only a text is shown.\<close>

definition register_table_of ::
  "(int \<Rightarrow> int) \<Rightarrow> int \<Rightarrow> language \<Rightarrow> (number \<Rightarrow> string) \<Rightarrow> account_type option \<Rightarrow> string \<Rightarrow> string option
    \<Rightarrow> bool \<times> bool \<times> bool \<Rightarrow> register_entry list \<Rightarrow> string + register_table" where
  "register_table_of offset now lang money ty accountName scrollTargetDate more_flags entries =
     (case (register_view offset now lang money ty True accountName scrollTargetDate entries, more_flags) of
        (Inl s, _) \<Rightarrow> Inl s
      | (Inr rows, (hasBefore, hasAfter, loadingMore)) \<Rightarrow>
          Inr \<lparr>rt_lines = load_lines lang hasBefore hasAfter loadingMore, rt_header = register_header lang ty,
               rt_jump_title = t lang ''register.jump'', rt_rows = rows\<rparr>)"

text \<open>While more entries are loading no button offers to load any.\<close>

lemma no_button_while_loading:
  "load_lines lang hasBefore hasAfter True = (us, vs) \<Longrightarrow> LoadButton d s \<notin> set us \<union> set vs"
  by (auto simp: load_lines_def load_controls_def)

section \<open>The page around the table\<close>

record page_header =
  ph_title :: string
  ph_sync :: "(bool \<times> string option) option"
  ph_message :: "string option"
  ph_subtitle :: string
  ph_buttons :: "string list"
  ph_search :: "string \<times> string \<times> string option"
  ph_note :: "string option"

text \<open>\<open>ph_search\<close>: the placeholder, the text, and the button that clears it, if there is any text\<close>

definition page_header_of :: "language \<Rightarrow> account_page \<Rightarrow> page_header option" where
  "page_header_of lang st =
     (if ap_loading st then None
      else map_option (\<lambda>acc.
        \<lparr>ph_title = acc_name acc, ph_sync = sync_button lang st,
         ph_message = (if truthy (ap_sync_message st) then ap_sync_message st else None),
         ph_subtitle = page_subtitle acc,
         ph_buttons = [t lang ''reconcile.button'', t lang ''common.newTransaction''],
         ph_search = (t lang ''register.searchPlaceholder'', ap_search st,
           if ap_search st \<noteq> [] then Some (t lang ''register.searchClear'') else None),
         ph_note = search_note lang st\<rparr>) (ap_account st))"

definition editor_props :: "account_page \<Rightarrow> form_props option" where
  "editor_props st =
     (case ap_account st of
        Some acc \<Rightarrow>
          if \<not> ap_loading st \<and> form_open st then
            Some \<lparr>fp_default = Some (acc_guid acc), fp_edit = (if truthy (ap_edit st) then ap_edit st else None),
                  fp_duplicate = (if truthy (ap_duplicate st) then ap_duplicate st else None)\<rparr>
          else None
      | None \<Rightarrow> None)"

text \<open>The wizard gets the accounts, their name and type; the review the institution and the suggestions.\<close>

definition wizard_props :: "account_page \<Rightarrow> (string list \<times> string \<times> account_type) option" where
  "wizard_props st =
     (if ap_loading st \<or> \<not> ap_show_reconcile st then None
      else map_option (\<lambda>acc. ([acc_guid acc], acc_name acc, acc_type acc)) (ap_account st))"

definition matcher_props :: "account_page \<Rightarrow> (string \<times> sync_suggestion list) option" where
  "matcher_props st =
     (if ap_loading st \<or> ap_account st = None then None
      else map_option (\<lambda>suggestions. (ap_institution st, suggestions)) (ap_suggestions st))"

section \<open>Scrolling to the focus row\<close>

text \<open>\<open>fs_timer\<close> is the time at which the timer set by the effect fires.\<close>

record focus_scroll =
  fs_done :: bool
  fs_timer :: "int option"

definition focus_init :: focus_scroll where
  "focus_init = \<lparr>fs_done = False, fs_timer = None\<rparr>"

text \<open>
  The effect of a change of the entries: its clean-up stops the timer before; with a row to scroll
  to, and not yet scrolled, it sets a new one.
\<close>

definition entries_effect :: "int \<Rightarrow> 'a list \<Rightarrow> focus_scroll \<Rightarrow> focus_scroll" where
  "entries_effect now entries fs =
     fs\<lparr>fs_timer := (if entries \<noteq> [] \<and> \<not> fs_done fs then Some (now + 100) else None)\<rparr>"

definition name_effect :: "focus_scroll \<Rightarrow> focus_scroll" where
  "name_effect fs = fs\<lparr>fs_done := False\<rparr>"

text \<open>Time passes; whether the table scrolls\<close>

definition focus_tick :: "int \<Rightarrow> focus_scroll \<Rightarrow> focus_scroll \<times> bool" where
  "focus_tick now fs =
     (case fs_timer fs of
        Some d \<Rightarrow> if d \<le> now then (\<lparr>fs_done = True, fs_timer = None\<rparr>, True) else (fs, False)
      | None \<Rightarrow> (fs, False))"

datatype 'a focus_moment = EntriesChange int "'a list" | Tick int

fun focus_event :: "'a focus_moment \<Rightarrow> focus_scroll \<times> nat \<Rightarrow> focus_scroll \<times> nat" where
  "focus_event (EntriesChange now entries) (fs, n) = (entries_effect now entries fs, n)"
| "focus_event (Tick now) (fs, n) = (case focus_tick now fs of (fs', b) \<Rightarrow> (fs', if b then Suc n else n))"

lemmas focus_defs = focus_init_def entries_effect_def name_effect_def focus_tick_def

section \<open>Properties\<close>

lemma focus_counted:
  "fs_done (fst s) = (snd s = Suc 0) \<Longrightarrow> snd s \<le> Suc 0 \<Longrightarrow> (fs_done (fst s) \<longrightarrow> fs_timer (fst s) = None)
    \<Longrightarrow> let s' = fold focus_event evs s in
        fs_done (fst s') = (snd s' = Suc 0) \<and> snd s' \<le> Suc 0 \<and> (fs_done (fst s') \<longrightarrow> fs_timer (fst s') = None)"
proof (induction evs arbitrary: s)
  case (Cons ev evs)
  obtain fs n where s: "s = (fs, n)" by (cases s)
  have "let s' = focus_event ev s in
      fs_done (fst s') = (snd s' = Suc 0) \<and> snd s' \<le> Suc 0 \<and> (fs_done (fst s') \<longrightarrow> fs_timer (fst s') = None)"
    using Cons.prems by (cases ev) (auto simp: s focus_defs split: option.splits)
  then show ?case using Cons.IH [of "focus_event ev s"] by (simp add: Let_def)
qed simp

text \<open>
  While one account is shown the table scrolls at most once, however often its entries change; and it
  has scrolled as soon as it has shown entries for 100 ms.
\<close>

theorem scrolls_once:
  "snd (fold focus_event evs (focus_init, 0)) \<le> 1
   \<and> (entries \<noteq> [] \<longrightarrow>
       snd (fold focus_event (evs @ [EntriesChange now entries, Tick (now + 100)]) (focus_init, 0)) = 1)"
proof -
  obtain fs n where s: "fold focus_event evs (focus_init, 0) = (fs, n)" by fastforce
  have "fs_done fs = (n = Suc 0)" "n \<le> Suc 0"
    using focus_counted [of "(focus_init, 0)" evs] s by (simp_all add: focus_init_def Let_def)
  then show ?thesis by (auto simp: s entries_effect_def focus_tick_def)
qed

theorem scrolls_once_witness:
  "snd (fold focus_event ([] @ [EntriesChange 5 [True], Tick (5 + 100)]) (focus_init, 0)) = 1"
  using scrolls_once [of "[]" "[True]" 5] by simp

text \<open>
  Clicking the mark of a row shows the new mark on that row as soon as the server accepted it, also in
  the results of a search, and on no other; a failure changes nothing. A click never sets the
  mark of a reconciled entry, and it takes that mark away.
\<close>

theorem mark_click_shown:
  "displayEntries (mark_settled (Inr ()) (handleReconcileClick (re_split e) (re_state e)) st)
     = map (\<lambda>x. if re_split x = re_split e then x\<lparr>re_state := (if re_state e = ''n'' then ''c'' else ''n'')\<rparr> else x)
         (displayEntries st)
   \<and> mark_settled (Inl err) req st = st"
proof -
  have "entryHaystack (patch_state g s x) = entryHaystack x" for g s x
    by (simp add: patch_state_def entryHaystack_def Let_def cong: option.case_cong if_cong)
  then have "matchesTokens (patch_state g s x) = matchesTokens x" for g s x
    by (rule_tac ext) (simp add: matchesTokens_def)
  then have "filterRegisterEntries (map (patch_state g s) es) q = map (patch_state g s) (filterRegisterEntries es q)" for g s es q
    by (simp add: filterRegisterEntries_def Let_def filter_map comp_def)
  moreover have "patch_state g s = (\<lambda>x. if re_split x = g then x\<lparr>re_state := s\<rparr> else x)" for g s
    by (rule ext) (simp add: patch_state_def)
  moreover have "filterRegisterEntries [] q = []" for q by (simp add: filterRegisterEntries_def Let_def)
  ultimately show ?thesis
    by (simp add: mark_settled_def reconcile_click_settled_def handleReconcileClick_def displayEntries_def
        isSearching_def handleReconcileStateChanged_def split: option.splits)
qed

end
