(* ===== verification/WizardView.thy ===== *)
theory WizardView
  imports ReconcileWizard
begin

text \<open>
  What the two pages of the reconcile wizard show (the markup of
  \<^verbatim>\<open>components/ReconcileWizard.tsx\<close>). \<open>money\<close> is \<open>formatCurrency\<close> in the current
  language, \<open>offset\<close> the host's time zone.
\<close>

definition wizard_title :: "language \<Rightarrow> string \<Rightarrow> string" where
  "wizard_title lang accountName =
     accountName @ '' '' @ [CHR 0xE2, CHR 0x80, CHR 0x94] @ '' '' @ t lang ''reconcile.title''"

definition wizard_error :: "wizard \<Rightarrow> string option" where
  "wizard_error st = (if truthy (wz_error st) then wz_error st else None)"

record info_page =
  ip_title :: string
  ip_text :: string
  ip_date :: "string \<times> string"
  ip_start :: "string \<times> string"
  ip_ending :: "string \<times> string"
  ip_error :: "string option"
  ip_cancel :: string
  ip_button :: "string \<times> bool"

definition info_page_of :: "language \<Rightarrow> (number \<Rightarrow> string) \<Rightarrow> bool \<Rightarrow> string \<Rightarrow> wizard \<Rightarrow> info_page" where
  "info_page_of lang money cn accountName st =
     \<lparr>ip_title = wizard_title lang accountName, ip_text = t lang ''reconcile.infoDesc'',
      ip_date = (t lang ''reconcile.statementDate'', wz_date st),
      ip_start = (t lang ''reconcile.startingBalance'', money (displayStartingBalance cn st)),
      ip_ending = (t lang ''reconcile.endingBalance'', wz_ending st),
      ip_error = wizard_error st, ip_cancel = t lang ''accounts.cancel'',
      ip_button = (start_label lang st, \<not> wz_loading st)\<rparr>"

text \<open>A column: heading, header of the table, rows, total\<close>

record funds_column =
  fc_heading :: string
  fc_header :: "string list"
  fc_rows :: "wizard_row list"
  fc_total :: "string \<times> string"

definition funds_header :: "language \<Rightarrow> string list" where
  "funds_header lang = [[], t lang ''register.date'', t lang ''register.description'', t lang ''reconcile.amount'']"

definition funds_in :: "language \<Rightarrow> (int \<Rightarrow> int) \<Rightarrow> (number \<Rightarrow> string) \<Rightarrow> bool \<Rightarrow> wizard \<Rightarrow> funds_column" where
  "funds_in lang offset money cn st =
     \<lparr>fc_heading = t lang ''reconcile.fundsIn'', fc_header = funds_header lang,
      fc_rows = fst (wizard_columns offset money cn st),
      fc_total = (t lang ''reconcile.total'', money (leftTotal cn st))\<rparr>"

definition funds_out :: "language \<Rightarrow> (int \<Rightarrow> int) \<Rightarrow> (number \<Rightarrow> string) \<Rightarrow> bool \<Rightarrow> wizard \<Rightarrow> funds_column" where
  "funds_out lang offset money cn st =
     \<lparr>fc_heading = t lang ''reconcile.fundsOut'', fc_header = funds_header lang,
      fc_rows = snd (wizard_columns offset money cn st),
      fc_total = (t lang ''reconcile.total'', money (rightTotal cn st))\<rparr>"

datatype wizard_view =
    ShowInfo info_page
  | ShowSelect string "string \<times> string" funds_column funds_column "(string \<times> string) list" "string option"
      string "string \<times> bool"

definition wizard_view_of ::
  "language \<Rightarrow> (int \<Rightarrow> int) \<Rightarrow> (number \<Rightarrow> string) \<Rightarrow> bool \<Rightarrow> string \<Rightarrow> wizard \<Rightarrow> wizard_view" where
  "wizard_view_of lang offset money cn accountName st =
     (case wz_page st of
        InfoPage \<Rightarrow> ShowInfo (info_page_of lang money cn accountName st)
      | SelectPage \<Rightarrow>
          ShowSelect (wizard_title lang accountName) (t lang ''reconcile.selectAll'', t lang ''reconcile.deselectAll'')
            (funds_in lang offset money cn st) (funds_out lang offset money cn st) (summary_bar lang money cn st)
            (wizard_error st) (t lang ''accounts.cancel'') (finish_label lang st, finish_enabled cn st))"

text \<open>
  The rows ticked in the two columns are exactly the listed entries whose splits would be sent.
\<close>

lemma ticked_rows:
  "filter wr_checked (fc_rows (funds_in lang offset money cn st))
     = map (renderRow offset money st) (filter (\<lambda>e. re_split e \<in> set (wz_selected st)) (leftEntries cn (wz_entries st)))"
  "filter wr_checked (fc_rows (funds_out lang offset money cn st))
     = map (renderRow offset money st) (filter (\<lambda>e. re_split e \<in> set (wz_selected st)) (rightEntries cn (wz_entries st)))"
  by (simp_all add: funds_in_def funds_out_def wizard_columns_def filter_map comp_def renderRow_def)

end
