(* ===== verification/ConvertCsvIds.thy ===== *)
theory ConvertCsvIds
  imports ConvertCsvLaws
begin

text \<open>
  The identifiers the converter makes: transactions and splits get the digests of their names, so
  identifiers are unique exactly when every transaction's rows are together in the file.
\<close>

lemma dec_digits_no_minus: "\<forall>c\<in>set (dec_digits (int k)). c \<noteq> CHR ''-''"
  using dec_digits_all [of "int k"] by (auto simp: list_all_iff is_digit_def code_def)

lemma takeWhile_upto: "\<forall>x\<in>set xs. P x \<Longrightarrow> \<not> P y \<Longrightarrow> takeWhile P (xs @ y # ys) = xs"
  by (induction xs) auto

lemma split_name_inj:
  assumes "u @ ''-'' @ dec_int (int m) = v @ ''-'' @ dec_int (int n)"
  shows "u = v \<and> m = n"
proof -
  have d: "dec_int (int k) = dec_digits (int k)" for k by (simp add: dec_int_def)
  have tail: "takeWhile (\<lambda>c. c \<noteq> CHR ''-'') (rev (w @ ''-'' @ dec_digits (int k))) = rev (dec_digits (int k))" for w k
    using dec_digits_no_minus [of k] by (simp add: takeWhile_upto)
  from assms have "takeWhile (\<lambda>c. c \<noteq> CHR ''-'') (rev (u @ ''-'' @ dec_digits (int m)))
      = takeWhile (\<lambda>c. c \<noteq> CHR ''-'') (rev (v @ ''-'' @ dec_digits (int n)))"
    unfolding d by (rule arg_cong)
  then have e: "dec_digits (int m) = dec_digits (int n)" unfolding tail by simp
  then have "digits_val (dec_digits (int m)) = digits_val (dec_digits (int n))" by (rule arg_cong)
  then have "m = n" by simp
  moreover have "u = v" using assms e unfolding d by simp
  ultimately show ?thesis by simp
qed

lemma run_rows:
  "run \<in> set (runs rows) \<Longrightarrow> run \<noteq> [] \<and> set run \<subseteq> set rows \<and> length run \<le> length rows
    \<and> (\<forall>r\<in>set run. col 1 r = col 1 (hd run))"
proof (induction rows rule: runs.induct)
  case (2 r rs)
  let ?P = "\<lambda>s. col 1 s = col 1 r"
  show ?case
  proof (cases "run = r # takeWhile ?P rs")
    case True
    then show ?thesis using length_takeWhile_le [of ?P rs] by (auto dest: set_takeWhileD)
  next
    case False
    then have "run \<in> set (runs (dropWhile ?P rs))" using "2.prems" by simp
    from "2.IH" [OF this] show ?thesis
      using length_dropWhile_le [of ?P rs] set_dropWhileD by fastforce
  qed
qed simp

definition run_id :: "string list list \<Rightarrow> string" where
  "run_id run = text_of (col 1 (hd run))"

definition kept_runs :: "string list list \<Rightarrow> string list list list" where
  "kept_runs rows = filter (\<lambda>run. \<exists>r\<in>set run. numeric r) (runs rows)"

text \<open>The names of which a file's identifiers are the digests\<close>

definition names_of :: "string list list \<Rightarrow> string set" where
  "names_of rows =
     (\<lambda>r. ''tx-'' @ text_of (col 1 r)) ` set rows
     \<union> (\<lambda>(r, k). ''spt-'' @ text_of (col 1 r) @ ''-'' @ dec_int (int k)) ` (set rows \<times> {..<length rows})"

lemma split_guids:
  assumes "\<forall>r\<in>set run. col 1 r = col 1 (hd run)"
  shows "map cs_guid (splits_of md5hex n run)
    = map (\<lambda>k. uuid md5hex (''spt-'' @ run_id run @ ''-'' @ dec_int (int k))) [n..<n + length (filter numeric run)]"
proof -
  define f where "f = (\<lambda>k :: nat. uuid md5hex (''spt-'' @ run_id run @ ''-'' @ dec_int (int k)))"
  have "map cs_guid (splits_of md5hex n rs) = map f [n..<n + length (filter numeric rs)]" if "set rs \<subseteq> set run" for rs n
    using that
  proof (induction rs arbitrary: n)
    case (Cons r rs)
    then have "text_of (col 1 r) = run_id run" using assms by (auto simp: run_id_def)
    then have "cs_guid (row_split md5hex (text_of (col 1 r)) n r) = f n" by (simp add: row_split_def f_def)
    with Cons show ?case by (simp add: splits_of_Cons upt_conv_Cons del: upt_Suc)
  qed (simp add: splits_of_def)
  note this [OF subset_refl]
  then show ?thesis unfolding f_def .
qed

lemma distinct_concat_by:
  assumes "distinct (map f xs)" and "\<And>x y z. x \<in> set xs \<Longrightarrow> y \<in> set xs \<Longrightarrow> z \<in> set (g x) \<Longrightarrow> z \<in> set (g y) \<Longrightarrow> f x = f y"
    and "\<And>x. x \<in> set xs \<Longrightarrow> distinct (g x)"
  shows "distinct (concat (map g xs))"
  using assms
proof (induction xs)
  case (Cons x xs)
  have "distinct (concat (map g xs))" using Cons.prems by (intro Cons.IH) auto
  moreover have "set (g x) \<inter> set (concat (map g xs)) = {}"
  proof (rule ccontr)
    assume "\<not> ?thesis"
    then obtain y z where "y \<in> set xs" "z \<in> set (g x)" "z \<in> set (g y)" by auto
    then have "f x = f y" using Cons.prems(2) [of x y z] by simp
    then show False using Cons.prems(1) \<open>y \<in> set xs\<close> by auto
  qed
  ultimately show ?case using Cons.prems(3) by simp
qed simp

lemma kept_run:
  assumes "run \<in> set (kept_runs rows)"
  shows "hd run \<in> set rows" and "length (filter numeric run) \<le> length rows" and "\<forall>r\<in>set run. col 1 r = col 1 (hd run)"
proof -
  from assms have "run \<in> set (runs rows)" by (simp add: kept_runs_def)
  note r = run_rows [OF this]
  show "hd run \<in> set rows" using r hd_in_set [of run] by blast
  show "length (filter numeric run) \<le> length rows" using r length_filter_le [of numeric run] by (meson le_trans)
  show "\<forall>r\<in>set run. col 1 r = col 1 (hd run)" using r by blast
qed

definition split_name :: "string list list \<Rightarrow> nat \<Rightarrow> string" where
  "split_name run k = ''spt-'' @ run_id run @ ''-'' @ dec_int (int k)"

lemma names_of_run:
  assumes "run \<in> set (kept_runs rows)"
  shows "''tx-'' @ run_id run \<in> names_of rows"
    and "k < length (filter numeric run) \<Longrightarrow> split_name run k \<in> names_of rows"
proof -
  note r = kept_run(1,2) [OF assms]
  show "''tx-'' @ run_id run \<in> names_of rows"
    unfolding names_of_def run_id_def by (rule UnI1) (rule imageI [OF r(1)])
  show "split_name run k \<in> names_of rows" if "k < length (filter numeric run)"
    unfolding names_of_def run_id_def split_name_def
    by (rule UnI2) (rule image_eqI [where x = "(hd run, k)"], use that r in auto)
qed

lemma split_guids_distinct:
  assumes "inj_on (uuid md5hex) (names_of rows)" and "distinct (map run_id (kept_runs rows))"
  shows "distinct (concat (map (\<lambda>run. map cs_guid (ct_splits (run_tx md5hex run))) (kept_runs rows)))"
proof -
  have guids: "map cs_guid (ct_splits (run_tx md5hex run)) = map (\<lambda>k. uuid md5hex (split_name run k)) [0..<length (filter numeric run)]"
    if "run \<in> set (kept_runs rows)" for run
    using split_guids [OF kept_run(3) [OF that], of md5hex 0] by (simp add: run_tx_def split_name_def)
  have same: "run_id u = run_id v \<and> k = l" if "u \<in> set (kept_runs rows)" "v \<in> set (kept_runs rows)"
      "k < length (filter numeric u)" "l < length (filter numeric v)" "uuid md5hex (split_name u k) = uuid md5hex (split_name v l)" for u v k l
  proof -
    have "split_name u k = split_name v l"
      using assms(1) that(5) names_of_run(2) [OF that(1,3)] names_of_run(2) [OF that(2,4)] by (rule inj_onD)
    then show ?thesis using split_name_inj [of "run_id u" k "run_id v" l] by (simp add: split_name_def)
  qed
  show ?thesis
  proof (rule distinct_concat_by [OF assms(2)])
    show "run_id u = run_id v" if "u \<in> set (kept_runs rows)" "v \<in> set (kept_runs rows)"
        "z \<in> set (map cs_guid (ct_splits (run_tx md5hex u)))" "z \<in> set (map cs_guid (ct_splits (run_tx md5hex v)))" for u v z
      using that(3,4) same [OF that(1,2)] unfolding guids [OF that(1)] guids [OF that(2)] by auto
    show "distinct (map cs_guid (ct_splits (run_tx md5hex run)))" if "run \<in> set (kept_runs rows)" for run
      using same [OF that that] unfolding guids [OF that] by (auto simp: distinct_map inj_on_def)
  qed
qed

text \<open>
  C27. When every row names its transaction and the digests of a file's names do not collide, no two
  transactions and no two splits get the same identifier, provided the rows of each transaction
  are together; and only then: of a transaction whose rows come in two places, each with an
  amount, the converter makes two transactions with the same identifier.
\<close>

theorem identifiers_unique:
  assumes "\<forall>r\<in>set rows. truthy (col 1 r)" and "inj_on (uuid md5hex) (names_of rows)"
  shows "(distinct (map ct_id (read_transactions md5hex rows)) \<longleftrightarrow> distinct (map run_id (kept_runs rows)))
    \<and> (distinct (map run_id (kept_runs rows)) \<longrightarrow>
        distinct (concat (map (\<lambda>tx. map cs_guid (ct_splits tx)) (read_transactions md5hex rows))))"
proof -
  let ?id = "\<lambda>run. ''tx-'' @ run_id run"
  have txs: "read_transactions md5hex rows = map (run_tx md5hex) (kept_runs rows)"
    using read_runs [OF assms(1), of md5hex tx_init]
    by (simp add: read_transactions_def tx_init_def flushTx_def kept_runs_def)
  have "?id ` set (kept_runs rows) \<subseteq> names_of rows" using names_of_run(1) by (rule image_subsetI)
  then have "inj_on (uuid md5hex) (?id ` set (kept_runs rows))" using assms(2) inj_on_subset by blast
  then have inj: "distinct (map (uuid md5hex) (map ?id (kept_runs rows))) \<longleftrightarrow> distinct (map ?id (kept_runs rows))"
    unfolding distinct_map [of "uuid md5hex"] set_map by blast
  have same: "distinct (map ?id (kept_runs rows)) \<longleftrightarrow> distinct (map run_id (kept_runs rows))"
    by (simp add: distinct_map inj_on_def)
  have "map ct_id (map (run_tx md5hex) (kept_runs rows)) = map (uuid md5hex) (map ?id (kept_runs rows))"
    unfolding map_map by (rule map_cong) (simp_all add: run_tx_def run_id_def)
  then have ids: "distinct (map ct_id (read_transactions md5hex rows)) \<longleftrightarrow> distinct (map run_id (kept_runs rows))"
    unfolding txs by (simp only: inj same)
  with split_guids_distinct [OF assms(2)] show ?thesis unfolding txs map_map comp_def by blast
qed

definition names_list :: "string list list \<Rightarrow> string list" where
  "names_list rows =
     map (\<lambda>r. ''tx-'' @ text_of (col 1 r)) rows
     @ concat (map (\<lambda>r. map (\<lambda>k. ''spt-'' @ text_of (col 1 r) @ ''-'' @ dec_int (int k)) [0..<length rows]) rows)"

lemma inj_on_names:
  assumes "distinct (map f (remdups (names_list rows)))"
  shows "inj_on f (names_of rows)"
proof -
  have "(\<lambda>(r, k). g r k) ` (A \<times> {..<n}) = (\<Union>r\<in>A. g r ` {0..<n})" for g :: "string list \<Rightarrow> nat \<Rightarrow> string" and A n
    by force
  then have "names_of rows = set (names_list rows)"
    unfolding names_of_def names_list_def by simp
  with assms show ?thesis by (simp add: distinct_map)
qed

theorem identifiers_unique_witness:
  "distinct (map ct_id (read_transactions sample_md5 [amount_row ''a'' ''5'', amount_row ''a'' ''-2'', amount_row ''b'' ''7'']))
   \<and> \<not> distinct (map ct_id (read_transactions sample_md5 [amount_row ''a'' ''5'', amount_row ''b'' ''7'', amount_row ''a'' ''-2'']))"
proof -
  let ?u = "[amount_row ''a'' ''5'', amount_row ''a'' ''-2'', amount_row ''b'' ''7'']"
  let ?v = "[amount_row ''a'' ''5'', amount_row ''b'' ''7'', amount_row ''a'' ''-2'']"
  have "inj_on (uuid sample_md5) (names_of ?u)" "inj_on (uuid sample_md5) (names_of ?v)"
    by (rule inj_on_names, code_simp)+
  moreover have "list_all (\<lambda>r. truthy (col 1 r)) ?u" "list_all (\<lambda>r. truthy (col 1 r)) ?v" by code_simp+
  moreover have "map run_id (kept_runs ?u) = [''a'', ''b'']" "map run_id (kept_runs ?v) = [''a'', ''b'', ''a'']" by code_simp+
  ultimately show ?thesis
    using identifiers_unique [of ?u sample_md5] identifiers_unique [of ?v sample_md5] unfolding list_all_iff by simp
qed

end
