(* ===== verification/AccountTreeView.thy ===== *)
theory AccountTreeView
  imports AccountsPage DateShortcut
begin

text \<open>
  The rows of the chart of accounts: their buttons, clicks and remaining texts (the markup of
  \<^verbatim>\<open>components/AccountTree.tsx\<close>), the table of the page (\<^verbatim>\<open>pages/Accounts.tsx\<close>),
  and which accounts are visible. \<open>money\<close> is \<open>formatCurrency\<close> in the current language, \<open>offset\<close> the
  host's time zone.
\<close>

section \<open>Buttons and clicks\<close>

text \<open>Which of the optional handlers the table was given\<close>

record row_handlers =
  on_edit :: bool
  on_delete :: bool
  on_reconcile :: bool

datatype tree_effect = Navigate string | CallReconcile account | CallEdit account | CallDelete account

datatype action_icon = CheckIcon | PencilIcon | BinIcon

text \<open>The buttons of a row in order, each with icon, title and what a click does\<close>

definition ActionBtns :: "language \<Rightarrow> row_handlers \<Rightarrow> account \<Rightarrow> (action_icon \<times> string \<times> tree_effect) list" where
  "ActionBtns lang hs a =
     (if on_reconcile hs then [(CheckIcon, t lang ''accounts.reconcile'', CallReconcile a)] else [])
     @ (if on_edit hs then [(PencilIcon, t lang ''accounts.editAccount'', CallEdit a)] else [])
     @ (if on_delete hs then [(BinIcon, t lang ''accounts.deleteAccount'', CallDelete a)] else [])"

text \<open>
  A click on the toggle (invisible, hence out of reach, without children), on the name, or on the
  \<open>i\<close>-th button. The state is whether the row is expanded, and the storage.
\<close>

datatype tree_click = ClickToggle | ClickName | ClickAction nat

definition click_in_row ::
  "language \<Rightarrow> row_handlers \<Rightarrow> account \<Rightarrow> bool \<Rightarrow> tree_click \<Rightarrow> bool \<times> storage \<Rightarrow> (bool \<times> storage) \<times> tree_effect option" where
  "click_in_row lang hs a hasChildren c s =
     (case c of
        ClickToggle \<Rightarrow> (if hasChildren then toggleExpanded (acc_guid a) s else s, None)
      | ClickName \<Rightarrow> (s, if acc_placeholder a then None else Some (Navigate (''/accounts/'' @ acc_guid a)))
      | ClickAction i \<Rightarrow>
          (s, if i < length (ActionBtns lang hs a) then Some (snd (snd (ActionBtns lang hs a ! i))) else None))"

section \<open>Texts\<close>

text \<open>Indentation in pixels, the mark of a folder, the day of the last reconciliation, and the balance\<close>

definition row_padding :: "int \<Rightarrow> int" where
  "row_padding depth = 12 + depth * 20"

definition row_folder :: "account \<Rightarrow> bool" where
  "row_folder a = acc_placeholder a"

definition row_last_reconciled :: "(int \<Rightarrow> int) \<Rightarrow> account \<Rightarrow> string" where
  "row_last_reconciled offset a =
     (if truthy (acc_last_reconciled a) then formatDate offset (the (acc_last_reconciled a)) else [])"

definition row_balance_text :: "(number \<Rightarrow> string) \<Rightarrow> bool \<Rightarrow> account \<Rightarrow> string" where
  "row_balance_text money rec a = money (final_balance rec a)"

section \<open>The page around the table\<close>

text \<open>The page gives all three handlers; a click on a button reaches its own.\<close>

definition page_handlers :: row_handlers where
  "page_handlers = \<lparr>on_edit = True, on_delete = True, on_reconcile = True\<rparr>"

fun tree_effect_on_page :: "bool \<Rightarrow> tree_effect \<Rightarrow> accounts_page \<Rightarrow> accounts_page \<times> http_request option" where
  "tree_effect_on_page confirmed (Navigate p) st = (st, None)"
| "tree_effect_on_page confirmed (CallReconcile a) st = (handleReconcile a st, None)"
| "tree_effect_on_page confirmed (CallEdit a) st = (handleEdit a st, None)"
| "tree_effect_on_page confirmed (CallDelete a) st = (st, account_delete confirmed a)"

datatype accounts_view =
    AccountsLoading string
  | AccountsView string string "(string \<times> bool) list" "(string \<times> bool) list" string
      "(string + string list \<times> tree_row list) option"

definition accounts_view_of :: "language \<Rightarrow> (string \<Rightarrow> bool) \<Rightarrow> accounts_page \<Rightarrow> accounts_view" where
  "accounts_view_of lang expanded st =
     (if as_loading st then AccountsLoading (t lang ''common.loading'')
      else AccountsView (t lang ''accounts.title'') (t lang ''accounts.subtitle'') (filter_toggle lang st)
             (balance_toggle lang st) (t lang ''accounts.newAccount'')
             (account_table lang (as_show_reconciled st) expanded (as_accounts st)))"

text \<open>
  A row mounted again, after its parent was closed and opened or on the next visit, is as the
  user left it; the choices of other rows do not matter.
\<close>

interpretation row_state: persisted "save_expanded guid" "\<lambda>st. Some (initial_expanded st depth guid)" "\<lambda>_. True"
    "expanded_key guid"
  by unfold_locales (auto simp: save_expanded_def initial_expanded_def)

lemma other_rows_kept:
  assumes "g \<noteq> h"
  shows "initial_expanded (save_expanded h c (save_expanded g b st)) depth g = b"
proof -
  have "Some (initial_expanded (save_expanded h c (save_expanded g b st)) depth g) = Some b"
    by (rule row_state.load_after_other [where other = "save_expanded h c"])
      (use assms in \<open>simp_all add: save_expanded_def expanded_key_def\<close>)
  then show ?thesis by simp
qed

section \<open>Visible rows\<close>

definition root_guid :: "account list \<Rightarrow> string \<Rightarrow> bool" where
  "root_guid accounts g \<longleftrightarrow> (\<exists>a\<in>set accounts. acc_guid a = g \<and> acc_type a = ROOT)"

text \<open>\<open>walk par h ms g\<close>: from \<open>h\<close> up to \<open>g\<close>, through the ancestors \<open>ms\<close> of \<open>h\<close>, of which \<open>g\<close> is the last\<close>

inductive walk :: "('a \<Rightarrow> 'a option) \<Rightarrow> 'a \<Rightarrow> 'a list \<Rightarrow> 'a \<Rightarrow> bool" for par where
  walk_here: "walk par g [] g"
| walk_down: "walk par h ms c \<Longrightarrow> par c = Some g \<Longrightarrow> walk par h (ms @ [g]) g"

lemma walk_ex:
  "(\<exists>ms. walk par h ms g \<and> P ms) \<longleftrightarrow> h = g \<and> P [] \<or> (\<exists>c. par c = Some g \<and> (\<exists>ns. walk par h ns c \<and> P (ns @ [g])))"
proof
  assume "\<exists>ms. walk par h ms g \<and> P ms"
  then obtain ms where "walk par h ms g" "P ms" by blast
  then show "h = g \<and> P [] \<or> (\<exists>c. par c = Some g \<and> (\<exists>ns. walk par h ns c \<and> P (ns @ [g])))"
    by cases auto
next
  assume "h = g \<and> P [] \<or> (\<exists>c. par c = Some g \<and> (\<exists>ns. walk par h ns c \<and> P (ns @ [g])))"
  then show "\<exists>ms. walk par h ms g \<and> P ms" using walk_here [of par g] walk_down [of par h _ _ g] by metis
qed

lemma walk_first: "walk par p ms r \<Longrightarrow> par h = Some p \<Longrightarrow> walk par h (p # ms) r"
proof (induction rule: walk.induct)
  case (walk_here g)
  then show ?case using walk_down [OF walk.walk_here [of par h], of g] by simp
next
  case (walk_down h' ms c g)
  then show ?case using walk.walk_down [of par h "h' # ms" c g] by simp
qed

lemma walk_chain: "walk par h ms g \<Longrightarrow> chain par g (g # xs) \<Longrightarrow> chain par h (h # ms @ xs)"
proof (induction arbitrary: xs rule: walk.induct)
  case (walk_down h ms c g)
  from chain_up [OF walk_down.hyps(2) walk_down.prems] walk_down.IH [of "g # xs"] show ?case by simp
qed simp

lemma chain_walk: "chain par h xs \<Longrightarrow> \<exists>anc r. xs = h # anc \<and> walk par h anc r \<and> par r = None"
proof (induction rule: chain.induct)
  case (chain_root g)
  then show ?case using walk_here [of par g] by (intro exI [of _ "[]"] exI [of _ g]) simp
next
  case (chain_up g p xs)
  then show ?case using walk_first by metis
qed

lemma chain_iff_walk: "chain par h (h # anc) \<longleftrightarrow> (\<exists>r. walk par h anc r \<and> par r = None)"
  using chain_walk [of par h "h # anc"] walk_chain [OF _ chain_root, of par h anc] by auto

lemma walk_up: "walk par h ms g \<Longrightarrow> up par h g"
  by (induction rule: walk.induct) (auto intro: rtranclp.rtrancl_into_rtrancl)

lemma walk_guids: "walk (parent_of accounts) h ms g \<Longrightarrow> h \<in> guids accounts \<longleftrightarrow> g \<in> guids accounts"
  by (induction rule: walk.induct) (auto dest: parent_of_mem)

text \<open>The depth of a row: its ancestors that are rows themselves\<close>

definition row_depth :: "account list \<Rightarrow> string list \<Rightarrow> int" where
  "row_depth accounts anc = int (length (filter (\<lambda>g. \<not> root_guid accounts g) anc))"

definition shown_below :: "account list \<Rightarrow> (string \<Rightarrow> bool) \<Rightarrow> int \<Rightarrow> string \<Rightarrow> (string \<times> int) set" where
  "shown_below accounts expanded d g =
     {(h, d + row_depth accounts ms) |h ms. walk (parent_of accounts) h ms g \<and> \<not> root_guid accounts h
        \<and> (\<forall>x\<in>set ms. root_guid accounts x \<or> expanded x)}"

lemma shown_below_iff:
  "(h, k) \<in> shown_below accounts expanded d g \<longleftrightarrow>
     (\<exists>ms. walk (parent_of accounts) h ms g \<and> k = d + row_depth accounts ms \<and> \<not> root_guid accounts h
        \<and> (\<forall>x\<in>set ms. root_guid accounts x \<or> expanded x))"
  by (auto simp: shown_below_def)

lemma shown_below_root:
  assumes "root_guid accounts g"
  shows "shown_below accounts expanded d g
    = (\<Union>c\<in>{c. parent_of accounts c = Some g}. shown_below accounts expanded d c)"
proof -
  have "row_depth accounts (ns @ [g]) = row_depth accounts ns" for ns using assms by (simp add: row_depth_def)
  then have "(h, k) \<in> shown_below accounts expanded d g \<longleftrightarrow>
      (\<exists>c. parent_of accounts c = Some g \<and> (h, k) \<in> shown_below accounts expanded d c)" for h k
    using assms unfolding shown_below_iff walk_ex [of _ _ g] by auto
  then show ?thesis by auto
qed

lemma shown_below_row:
  assumes "\<not> root_guid accounts g"
  shows "shown_below accounts expanded d g = insert (g, d)
    (if expanded g then \<Union>c\<in>{c. parent_of accounts c = Some g}. shown_below accounts expanded (d + 1) c else {})"
proof -
  have "(k = d + row_depth accounts (ns @ [g]) \<and> \<not> root_guid accounts h
        \<and> (\<forall>x\<in>set (ns @ [g]). root_guid accounts x \<or> expanded x))
      \<longleftrightarrow> expanded g \<and> k = d + 1 + row_depth accounts ns \<and> \<not> root_guid accounts h
        \<and> (\<forall>x\<in>set ns. root_guid accounts x \<or> expanded x)" for h k ns
    using assms by (auto simp: row_depth_def)
  then have "(h, k) \<in> shown_below accounts expanded d g \<longleftrightarrow> h = g \<and> k = d + row_depth accounts [] \<and> \<not> root_guid accounts h
      \<or> (\<exists>c. parent_of accounts c = Some g \<and> (\<exists>ns. walk (parent_of accounts) h ns c \<and> expanded g
          \<and> k = d + 1 + row_depth accounts ns \<and> \<not> root_guid accounts h
          \<and> (\<forall>x\<in>set ns. root_guid accounts x \<or> expanded x)))" for h k
    by (simp only: shown_below_iff walk_ex [of _ _ g]) simp
  then have "(h, k) \<in> shown_below accounts expanded d g \<longleftrightarrow> (h, k) = (g, d)
      \<or> expanded g \<and> (\<exists>c. parent_of accounts c = Some g \<and> (h, k) \<in> shown_below accounts expanded (d + 1) c)" for h k
    using assms unfolding shown_below_iff [of _ _ _ _ "d + 1"] by (auto simp: row_depth_def)
  then show ?thesis by auto
qed

lemma well_shaped_root:
  assumes "distinct (map acc_guid accounts)" and "well_shaped accounts (AccNode a (Some ts))"
  shows "root_guid accounts (acc_guid a) \<longleftrightarrow> acc_type a = ROOT"
proof -
  obtain x where x: "x \<in> set accounts"
      "a = x\<lparr>acc_agg_balance := acc_agg_balance a, acc_agg_reconciled := acc_agg_reconciled a\<rparr>"
    using assms(2) by auto
  have "acc_guid a = acc_guid x" "acc_type a = acc_type x"
    using arg_cong [OF x(2), of acc_guid] arg_cong [OF x(2), of acc_type] by simp_all
  moreover have "y = x" if "y \<in> set accounts" "acc_guid y = acc_guid x" for y
    using guid_unique [OF assms(1) that(1) x(1) that(2)] .
  ultimately show ?thesis using x(1) unfolding root_guid_def by metis
qed

text \<open>The rows of a subtree\<close>

lemma tree_rows_shown:
  assumes d: "distinct (map acc_guid accounts)"
  shows "well_shaped accounts T \<Longrightarrow>
    (\<lambda>r. (tr_guid r, tr_depth r)) ` set (tree_rows lang rec expanded depth T)
      = shown_below accounts expanded depth (acc_guid (node_account T))"
proof (induction T arbitrary: depth)
  case (AccNode a cs)
  let ?row = "\<lambda>r. (tr_guid r, tr_depth r)"
  obtain ts where cs: "cs = Some ts" using AccNode.prems by (cases cs) auto
  have root: "root_guid accounts (acc_guid a) \<longleftrightarrow> acc_type a = ROOT"
    using AccNode.prems well_shaped_root [OF d] by (simp only: cs)
  have kids: "map (\<lambda>c. acc_guid (node_account c)) ts = kids_of accounts (acc_guid a)"
    and ts: "\<forall>c\<in>set ts. well_shaped accounts c" using AccNode.prems cs by (auto simp: list_all_iff)
  have below: "?row ` set (concat (map (tree_rows lang rec expanded k) ts))
      = (\<Union>c\<in>{c. parent_of accounts c = Some (acc_guid a)}. shown_below accounts expanded k c)" for k
  proof -
    have "?row ` set (concat (map (tree_rows lang rec expanded k) ts))
        = (\<Union>c\<in>set ts. ?row ` set (tree_rows lang rec expanded k c))" by auto
    also have "\<dots> = (\<Union>c\<in>set ts. shown_below accounts expanded k (acc_guid (node_account c)))"
      using AccNode.IH cs ts by (intro SUP_cong) auto
    also have "\<dots> = (\<Union>g\<in>set (kids_of accounts (acc_guid a)). shown_below accounts expanded k g)"
      unfolding kids [symmetric] by simp
    finally show ?thesis by (simp only: set_kids_of [OF d])
  qed
  show ?case
  proof (cases "acc_type a = ROOT")
    case True
    then have "tree_rows lang rec expanded depth (AccNode a cs) = concat (map (tree_rows lang rec expanded depth) ts)"
      by (simp add: cs)
    with True show ?thesis by (simp only: below account_tree.sel shown_below_root root)
  next
    case False
    then show ?thesis
      by (simp add: shown_below_row root cs below del: set_concat set_map)
  qed
qed

text \<open>The rows follow the order of the tree.\<close>

lemma subseq_concat: "(\<And>x. x \<in> set xs \<Longrightarrow> subseq (f x) (g x)) \<Longrightarrow> subseq (concat (map f xs)) (concat (map g xs))"
  by (induction xs) (auto intro: list_emb_append_mono)

lemma tree_rows_subseq: "subseq (map tr_guid (tree_rows lang rec expanded depth T)) (collectGuids T)"
proof (induction T arbitrary: depth)
  case (AccNode a cs)
  show ?case
  proof (cases cs)
    case None
    then show ?thesis by (simp add: list_emb_Nil)
  next
    case (Some ts)
    then have "subseq (concat (map (\<lambda>c. map tr_guid (tree_rows lang rec expanded k c)) ts)) (concat (map collectGuids ts))" for k
      using AccNode.IH by (intro subseq_concat) auto
    then have "subseq (map tr_guid (concat (map (tree_rows lang rec expanded k) ts))) (concat (map collectGuids ts))" for k
      by (simp add: map_concat comp_def)
    with Some show ?thesis by (auto simp: Let_def simp del: map_concat)
  qed
qed

text \<open>
  C8. The chart of accounts shows exactly the accounts from which every step up leads through
  expanded accounts to the top; each has one row, indented by the number of accounts above it that
  have rows themselves, and the rows follow the order of the tree.
\<close>

theorem visible_rows:
  assumes "distinct (map acc_guid accounts)"
    and "account_table lang rec expanded accounts = Some (Inr (header, rows))"
  shows "distinct (map tr_guid rows)
    \<and> set (map (\<lambda>r. (tr_guid r, tr_depth r)) rows)
       = {(h, row_depth accounts anc) |h anc. h \<in> guids accounts \<and> chain (parent_of accounts) h (h # anc)
           \<and> \<not> root_guid accounts h \<and> (\<forall>x\<in>set anc. root_guid accounts x \<or> expanded x)}
    \<and> (\<exists>ts. buildTree accounts = Some ts \<and> subseq (map tr_guid rows) (concat (map collectGuids ts)))"
proof -
  let ?p = "parent_of accounts"
  obtain ts where ts: "buildTree accounts = Some ts" "rows = concat (map (tree_rows lang rec expanded 0) ts)"
    using assms(2) by (auto simp: account_table_def split: if_splits)
  have "subseq (concat (map (\<lambda>T. map tr_guid (tree_rows lang rec expanded 0 T)) ts)) (concat (map collectGuids ts))"
    by (rule subseq_concat) (rule tree_rows_subseq)
  then have sub: "subseq (map tr_guid rows) (concat (map collectGuids ts))" by (simp add: ts(2) map_concat comp_def)
  have roots: "map (\<lambda>T. acc_guid (node_account T)) ts = roots_of accounts" "\<forall>T\<in>set ts. well_shaped accounts T"
    using tree_nodes [OF assms(1) ts(1)] by (auto simp: list_all_iff)
  have "set (map (\<lambda>r. (tr_guid r, tr_depth r)) rows)
      = (\<Union>T\<in>set ts. (\<lambda>r. (tr_guid r, tr_depth r)) ` set (tree_rows lang rec expanded 0 T))" by (auto simp: ts(2))
  also have "\<dots> = (\<Union>T\<in>set ts. shown_below accounts expanded 0 (acc_guid (node_account T)))"
    using roots(2) tree_rows_shown [OF assms(1)] by (intro SUP_cong) auto
  also have "\<dots> = (\<Union>g\<in>set (roots_of accounts). shown_below accounts expanded 0 g)"
    unfolding roots(1) [symmetric] by simp
  also have "\<dots> = {(h, row_depth accounts anc) |h anc. h \<in> guids accounts \<and> (\<exists>r. walk ?p h anc r \<and> ?p r = None)
      \<and> \<not> root_guid accounts h \<and> (\<forall>x\<in>set anc. root_guid accounts x \<or> expanded x)}"
    unfolding set_roots_of [OF assms(1)] shown_below_def using walk_guids by fastforce
  finally show ?thesis
    unfolding chain_iff_walk
    using sub ts(1) subseq_distinct [OF sub] tree_guids [OF assms(1) ts(1)] by blast
qed

text \<open>The bank account \<open>c\<close> below the account \<open>b\<close>, which is closed, and this below the root \<open>r\<close>\<close>

theorem visible_rows_witness:
  "\<exists>header rows. account_table ''en'' False (\<lambda>g. g = ''r'') sample_accounts = Some (Inr (header, rows))
    \<and> (''b'', 0) \<in> set (map (\<lambda>r. (tr_guid r, tr_depth r)) rows) \<and> ''c'' \<notin> set (map tr_guid rows)"
proof -
  let ?p = "parent_of sample_accounts"
  obtain ts where ts: "buildTree sample_accounts = Some ts" using buildTree_total [OF sample_accounts_distinct] by blast
  have "roots_of sample_accounts = [''r'']" by code_simp
  then have "ts \<noteq> []" using tree_nodes [OF sample_accounts_distinct ts] by auto
  then obtain header rows where table: "account_table ''en'' False (\<lambda>g. g = ''r'') sample_accounts = Some (Inr (header, rows))"
    by (simp add: account_table_def ts)
  have up: "?p ''r'' = None" "?p ''b'' = Some ''r''" "?p ''c'' = Some ''b''" by code_simp+
  have b: "chain ?p ''b'' [''b'', ''r'']" using chain_up [of ?p "''b''", OF up(2)] chain_root [of ?p "''r''", OF up(1)] by blast
  have c: "anc = [''b'', ''r'']" if "chain ?p ''c'' (''c'' # anc)" for anc
    using chain_unique [OF that chain_up [of ?p "''c''", OF up(3) b]] by simp
  have kinds: "root_guid sample_accounts ''r''" "\<not> root_guid sample_accounts ''b''" "''b'' \<in> guids sample_accounts" by code_simp+
  have all: "set (map (\<lambda>r. (tr_guid r, tr_depth r)) rows)
      = {(h, row_depth sample_accounts anc) |h anc. h \<in> guids sample_accounts \<and> chain ?p h (h # anc)
          \<and> \<not> root_guid sample_accounts h \<and> (\<forall>x\<in>set anc. root_guid sample_accounts x \<or> x = ''r'')}"
    using visible_rows [OF sample_accounts_distinct table] by blast
  have "row_depth sample_accounts [''r''] = 0" using kinds(1) by (simp add: row_depth_def)
  with b kinds have "(''b'', 0) \<in> set (map (\<lambda>r. (tr_guid r, tr_depth r)) rows)" unfolding all by force
  moreover have "''c'' \<notin> set (map tr_guid rows)"
  proof
    assume "''c'' \<in> set (map tr_guid rows)"
    then obtain k where "(''c'', k) \<in> set (map (\<lambda>r. (tr_guid r, tr_depth r)) rows)" by auto
    then obtain anc where "chain ?p ''c'' (''c'' # anc)" "\<forall>x\<in>set anc. root_guid sample_accounts x \<or> x = ''r''"
      unfolding all by blast
    moreover from this(1) have "anc = [''b'', ''r'']" by (rule c)
    ultimately show False using kinds(2) by simp
  qed
  ultimately show ?thesis using table by blast
qed

end
