(* ===== verification/AccountFormView.thy ===== *)
theory AccountFormView
  imports AccountFormLaws
begin

text \<open>
  The dialog of the account editor as it is shown (the markup of
  \<^verbatim>\<open>components/AccountForm.tsx\<close>) and the ways to close it. Outside of the server's answer
  the dialog is closed by Escape, by a click beside it and by its button.
\<close>

section \<open>Closing\<close>

text \<open>The listener on the document: Escape closes, whatever has the focus.\<close>

definition form_key :: "string \<Rightarrow> bool" where
  "form_key key \<longleftrightarrow> key = ''Escape''"

datatype dialog_click = ClickOverlay | ClickInside | ClickCancel

text \<open>A click inside does not reach the overlay.\<close>

fun dialog_closes :: "dialog_click \<Rightarrow> bool" where
  "dialog_closes ClickOverlay = True"
| "dialog_closes ClickInside = False"
| "dialog_closes ClickCancel = True"

section \<open>Fields\<close>

text \<open>The options of the parent field: the top level first, then the accounts with their prefixes\<close>

definition parent_select ::
  "language \<Rightarrow> account list \<Rightarrow> account option \<Rightarrow> (string \<times> branch list \<times> string) list option" where
  "parent_select lang accounts editing =
     map_option (\<lambda>opts. ([], [], t lang ''accounts.topLevel'') # opts) (parent_options accounts editing)"

record account_dialog =
  ad_title :: string
  ad_name :: "string \<times> string"
  ad_description :: "string \<times> string"
  ad_parent :: "string \<times> string \<times> (string \<times> branch list \<times> string) list"
  ad_types :: "string \<times> (account_type \<times> string \<times> string option) list"
  ad_placeholder :: "string \<times> bool"
  ad_error :: "string option"
  ad_cancel :: string
  ad_submit :: "string \<times> bool"

text \<open>The dialog; \<open>None\<close> when the tree of the accounts cannot be built\<close>

definition account_dialog_of ::
  "language \<Rightarrow> account list \<Rightarrow> account option \<Rightarrow> account_form \<Rightarrow> account_dialog option" where
  "account_dialog_of lang accounts editing st =
     map_option (\<lambda>opts.
       \<lparr>ad_title = (if editing \<noteq> None then t lang ''accounts.editAccount'' else t lang ''accounts.newAccount''),
        ad_name = (t lang ''accounts.name'', af_name st),
        ad_description = (t lang ''accounts.description'', af_description st),
        ad_parent = (t lang ''accounts.parentAccount'', af_parent st, opts),
        ad_types = (t lang ''accounts.accountType'', type_buttons lang st),
        ad_placeholder = (t lang ''accounts.placeholder'', af_placeholder st),
        ad_error = (if truthy (af_error st) then af_error st else None),
        ad_cancel = t lang ''accounts.cancel'',
        ad_submit = (account_submit_label lang editing st, \<not> af_loading st)\<rparr>)
     (parent_select lang accounts editing)"

text \<open>
  The dialog is there for every list of accounts with distinct guids, and the only type of an
  edited account that no button shows as selected is one the user cannot choose.
\<close>

lemma dialog_total:
  assumes "distinct (map acc_guid accounts)"
  shows "account_dialog_of lang accounts editing st \<noteq> None"
  using form_tree_total [OF assms] by (simp add: account_dialog_of_def parent_select_def parent_options_def)

lemma no_type_selected:
  "(\<forall>(ty, label, colour)\<in>set (type_buttons lang st). colour = None) \<longleftrightarrow> af_type st \<in> {ROOT, INCOME, EXPENSE, EQUITY}"
  by (cases "af_type st") (simp_all add: type_buttons_def USER_ACCOUNT_TYPES_def)

end
