(* ===== verification/DashboardView.thy ===== *)
theory DashboardView
  imports DashboardLaws
begin

text \<open>
  What the dashboard shows as a whole (the markup of \<^verbatim>\<open>pages/Dashboard.tsx\<close>): the header
  with its choices, the five figures, the cash flow, the breakdown of the expenses, the top accounts
  and the overview. \<open>money\<close> is \<open>formatCurrency\<close> in the current language.
\<close>

text \<open>The card of the net worth: whether it is in green, and its texts\<close>

definition net_worth_card :: "(number \<Rightarrow> string) \<Rightarrow> language \<Rightarrow> shown_figures \<Rightarrow> bool \<times> string \<times> string \<times> string" where
  "net_worth_card money lang f =
     (num_le zero (sf_net_worth f), t lang ''dashboard.netWorth'', money (sf_net_worth f), t lang ''dashboard.netWorthDesc'')"

text \<open>The four small cards: label, colours and text\<close>

definition metric_cards :: "(number \<Rightarrow> string) \<Rightarrow> language \<Rightarrow> shown_figures \<Rightarrow> (string \<times> string \<times> string \<times> string) list" where
  "metric_cards money lang f =
     [(t lang ''dashboard.assets'', MetricCard money (sf_assets f) ''asset''),
      (t lang ''dashboard.liabilities'', MetricCard money (sf_liabilities f) ''liability''),
      (t lang ''dashboard.income'', MetricCard money (sf_income f) ''income''),
      (t lang ''dashboard.expenses'', MetricCard money (sf_expenses f) ''expense'')]"

text \<open>The labels of the two bars of the cash flow and of its last line, with the bars\<close>

definition cash_flow_card ::
  "(number \<Rightarrow> string) \<Rightarrow> language \<Rightarrow> shown_figures \<Rightarrow>
     string \<times> (string \<times> string \<times> string) \<times> (number \<times> string \<times> string) list \<times> bool \<times> string \<times> string" where
  "cash_flow_card money lang f =
     (t lang ''dashboard.cashFlow'', (t lang ''dashboard.moneyIn'', t lang ''dashboard.moneyOut'', ''Net''),
      CashFlowBars money (sf_income f) (sf_expenses f))"

text \<open>The ring of expenses with its legend, or a note\<close>

definition breakdown_card ::
  "(number \<Rightarrow> string) \<Rightarrow> language \<Rightarrow> dashboard_page \<Rightarrow>
     string \<times> (string + (number \<times> number \<times> number \<times> string) list \<times> (string \<times> string \<times> string) list)" where
  "breakdown_card money lang st =
     (t lang ''dashboard.expenseBreakdown'',
      if sf_segments (figures st) = [] then Inl (t lang ''dashboard.noData'')
      else Inr (SegmentDonut (num_of_int 130) (num_of_int 16) (sf_segments (figures st)), legend money st))"

text \<open>The ring of assets and liabilities with the two pairs of bars\<close>

definition overview_card ::
  "(number \<Rightarrow> string) \<Rightarrow> language \<Rightarrow> shown_figures \<Rightarrow>
     string \<times> (number \<times> number \<times> number \<times> string) list \<times> (string \<times> string \<times> number \<times> string) list" where
  "overview_card money lang f = (t lang ''dashboard.balanceOverview'', overview_donut f, overview_bars money lang f)"

record dashboard_view =
  dv_title :: "string \<times> string"
  dv_ranges :: "(string \<times> string) list \<times> string"
  dv_toggle :: "(string \<times> bool \<times> bool) list"
  dv_net_worth :: "bool \<times> string \<times> string \<times> string"
  dv_metrics :: "(string \<times> string \<times> string \<times> string) list"
  dv_cash_flow :: "string \<times> (string \<times> string \<times> string) \<times> (number \<times> string \<times> string) list \<times> bool \<times> string \<times> string"
  dv_breakdown :: "string \<times> (string + (number \<times> number \<times> number \<times> string) list \<times> (string \<times> string \<times> string) list)"
  dv_top :: "string \<times> (string + bar list)"
  dv_overview :: "string \<times> (number \<times> number \<times> number \<times> string) list \<times> (string \<times> string \<times> number \<times> string) list"

text \<open>While loading only a note is shown.\<close>

definition dashboard_view_of :: "(number \<Rightarrow> string) \<Rightarrow> language \<Rightarrow> dashboard_page \<Rightarrow> string + dashboard_view" where
  "dashboard_view_of money lang st =
     (if dh_loading st then Inl (t lang ''common.loading'')
      else Inr (let f = figures st in
        \<lparr>dv_title = (t lang ''dashboard.title'', t lang ''dashboard.subtitle''),
         dv_ranges = (range_options lang, dh_range st), dv_toggle = ToggleGroup lang (dh_reconciled st),
         dv_net_worth = net_worth_card money lang f, dv_metrics = metric_cards money lang f,
         dv_cash_flow = cash_flow_card money lang f, dv_breakdown = breakdown_card money lang st,
         dv_top = (t lang ''dashboard.topAccounts'', HorizBars money lang (sf_top f)),
         dv_overview = overview_card money lang f\<rparr>))"

text \<open>
  The legend names the first six slices of the ring, in their order and with their colours; further
  slices have no entry.
\<close>

lemma legend_names_slices: "map fst (legend money st) = take 6 (map snd (sf_segments (figures st)))"
  by (simp add: legend_def figures_def Let_def comp_def take_map)

lemma legend_empty: "legend money st = [] \<longleftrightarrow> sf_segments (figures st) = []"
  by (simp add: legend_def figures_def Let_def)

text \<open>The selected range is always one that is offered, whatever is chosen from the offer.\<close>

lemma range_offered:
  assumes "dh_range st \<in> fst ` set (range_options lang)" and "rg \<in> fst ` set (range_options lang)"
  shows "dh_range (fst (select_range range_of rg st)) \<in> fst ` set (range_options lang)"
  using assms by (auto simp: select_range_def dashboard_load_def split: prod.splits)

end
