(* ===== verification/DataView.thy ===== *)
theory DataView
  imports DataLaws
begin

text \<open>
  What the page for import and export shows as a whole (the markup of
  \<^verbatim>\<open>pages/DataManagement.tsx\<close>). \<open>local_text\<close> is the host's rendering of a date. Texts
  of the program outside ASCII are their bytes.
\<close>

definition em_dash :: string where
  "em_dash = '' '' @ [CHR 0xE2, CHR 0x80, CHR 0x94] @ '' ''"

section \<open>Sections of the card\<close>

text \<open>Heading and description of the parts of the card\<close>

definition export_section :: "language \<Rightarrow> string \<times> string" where
  "export_section lang =
     (t_or lang ''data.exportTitle'' ''Export Data'',
      t_or lang ''data.exportDesc'' ''Download your accounts and transactions as a JSON file.'')"

fun upload_section :: "language \<Rightarrow> upload \<Rightarrow> string \<times> string" where
  "upload_section lang JsonFile =
     (t_or lang ''data.importTitle'' ''Import Data'',
      t_or lang ''data.importDesc''
        ''Import accounts and transactions from a JSON file. This will REPLACE your current book data.'')"
| "upload_section lang GnucashFile =
     (t_or lang ''data.importGnucashTitle'' ''Import Data (GnuCash)'',
      t_or lang ''data.importGnucashDesc''
        ''Import accounts and transactions from a .gnucash file. This will REPLACE your current book data.'')"
| "upload_section lang CsvFile = (t lang ''data.importCsvTitle'', t lang ''data.importCsvDesc'')"

text \<open>The files a file dialog offers\<close>

fun upload_accept :: "upload \<Rightarrow> string" where
  "upload_accept JsonFile = ''.json''"
| "upload_accept GnucashFile = ''.gnucash''"
| "upload_accept CsvFile = ''.csv''"

definition reset_section :: "string \<times> string" where
  "reset_section =
     (''Danger Zone'',
      ''Permanently delete all data in your account and reset to the default chart of accounts.'')"

section \<open>The bank\<close>

text \<open>A row of the mapping: the account of the bank with its last digits, and the chosen account\<close>

definition mapping_rows :: "data_page \<Rightarrow> (string \<times> string) list" where
  "mapping_rows st =
     map (\<lambda>ba. (ba_name ba @ '' ('' @ [CHR 0xE2, CHR 0x80, CHR 0xA6] @ ba_mask ba @ '')'',
                case map_of (dp_mappings st) (ba_id ba) of Some g \<Rightarrow> g | None \<Rightarrow> [])) (dp_bank_accounts st)"

record mapping_form =
  mf_heading :: "string \<times> string"
  mf_rows :: "(string \<times> string) list"
  mf_options :: "(string \<times> string) list"
  mf_pending :: "string \<times> bool"
  mf_save :: "string \<times> bool"

definition mapping_form_of :: "language \<Rightarrow> data_page \<Rightarrow> mapping_form option" where
  "mapping_form_of lang st =
     (case dp_item st of
        Some (guid, institution) \<Rightarrow>
          if dp_step st = Mapping
          then Some \<lparr>mf_heading = (institution, em_dash @ t lang ''plaid.mapAccounts''), mf_rows = mapping_rows st,
                     mf_options = mapping_options lang st,
                     mf_pending = (t lang ''plaid.importPending'', dp_import_pending st),
                     mf_save = (if dp_connecting st then t lang ''plaid.connecting'' else t lang ''plaid.save'',
                                \<not> dp_connecting st)\<rparr>
          else None
      | None \<Rightarrow> None)"

text \<open>The connected banks, if any: heading, rows, and the label of the button to disconnect\<close>

definition connected_banks ::
  "(string \<Rightarrow> string) \<Rightarrow> language \<Rightarrow> data_page \<Rightarrow> (string \<times> (string \<times> string \<times> bool \<times> string) list \<times> string) option" where
  "connected_banks local_text lang st =
     (if dp_items st = [] then None
      else Some (t lang ''plaid.connectedBanks'', item_rows local_text lang st, t lang ''plaid.disconnect''))"

section \<open>The page\<close>

text \<open>The card: export, the three imports with the target of the second, and the reset\<close>

record data_card =
  dc_export :: "(string \<times> string) \<times> string \<times> bool"
  dc_uploads :: "((string \<times> string) \<times> string \<times> string \<times> bool) list"
  dc_target :: "(string \<times> string) list \<times> string"
  dc_reset :: "(string \<times> string) \<times> string \<times> bool"

definition data_card_of :: "language \<Rightarrow> data_page \<Rightarrow> data_card" where
  "data_card_of lang st =
     \<lparr>dc_export = (export_section lang, export_button lang st),
      dc_uploads = map (\<lambda>k. (upload_section lang k, upload_accept k, upload_button lang k st)) [JsonFile, GnucashFile, CsvFile],
      dc_target = (target_options lang st, dp_selected st), dc_reset = (reset_section, reset_button lang st)\<rparr>"

text \<open>The section of the bank: heading, message, what belongs to the step, the connected banks\<close>

record bank_section =
  bs_heading :: string
  bs_message :: "(alert_tone \<times> string) option"
  bs_panel :: bank_panel
  bs_mapping :: "mapping_form option"
  bs_items :: "(string \<times> (string \<times> string \<times> bool \<times> string) list \<times> string) option"

definition bank_section_of :: "(string \<Rightarrow> string) \<Rightarrow> language \<Rightarrow> data_page \<Rightarrow> bank_section" where
  "bank_section_of local_text lang st =
     \<lparr>bs_heading = t lang ''plaid.connectBank'', bs_message = dp_plaid_message st, bs_panel = bank_panel_of lang st,
      bs_mapping = mapping_form_of lang st, bs_items = connected_banks local_text lang st\<rparr>"

record data_view =
  vw_title :: "string \<times> string"
  vw_message :: "(alert_tone \<times> string) option"
  vw_card :: data_card
  vw_bank :: bank_section
  vw_matcher :: "(string \<times> sync_suggestion list) option"

definition data_view_of :: "(string \<Rightarrow> string) \<Rightarrow> language \<Rightarrow> data_page \<Rightarrow> data_view" where
  "data_view_of local_text lang st =
     \<lparr>vw_title = (t_or lang ''nav.data'' ''Data Management'', ''Import and export your financial data.''),
      vw_message = dp_message st, vw_card = data_card_of lang st, vw_bank = bank_section_of local_text lang st,
      vw_matcher = map_option (\<lambda>s. (dp_institution st, s)) (dp_suggestions st)\<rparr>"

text \<open>The form of the mapping is shown exactly with the table of the mapping.\<close>

lemma mapping_form_iff: "(\<exists>f. mapping_form_of lang st = Some f) \<longleftrightarrow> (\<exists>i rows b. bank_panel_of lang st = MappingTable i rows b)"
  by (auto simp: mapping_form_of_def bank_panel_of_def split: option.splits plaid_state.splits)

text \<open>
  While one bank is being synchronised no row lets another synchronisation begin, and only the row
  of that bank says so.
\<close>

lemma sync_buttons:
  assumes "dp_syncing st = Some g"
  shows "list_all (\<lambda>(name, when, enabled, label). \<not> enabled) (item_rows local_text lang st)"
  using assms by (simp add: item_rows_def list_all_iff)

end
