(* ===== verification/SnapshotsView.thy ===== *)
theory SnapshotsView
  imports SnapshotsLaws
begin

text \<open>
  What the page of snapshots shows as a whole (the markup of \<^verbatim>\<open>pages/Snapshots.tsx\<close>).
  \<open>local_text\<close> is the host's rendering of a date.
\<close>

text \<open>The schedule: heading, description, both numbers, the check box, and the button\<close>

record schedule_form =
  sc_heading :: "string \<times> string"
  sc_frequency :: "string \<times> number"
  sc_ttl :: "string \<times> number"
  sc_active :: "string \<times> bool"
  sc_save :: "string \<times> bool"

definition schedule_form_of :: "language \<Rightarrow> snapshots_page \<Rightarrow> schedule_form" where
  "schedule_form_of lang st =
     \<lparr>sc_heading = (t lang ''snapshots.scheduleTitle'', t lang ''snapshots.scheduleDesc''),
      sc_frequency = (t lang ''snapshots.frequency'', sn_frequency st),
      sc_ttl = (t lang ''snapshots.ttl'', sn_ttl st),
      sc_active = (t lang ''snapshots.activeMode'', sn_active st), sc_save = save_button lang st\<rparr>"

text \<open>The label, its placeholder, value and greatest length\<close>

record manual_form =
  mn_heading :: "string \<times> string"
  mn_label :: "string \<times> string \<times> string \<times> nat"
  mn_take :: "string \<times> bool"

definition manual_form_of :: "language \<Rightarrow> snapshots_page \<Rightarrow> manual_form" where
  "manual_form_of lang st =
     \<lparr>mn_heading = (t lang ''snapshots.manualTitle'', t lang ''snapshots.manualDesc''),
      mn_label = (t lang ''snapshots.label'', t lang ''snapshots.labelPlaceholder'', sn_label st, 200),
      mn_take = take_button lang st\<rparr>"

text \<open>The list: heading with the number, and either a note or the table with the label of its second button\<close>

definition snapshot_table ::
  "(string \<Rightarrow> string) \<Rightarrow> language \<Rightarrow> snapshots_page \<Rightarrow>
     (string \<times> nat option) \<times> (string + string list \<times> snapshot_row list \<times> string)" where
  "snapshot_table local_text lang st =
     ((t lang ''snapshots.listTitle'', list_badge st),
      case empty_text lang st of
        Some s \<Rightarrow> Inl s
      | None \<Rightarrow> Inr ([t lang ''snapshots.colDate'', t lang ''snapshots.colLabel'', t lang ''snapshots.colSource'',
                       t lang ''snapshots.colActions''],
                      snapshot_rows local_text lang st, t lang ''snapshots.delete''))"

record snapshots_view =
  sw_title :: "string \<times> string"
  sw_message :: "(snap_tone \<times> string) option"
  sw_schedule :: schedule_form
  sw_manual :: manual_form
  sw_list :: "(string \<times> nat option) \<times> (string + string list \<times> snapshot_row list \<times> string)"

definition snapshots_view_of :: "(string \<Rightarrow> string) \<Rightarrow> language \<Rightarrow> snapshots_page \<Rightarrow> snapshots_view" where
  "snapshots_view_of local_text lang st =
     \<lparr>sw_title = (t lang ''snapshots.title'', t lang ''snapshots.subtitle''), sw_message = sn_message st,
      sw_schedule = schedule_form_of lang st, sw_manual = manual_form_of lang st,
      sw_list = snapshot_table local_text lang st\<rparr>"

text \<open>The number beside the heading is shown exactly with the table, and counts its rows.\<close>

lemma badge_counts_rows:
  "(case snd (snapshot_table local_text lang st) of
      Inl s \<Rightarrow> list_badge st = None
    | Inr (header, rows, d) \<Rightarrow> list_badge st = Some (length rows))"
  by (simp add: snapshot_table_def empty_text_def list_badge_def snapshot_rows_def)

text \<open>Both buttons of a row are disabled exactly while the snapshot is being restored or deleted.\<close>

lemma busy_row_buttons:
  assumes "i < length (sn_list st)"
  shows "sr_enabled (snapshot_rows local_text lang st ! i) \<longleftrightarrow>
    sn_restoring st \<noteq> Some (ss_id (sn_list st ! i)) \<and> sn_deleting st \<noteq> Some (ss_id (sn_list st ! i))"
  using assms by (simp add: snapshot_rows_def)

end
