(* ===== verification/AppView.thy ===== *)
theory AppView
  imports SessionLaws
begin

text \<open>
  The frame of the application: the layout with the menu that opens on small screens
  (\<^verbatim>\<open>App.tsx\<close>, \<^verbatim>\<open>components/Sidebar.tsx\<close>), and the sign-in page as it is shown
  (\<^verbatim>\<open>pages/LoginPage.tsx\<close>).
\<close>

section \<open>The menu\<close>

text \<open>Whether the menu is open, and the clicks that matter to it\<close>

datatype menu_click = ClickMenuButton | ClickBackdrop | ClickCloseButton | ClickEntry string

fun menu_step :: "menu_click \<Rightarrow> bool \<Rightarrow> bool" where
  "menu_step ClickMenuButton sidebarOpen = True"
| "menu_step ClickBackdrop sidebarOpen = (if sidebarOpen then False else sidebarOpen)"
| "menu_step ClickCloseButton sidebarOpen = False"
| "menu_step (ClickEntry path) sidebarOpen = False"

text \<open>An entry also leads to its page.\<close>

fun menu_path :: "menu_click \<Rightarrow> string option" where
  "menu_path (ClickEntry path) = Some path"
| "menu_path _ = None"

text \<open>
  Path, label, shortcut and whether the entry is marked; \<open>active\<close> is the router's comparison with
  the present path, exact for the first entry (\<^verbatim>\<open>end\<close>).
\<close>

definition sidebar_nav ::
  "(bool \<Rightarrow> string \<Rightarrow> bool) \<Rightarrow> language \<Rightarrow> (string \<times> string \<times> string option \<times> bool) list" where
  "sidebar_nav active lang =
     map (\<lambda>(path, label, key). (path, label, key, active (path = ''/'') path)) (sidebar_items lang)"

datatype layout =
    SpinnerOnly
  | SignIn
  | Layout bool "(string \<times> string \<times> string option \<times> bool) list" "string option" bool "route option"

text \<open>In the layout: the menu and whether it is open, the user, the backdrop, and the page\<close>

definition app_layout ::
  "(string list \<Rightarrow> string \<Rightarrow> string) \<Rightarrow> (bool \<Rightarrow> string \<Rightarrow> bool) \<Rightarrow> language \<Rightarrow> session \<Rightarrow> bool \<Rightarrow> string \<Rightarrow> layout" where
  "app_layout pick active lang s sidebarOpen path =
     (case app_screen pick s path of
        Spinner \<Rightarrow> SpinnerOnly
      | LoginScreen \<Rightarrow> SignIn
      | Main r \<Rightarrow> Layout sidebarOpen (sidebar_nav active lang) (sidebar_user (au_user s)) sidebarOpen r)"

text \<open>Whatever was clicked before, following an entry closes the menu, and the button opens it.\<close>

lemma menu_after:
  "fold menu_step (cs @ [ClickEntry p]) b = False" "fold menu_step (cs @ [ClickMenuButton]) b = True"
  by simp_all

text \<open>Every entry of the menu is the path of a page of its own.\<close>

lemma entries_lead_to_pages:
  "distinct (map fst (sidebar_items lang))
   \<and> list_all (\<lambda>p. p \<in> set (map fst app_routes) \<and> map_of app_routes p \<noteq> Some RedirectHome) (map fst (sidebar_items lang))"
  by (simp add: sidebar_items_def app_routes_def)

section \<open>The sign-in page\<close>

text \<open>Both tabs with the active one\<close>

definition login_tabs :: "login_page \<Rightarrow> (string \<times> login_mode \<times> bool) list" where
  "login_tabs st =
     [(''Sign In'', LoginMode, lp_mode st = LoginMode), (''Register'', RegisterMode, lp_mode st = RegisterMode)]"

text \<open>Kind and placeholder of the fields; the password's is eight dots\<close>

definition login_inputs :: "login_page \<Rightarrow> (string \<times> string) list" where
  "login_inputs st =
     (if lp_mode st = RegisterMode then [(''text'', ''Your name'')] else [])
     @ [(''email'', ''you@example.com''), (''password'', concat (replicate 8 [CHR 0xE2, CHR 0x80, CHR 0xA2]))]"

record login_view =
  lv_heading :: string
  lv_tabs :: "(string \<times> login_mode \<times> bool) list"
  lv_fields :: "((string \<times> string) \<times> string \<times> string \<times> nat option) list"
  lv_error :: "string option"
  lv_button :: "string \<times> bool"

definition login_view_of :: "login_page \<Rightarrow> login_view" where
  "login_view_of st =
     \<lparr>lv_heading = login_heading st, lv_tabs = login_tabs st, lv_fields = zip (login_inputs st) (login_fields st),
      lv_error = (if lp_error st \<noteq> [] then Some (lp_error st) else None), lv_button = (login_label st, \<not> lp_loading st)\<rparr>"

text \<open>
  What the browser requires before it lets a form be submitted: no field empty, and a password of
  eight characters for a new account
\<close>

definition form_filled :: "login_page \<Rightarrow> bool" where
  "form_filled st \<longleftrightarrow>
     list_all (\<lambda>(label, v, least). v \<noteq> [] \<and> (case least of None \<Rightarrow> True | Some n \<Rightarrow> n \<le> length v)) (login_fields st)"

text \<open>Every field of the form is shown, and a registration with a filled form sends no empty value.\<close>

lemma all_fields_shown: "map snd (lv_fields (login_view_of st)) = login_fields st"
  by (simp add: login_view_of_def login_inputs_def login_fields_def)

lemma filled_registration:
  assumes "form_filled st" and "lp_mode st = RegisterMode"
  shows "lp_name st \<noteq> [] \<and> lp_email st \<noteq> [] \<and> 8 \<le> length (lp_password st)"
  using assms by (simp add: form_filled_def login_fields_def)

end
