(* ===== verification/TransactionsView.thy ===== *)
theory TransactionsView
  imports TransactionsPage
begin

text \<open>
  What the page of all transactions shows as a whole, and its clicks (the markup of
  \<^verbatim>\<open>pages/Transactions.tsx\<close>).
\<close>

section \<open>Clicks\<close>

text \<open>A click on a button of a row stays there and does not open the row.\<close>

datatype tx_part = RowPart | DuplicatePart | DeletePart

definition click_tx ::
  "bool \<Rightarrow> tx_part \<Rightarrow> transaction \<Rightarrow> transactions_page \<Rightarrow> transactions_page \<times> http_request option" where
  "click_tx confirmed part txn st =
     (case part of
        RowPart \<Rightarrow> (click_row txn st, None)
      | DuplicatePart \<Rightarrow> (click_duplicate txn st, None)
      | DeletePart \<Rightarrow> (st, tx_delete confirmed (tx_guid txn)))"

section \<open>The page\<close>

definition tx_header :: "language \<Rightarrow> string list" where
  "tx_header lang = [''# or ID'', t lang ''register.date'', t lang ''register.description'', ''Splits'', []]"

datatype transactions_view =
    TransactionsLoading string
  | TransactionsView "string \<times> string" "string \<times> string"
      "string + string list \<times> tx_line list \<times> string \<times> string" "form_props option"

text \<open>Title, the button for a new transaction with its key, a note or the table with the labels of its buttons, the dialog\<close>

definition transactions_view_of ::
  "(number \<Rightarrow> string) \<Rightarrow> language \<Rightarrow> (int \<Rightarrow> int) \<Rightarrow> int \<Rightarrow> transactions_page \<Rightarrow> transactions_view" where
  "transactions_view_of money lang offset now st =
     (if tp_loading st then TransactionsLoading (t lang ''common.loading'')
      else TransactionsView (t lang ''transactions.title'', t lang ''transactions.subtitle'')
             (t lang ''common.newTransaction'', ''N'')
             (if tp_transactions st = [] then Inl (t lang ''transactions.noTransactions'')
              else Inr (tx_header lang, tx_lines money offset now st, t lang ''common.duplicate'', t lang ''transactions.delete''))
             (dialog_props st))"

text \<open>The table has one row for every transaction that was loaded.\<close>

lemma row_count:
  assumes "transactions_view_of money lang offset now st = TransactionsView a b (Inr (h, rows, d, e)) p"
  shows "length rows = length (tp_transactions st)"
  using assms by (auto simp: transactions_view_of_def tx_lines_def split: if_splits)

text \<open>A click on a row opens the dialog for its transaction; the buttons of the row leave what is edited alone.\<close>

lemma row_opens:
  assumes "tx_guid txn \<noteq> []"
  shows "\<exists>p. dialog_props (fst (click_tx c RowPart txn st)) = Some p \<and> fp_edit p = Some (tx_guid txn)"
  using assms by (simp add: click_tx_def click_row_def dialog_props_def)

lemma buttons_keep_edit: "part \<noteq> RowPart \<Longrightarrow> tp_edit (fst (click_tx c part txn st)) = tp_edit st"
  by (cases part) (simp_all add: click_tx_def click_duplicate_def)

end
