(* ===== verification/MatcherView.thy ===== *)
theory MatcherView
  imports ImportMatcher
begin

text \<open>
  The dialog that reviews imported transactions as it is shown, and the ways to close it (the markup
  of \<^verbatim>\<open>components/ImportMatcher.tsx\<close>).
\<close>

section \<open>Closing\<close>

datatype matcher_click = ClickBackground | ClickContent | ClickCross | ClickMatcherCancel

text \<open>A click on the background itself closes the dialog, as does the cross, even while an import is running.\<close>

definition matcher_closes :: "matcher \<Rightarrow> matcher_click \<Rightarrow> bool" where
  "matcher_closes st c =
     (case c of
        ClickBackground \<Rightarrow> True
      | ClickContent \<Rightarrow> False
      | ClickCross \<Rightarrow> True
      | ClickMatcherCancel \<Rightarrow> \<not> im_importing st)"

text \<open>
  The dialog can be left while its import is running, although its button to cancel is disabled then;
  whatever failed is then reported nowhere.
\<close>

lemma leaves_running_import:
  "handleConfirm st = (st', Some payload) \<Longrightarrow> matcher_closes st' ClickCross \<and> \<not> matcher_closes st' ClickMatcherCancel"
  by (auto simp: matcher_closes_def handleConfirm_def split: if_splits)

section \<open>The dialog\<close>

record matcher_view =
  mv_title :: string
  mv_error :: "string option"
  mv_header :: "string list"
  mv_lines :: "matcher_line list"
  mv_category :: "string \<times> string"
  mv_dismiss :: "string \<times> string"
  mv_cancel :: "string \<times> bool"
  mv_confirm :: "string \<times> bool"

text \<open>
  The options of a category begin with the empty one, whose label is \<open>mv_category\<close>; every row has a
  button to dismiss it with a hint.
\<close>

definition matcher_view_of :: "language \<Rightarrow> string \<Rightarrow> matcher \<Rightarrow> matcher_view" where
  "matcher_view_of lang institutionName st =
     \<lparr>mv_title = institutionName @ '' '' @ [CHR 0xE2, CHR 0x80, CHR 0x94] @ '' '' @ t lang ''plaid.importTitle'',
      mv_error = (if truthy (im_error st) then im_error st else None), mv_header = matcher_header lang,
      mv_lines = matcher_lines st, mv_category = ([], t lang ''plaid.categoryRequired''),
      mv_dismiss = (t lang ''plaid.dismiss'', t lang ''plaid.dismissHint''),
      mv_cancel = (t lang ''plaid.cancel'', \<not> im_importing st), mv_confirm = (confirm_label lang st, confirm_enabled st)\<rparr>"

text \<open>The button that confirms is enabled exactly when a ticked line exists and every ticked line has a category.\<close>

lemma confirm_by_lines:
  "snd (mv_confirm (matcher_view_of lang name st)) \<longleftrightarrow>
     \<not> im_importing st
     \<and> (let ticked = filter ml_included (mv_lines (matcher_view_of lang name st))
        in ticked \<noteq> [] \<and> list_all (\<lambda>l. ml_category l \<noteq> []) ticked)"
  by (auto simp: matcher_view_of_def confirm_enabled_def allCategorized_def includedRows_def matcher_lines_def
      Let_def filter_map comp_def list_all_iff)

end
