(* ===== verification/AccountStore.thy ===== *)
theory AccountStore
  imports AccountFormLaws
begin

text \<open>
  The accounts as the server keeps them (\<open>CreateAccount\<close>, \<open>UpdateAccount\<close>, \<open>DeleteAccount\<close> of
  \<^verbatim>\<open>backend/internal/services/account_service.go\<close>), for one book, and what becomes of the
  chart of accounts when the account editor saves. The database's part is its constraints: guids are
  the primary key, and parents refer to them. \<open>splits\<close> is the number of splits of an account, \<open>book_root\<close>
  the account the book refers to as its root, which the database does not let go.
\<close>

section \<open>The operations of the server\<close>

datatype store_error = AccountMissing | VersionConflict | ConstraintViolated | HasSplits int | HasChildren int

definition account_known :: "account list \<Rightarrow> string \<Rightarrow> bool" where
  "account_known accounts g = list_ex (\<lambda>a. acc_guid a = g) accounts"

definition parent_valid :: "account list \<Rightarrow> string option \<Rightarrow> bool" where
  "parent_valid accounts p = (case p of None \<Rightarrow> True | Some g \<Rightarrow> account_known accounts g)"

definition store_create :: "string \<Rightarrow> account_fields \<Rightarrow> account list \<Rightarrow> store_error + account list" where
  "store_create guid f accounts =
     (if account_known accounts guid \<or> \<not> parent_valid accounts (fd_parent f) then Inl ConstraintViolated
      else Inr (accounts @
        [\<lparr>acc_guid = guid, acc_name = fd_name f, acc_type = fd_type f, acc_parent = fd_parent f,
          acc_placeholder = fd_placeholder f, acc_description = fd_description f, acc_metadata = [],
          acc_version = num_of_int 1, acc_balance = zero, acc_reconciled = zero, acc_agg_balance = None,
          acc_agg_reconciled = None, acc_last_reconciled = None\<rparr>]))"

text \<open>\<^verbatim>\<open>COALESCE\<close>: a parent of \<^verbatim>\<open>null\<close> leaves the old one.\<close>

definition updated_account :: "account_fields \<Rightarrow> account \<Rightarrow> account" where
  "updated_account f a =
     a\<lparr>acc_name := fd_name f, acc_description := fd_description f, acc_placeholder := fd_placeholder f,
       acc_type := fd_type f, acc_parent := (case fd_parent f of Some p \<Rightarrow> Some p | None \<Rightarrow> acc_parent a),
       acc_version := num_add (acc_version a) (num_of_int 1)\<rparr>"

definition store_update :: "string \<Rightarrow> account_fields \<Rightarrow> number \<Rightarrow> account list \<Rightarrow> store_error + account list" where
  "store_update guid f version accounts =
     (if list_ex (\<lambda>a. acc_guid a = guid \<and> acc_version a = version) accounts then
        if \<not> parent_valid accounts (fd_parent f) then Inl ConstraintViolated
        else Inr (map (\<lambda>a. if acc_guid a = guid \<and> acc_version a = version then updated_account f a else a) accounts)
      else if account_known accounts guid then Inl VersionConflict else Inl AccountMissing)"

definition child_count :: "account list \<Rightarrow> string \<Rightarrow> int" where
  "child_count accounts g = int (length (filter (\<lambda>a. acc_parent a = Some g) accounts))"

definition store_delete :: "string option \<Rightarrow> (string \<Rightarrow> int) \<Rightarrow> string \<Rightarrow> account list \<Rightarrow> store_error + account list" where
  "store_delete book_root splits guid accounts =
     (if 0 < splits guid then Inl (HasSplits (splits guid))
      else if 0 < child_count accounts guid then Inl (HasChildren (child_count accounts guid))
      else if \<not> account_known accounts guid then Inl AccountMissing
      else if book_root = Some guid then Inl ConstraintViolated
      else Inr (filter (\<lambda>a. acc_guid a \<noteq> guid) accounts))"

lemma account_known_iff: "account_known accounts g \<longleftrightarrow> g \<in> guids accounts"
  by (auto simp: account_known_def guids_def list_ex_iff)

section \<open>Moving one node of a forest\<close>

lemma chain_same: "chain par h xs \<Longrightarrow> g \<notin> set xs \<Longrightarrow> chain (par(g \<mapsto> p)) h xs"
proof (induction rule: chain.induct)
  case (chain_root h)
  then show ?case by (intro chain.chain_root) simp
next
  case (chain_up h q xs)
  then show ?case by (intro chain.chain_up [where p = q]) auto
qed

lemma chain_members: "chain par h xs \<Longrightarrow> g \<in> set xs \<Longrightarrow> up par h g"
proof (induction rule: chain.induct)
  case (chain_up h q xs)
  then show ?case by (auto intro: converse_rtranclp_into_rtranclp)
qed simp

lemma chain_above: "up par h g \<Longrightarrow> \<exists>xs. chain par h xs \<Longrightarrow> \<exists>ys. chain par g ys"
proof (induction rule: converse_rtranclp_induct)
  case (step h q)
  from step.prems obtain xs where "chain par h xs" by blast
  then have "\<exists>ys. chain par q ys" using step.hyps(1) by cases auto
  then show ?case by (rule step.IH)
qed

lemma up_same: "up par h g \<Longrightarrow> up (par(g \<mapsto> p)) h g"
proof (induction rule: converse_rtranclp_induct)
  case (step h q)
  show ?case
  proof (cases "h = g")
    case False
    then have "(par(g \<mapsto> p)) h = Some q" using step.hyps(1) by simp
    then show ?thesis using step.IH by (rule converse_rtranclp_into_rtranclp)
  qed simp
qed simp

lemma chain_below: "up par h g \<Longrightarrow> \<exists>ys. chain (par(g \<mapsto> p)) g ys \<Longrightarrow> \<exists>xs. chain (par(g \<mapsto> p)) h xs"
proof (induction rule: converse_rtranclp_induct)
  case (step h q)
  show ?case
  proof (cases "h = g")
    case True
    with step.prems show ?thesis by simp
  next
    case False
    then have "(par(g \<mapsto> p)) h = Some q" using step.hyps(1) by simp
    then show ?thesis using step.IH [OF step.prems] chain_up [of "par(g \<mapsto> p)" h q] by blast
  qed
qed

lemma moved_chain:
  assumes all: "\<And>h. h \<in> A \<Longrightarrow> \<exists>xs. chain par h xs" and "p \<in> A" "h \<in> A"
  shows "(\<exists>xs. chain (par(g \<mapsto> p)) h xs) \<longleftrightarrow> \<not> (up par p g \<and> up par h g)"
proof -
  have away: "\<exists>xs. chain (par(g \<mapsto> p)) k xs" if "k \<in> A" "\<not> up par k g" for k
    using all [OF that(1)] that(2) chain_members chain_same by metis
  have at: "(par(g \<mapsto> p)) g = Some p" by simp
  show ?thesis
  proof (cases "up par p g")
    case False
    then obtain xs where "chain (par(g \<mapsto> p)) p xs" using away assms(2) by blast
    with at have "chain (par(g \<mapsto> p)) g (g # xs)" by (rule chain_up)
    with False away assms(3) chain_below show ?thesis by metis
  next
    case True
    have "\<not> (\<exists>ys. chain (par(g \<mapsto> p)) g ys)"
    proof
      assume "\<exists>ys. chain (par(g \<mapsto> p)) g ys"
      then obtain xs where "chain (par(g \<mapsto> p)) g xs" by blast
      then have "\<exists>ys. chain (par(g \<mapsto> p)) p ys" using at by cases auto
      then show False using not_own_ancestor [of "par(g \<mapsto> p)" g p, OF at] up_same [OF True] by blast
    qed
    then have "up par h g \<Longrightarrow> \<not> (\<exists>xs. chain (par(g \<mapsto> p)) h xs)" using up_same chain_above by metis
    with True away assms(3) show ?thesis by blast
  qed
qed

section \<open>Accounts in good order\<close>

text \<open>What the constraints of the database guarantee, and that no parents form a cycle\<close>

definition store_ok :: "account list \<Rightarrow> bool" where
  "store_ok accounts \<longleftrightarrow> distinct (map acc_guid accounts) \<and> [] \<notin> guids accounts
     \<and> list_all (\<lambda>a. parent_valid accounts (acc_parent a)) accounts"

definition all_in_chart :: "account list \<Rightarrow> bool" where
  "all_in_chart accounts \<longleftrightarrow> (\<forall>g\<in>guids accounts. \<exists>xs. chain (parent_of accounts) g xs)"

text \<open>The accounts the chart of accounts contains, for a listing of the accounts in any order\<close>

definition charted :: "account list \<Rightarrow> string set" where
  "charted shown = (case buildTree shown of Some ts \<Rightarrow> set (concat (map collectGuids ts)) | None \<Rightarrow> {})"

lemma charted_chain:
  assumes "distinct (map acc_guid shown)"
  shows "charted shown = {g \<in> guids shown. \<exists>xs. chain (parent_of shown) g xs}"
proof -
  obtain ts where "buildTree shown = Some ts" using buildTree_total [OF assms] by blast
  with tree_guids [OF assms this] show ?thesis by (simp add: charted_def)
qed

lemma store_parent:
  assumes "store_ok accounts" and "a \<in> set accounts"
  shows "parent_of accounts (acc_guid a) = acc_parent a"
proof -
  have "distinct (map acc_guid accounts)" using assms(1) by (simp add: store_ok_def)
  then have "parent_of accounts (acc_guid a) = linked accounts a" using assms(2) by (rule parent_of_account)
  moreover have "parent_valid accounts (acc_parent a)" "[] \<notin> guids accounts"
    using assms by (auto simp: store_ok_def list_all_iff)
  then have "linked accounts a = acc_parent a"
    by (cases "acc_parent a") (auto simp: linked_def parent_valid_def account_known_iff)
  ultimately show ?thesis by simp
qed

lemma parent_of_unknown: "g \<notin> guids accounts \<Longrightarrow> parent_of accounts g = None"
  using parent_of_mem by (metis option.exhaust)

lemma parent_of_order:
  assumes "mset shown = mset accounts" and "store_ok accounts"
  shows "parent_of shown = parent_of accounts"
proof
  fix g
  have same: "set shown = set accounts" using assms(1) by (rule mset_eq_setD)
  then have "guids shown = guids accounts" by (simp add: guids_def)
  moreover have "distinct (map acc_guid shown)"
    using assms mset_eq_imp_distinct_iff [of "map acc_guid shown" "map acc_guid accounts"] by (simp add: store_ok_def)
  moreover from calculation(1) have "parent_valid shown q = parent_valid accounts q" for q
    by (simp add: parent_valid_def account_known_iff split: option.split)
  ultimately have ok: "store_ok shown" using assms(2) same by (simp add: store_ok_def list_all_iff)
  show "parent_of shown g = parent_of accounts g"
  proof (cases "g \<in> guids accounts")
    case True
    then obtain a where "a \<in> set accounts" "acc_guid a = g" by (auto simp: guids_def)
    then show ?thesis using store_parent [OF ok, of a] store_parent [OF assms(2), of a] same by simp
  next
    case False
    then show ?thesis using parent_of_unknown \<open>guids shown = guids accounts\<close> by metis
  qed
qed

lemma update_result:
  assumes "store_ok accounts" and "store_update g f v accounts = Inr accounts'"
  shows "g \<in> guids accounts" "guids accounts' = guids accounts" "store_ok accounts'"
    "parent_of accounts' = (case fd_parent f of None \<Rightarrow> parent_of accounts | Some p \<Rightarrow> (parent_of accounts)(g \<mapsto> p))"
proof -
  obtain a where a: "a \<in> set accounts" "acc_guid a = g" "acc_version a = v"
    and valid: "parent_valid accounts (fd_parent f)"
    and new: "accounts' = map (\<lambda>a. if acc_guid a = g \<and> acc_version a = v then updated_account f a else a) accounts"
    using assms(2) by (auto simp: store_update_def list_ex_iff split: if_splits)
  have upd: "acc_guid (updated_account f b) = acc_guid b" for b by (simp add: updated_account_def)
  have d: "distinct (map acc_guid accounts)" using assms(1) by (simp add: store_ok_def)
  show mem: "g \<in> guids accounts" using a by (auto simp: guids_def)
  have ids: "map acc_guid accounts' = map acc_guid accounts" by (simp add: new upd)
  then show same: "guids accounts' = guids accounts" by (metis guids_def list.set_map)
  have one: "b = a" if "b \<in> set accounts" "acc_guid b = g" for b using guid_unique [OF d that(1) a(1)] that(2) a(2) by simp
  have "accounts' = map (\<lambda>b. if b = a then updated_account f a else b) accounts"
    unfolding new
  proof (rule map_cong [OF refl])
    fix b assume "b \<in> set accounts"
    then have "acc_guid b = g \<Longrightarrow> b = a" by (rule one)
    then show "(if acc_guid b = g \<and> acc_version b = v then updated_account f b else b) = (if b = a then updated_account f a else b)"
      using a(2,3) by (cases "b = a") auto
  qed
  then have "set accounts' = (\<lambda>b. if b = a then updated_account f a else b) ` set accounts" by simp
  also have "\<dots> = (set accounts - {a}) \<union> {updated_account f a}" using a(1) by auto
  finally have members: "set accounts' = (set accounts - {a}) \<union> {updated_account f a}" .
  have pv: "parent_valid accounts' q = parent_valid accounts q" for q
    by (simp add: parent_valid_def account_known_iff same split: option.split)
  have "parent_valid accounts (acc_parent b)" if "b \<in> set accounts'" for b
    using that valid assms(1) a(1) unfolding members
    by (auto simp: store_ok_def list_all_iff updated_account_def split: option.splits)
  then show ok: "store_ok accounts'"
    using assms(1) ids same by (simp add: store_ok_def list_all_iff pv)
  show "parent_of accounts' = (case fd_parent f of None \<Rightarrow> parent_of accounts | Some p \<Rightarrow> (parent_of accounts)(g \<mapsto> p))"
  proof
    fix h
    consider (none) "h \<notin> guids accounts" | (moved) "h = g" | (other) b where "b \<in> set accounts" "acc_guid b = h" "h \<noteq> g"
      by (auto simp: guids_def)
    then show "parent_of accounts' h = (case fd_parent f of None \<Rightarrow> parent_of accounts | Some p \<Rightarrow> (parent_of accounts)(g \<mapsto> p)) h"
    proof cases
      case none
      with mem have "h \<noteq> g" by blast
      with none show ?thesis using parent_of_unknown same by (auto split: option.split)
    next
      case moved
      have "parent_of accounts' g = acc_parent (updated_account f a)"
        using store_parent [OF ok, of "updated_account f a"] members upd a(2) by simp
      with moved show ?thesis
        using store_parent [OF assms(1) a(1)] a(2) by (simp add: updated_account_def split: option.split)
    next
      case other
      then have "b \<in> set accounts'" using a(2) unfolding members by auto
      with other show ?thesis
        using store_parent [OF ok] store_parent [OF assms(1)] by (auto split: option.split)
    qed
  qed
qed

lemma create_result:
  assumes "store_ok accounts" and "store_create g f accounts = Inr accounts'" and "g \<noteq> []"
  shows "g \<notin> guids accounts" "guids accounts' = insert g (guids accounts)" "store_ok accounts'"
    "h \<in> guids accounts \<Longrightarrow> parent_of accounts' h = parent_of accounts h" "parent_of accounts' g = fd_parent f"
    "fd_parent f = Some p \<Longrightarrow> p \<in> guids accounts"
proof -
  obtain a where new: "accounts' = accounts @ [a]" and a: "acc_guid a = g" "acc_parent a = fd_parent f"
    and fresh: "\<not> account_known accounts g" and valid: "parent_valid accounts (fd_parent f)"
    using assms(2) by (auto simp: store_create_def split: if_splits)
  have members: "set accounts' = insert a (set accounts)" by (simp add: new)
  show mem: "g \<notin> guids accounts" using fresh by (simp add: account_known_iff)
  show ids: "guids accounts' = insert g (guids accounts)" by (simp add: guids_def new a)
  have "parent_valid accounts q \<Longrightarrow> parent_valid accounts' q" for q
    by (auto simp: parent_valid_def account_known_iff ids split: option.splits)
  moreover have "distinct (map acc_guid accounts')" using assms(1) mem by (simp add: new a store_ok_def guids_def)
  ultimately show ok: "store_ok accounts'"
    using assms(1,3) valid members by (auto simp: store_ok_def ids a list_all_iff)
  show "parent_of accounts' g = fd_parent f" using store_parent [OF ok, of a] by (simp add: new a)
  show "parent_of accounts' h = parent_of accounts h" if h: "h \<in> guids accounts"
  proof -
    obtain b where b: "b \<in> set accounts" "acc_guid b = h" using h by (auto simp: guids_def)
    then show ?thesis using store_parent [OF ok, of b] store_parent [OF assms(1) b(1)] by (simp add: new)
  qed
  show "p \<in> guids accounts" if "fd_parent f = Some p"
    using valid that by (simp add: parent_valid_def account_known_iff)
qed

lemma delete_result:
  assumes "store_ok accounts" and "store_delete book_root splits g accounts = Inr accounts'"
  shows "guids accounts' = guids accounts - {g}" "store_ok accounts'" "parent_of accounts h \<noteq> Some g"
    "h \<noteq> g \<Longrightarrow> parent_of accounts' h = parent_of accounts h"
proof -
  have new: "accounts' = filter (\<lambda>a. acc_guid a \<noteq> g) accounts" and "child_count accounts g = 0"
    using assms(2) by (auto simp: store_delete_def child_count_def split: if_splits)
  then have none: "acc_parent a \<noteq> Some g" if "a \<in> set accounts" for a
    using that by (auto simp: child_count_def filter_empty_conv)
  show ids: "guids accounts' = guids accounts - {g}" by (auto simp: guids_def new)
  have "parent_valid accounts' (acc_parent a)" if "a \<in> set accounts'" for a
  proof -
    have "a \<in> set accounts" using that by (simp add: new)
    with none [OF this] assms(1) show ?thesis
      by (auto simp: store_ok_def list_all_iff parent_valid_def account_known_iff ids split: option.splits)
  qed
  moreover have "distinct (map acc_guid accounts')"
    using assms(1) by (simp add: new store_ok_def distinct_map_filter)
  ultimately show ok: "store_ok accounts'" using assms(1) by (simp add: store_ok_def list_all_iff ids)
  show "parent_of accounts h \<noteq> Some g"
  proof (cases "h \<in> guids accounts")
    case True
    then obtain b where "b \<in> set accounts" "acc_guid b = h" by (auto simp: guids_def)
    then show ?thesis using store_parent [OF assms(1), of b] none by simp
  qed (simp add: parent_of_unknown)
  show "parent_of accounts' h = parent_of accounts h" if "h \<noteq> g"
  proof (cases "h \<in> guids accounts")
    case True
    then obtain b where "b \<in> set accounts" "acc_guid b = h" by (auto simp: guids_def)
    with that show ?thesis using store_parent [OF assms(1), of b] store_parent [OF ok, of b] by (simp add: new)
  qed (simp add: parent_of_unknown ids)
qed

section \<open>Properties\<close>

lemma charted_listing:
  assumes "store_ok accounts" and "mset shown = mset accounts"
  shows "charted shown = {g \<in> guids accounts. \<exists>xs. chain (parent_of accounts) g xs}"
proof -
  have "distinct (map acc_guid shown)"
    using assms mset_eq_imp_distinct_iff [of "map acc_guid shown" "map acc_guid accounts"] by (simp add: store_ok_def)
  moreover have "guids shown = guids accounts" using mset_eq_setD [OF assms(2)] by (simp add: guids_def)
  ultimately show ?thesis by (simp add: charted_chain parent_of_order [OF assms(2,1)])
qed

text \<open>
  C19. Saving an edited account makes the account chosen in the form its parent, and an account without
  any such choice keeps its parent. When all accounts are in the chart before, all are in it
  afterwards, unless the parent is the edited account itself or below it: then the edited account
  and everything below it vanish from the chart, and only these. Of these parents the form offers
  those below the account (\<open>parent_options_all\<close>), though not the account itself.
\<close>

theorem chart_after_save:
  assumes "store_ok accounts" and "all_in_chart accounts"
    and "account_submit lang accounts (Some e) st = (st', Some (UpdateAccount g f v))"
    and "store_update g f v accounts = Inr accounts'" and "mset shown = mset accounts'"
  shows "parent_of shown (acc_guid e) =
      (case chosen_parent accounts (af_parent st) of Some p \<Rightarrow> Some p | None \<Rightarrow> parent_of accounts (acc_guid e))
    \<and> charted shown =
      (case chosen_parent accounts (af_parent st) of
         Some p \<Rightarrow> if up (parent_of accounts) p (acc_guid e)
                   then guids accounts - {h. up (parent_of accounts) h (acc_guid e)} else guids accounts
       | None \<Rightarrow> guids accounts)"
proof -
  have sent: "g = acc_guid e" "fd_parent f = chosen_parent accounts (af_parent st)"
    using assms(3) by (auto simp: account_submit_def Let_def split: if_splits)
  note new = update_result [OF assms(1,4)]
  have par: "parent_of shown = (case fd_parent f of None \<Rightarrow> parent_of accounts | Some p \<Rightarrow> (parent_of accounts)(g \<mapsto> p))"
    using parent_of_order [OF assms(5) new(3)] new(4) by simp
  have chart: "charted shown = {h \<in> guids accounts. \<exists>xs. chain (parent_of accounts') h xs}"
    using charted_listing [OF new(3) assms(5)] new(2) by simp
  have all: "\<exists>xs. chain (parent_of accounts) h xs" if "h \<in> guids accounts" for h
    using assms(2) that by (simp add: all_in_chart_def)
  show ?thesis
  proof (cases "fd_parent f")
    case None
    with sent(2) have "chosen_parent accounts (af_parent st) = None" by simp
    with None show ?thesis using par chart all by (auto simp: new(4))
  next
    case (Some p)
    have "parent_valid accounts (fd_parent f)" using assms(4) by (auto simp: store_update_def split: if_splits)
    with Some have "p \<in> guids accounts" by (simp add: parent_valid_def account_known_iff)
    then have "(\<exists>xs. chain ((parent_of accounts)(g \<mapsto> p)) h xs)
        \<longleftrightarrow> \<not> (up (parent_of accounts) p g \<and> up (parent_of accounts) h g)" if "h \<in> guids accounts" for h
      using moved_chain [of "guids accounts" "parent_of accounts" p h g] all that by blast
    with Some chart have "charted shown = (if up (parent_of accounts) p g
        then guids accounts - {h. up (parent_of accounts) h g} else guids accounts)" by (auto simp: new(4))
    moreover have "chosen_parent accounts (af_parent st) = Some p" using Some sent(2) by simp
    ultimately show ?thesis using par Some sent(1) by simp
  qed
qed

definition move_sample :: "account list" where
  "move_sample = [sample_account ''p'' None ASSET 0, sample_account ''c'' (Some ''p'') BANK 0, sample_account ''x'' None CASH 0]"

text \<open>\<open>p\<close> is moved below its own child \<open>c\<close>: both vanish, and \<open>x\<close> stays.\<close>

theorem chart_after_save_witness:
  "\<exists>st' f v accounts'. account_submit ''en'' move_sample (Some (sample_account ''p'' None ASSET 0))
       ((account_form_init (Some (sample_account ''p'' None ASSET 0)))\<lparr>af_parent := ''c''\<rparr>) = (st', Some (UpdateAccount ''p'' f v))
     \<and> store_update ''p'' f v move_sample = Inr accounts' \<and> ''x'' \<in> charted accounts' \<and> ''c'' \<notin> charted accounts'"
proof -
  let ?p = "sample_account ''p'' None ASSET 0" and ?par = "parent_of move_sample"
  let ?st = "(account_form_init (Some ?p))\<lparr>af_parent := ''c''\<rparr>"
  have par: "?par ''p'' = None" "?par ''c'' = Some ''p''" "?par ''x'' = None" by code_simp+
  have ids: "guids move_sample = {''p'', ''c'', ''x''}" by (simp add: guids_def move_sample_def sample_account_def)
  have ok: "store_ok move_sample"
    by (simp add: store_ok_def guids_def move_sample_def sample_account_def parent_valid_def account_known_def)
  have "chain ?par ''p'' [''p'']" "chain ?par ''x'' [''x'']" using par by (auto intro: chain_root)
  moreover from this(1) have "chain ?par ''c'' [''c'', ''p'']" using chain_up [of ?par "''c''", OF par(2)] by blast
  ultimately have all: "all_in_chart move_sample" unfolding all_in_chart_def ids by blast
  have chosen: "chosen_parent move_sample ''c'' = Some ''c''" by (simp add: chosen_parent_def)
  have name: "js_trim ''p'' = ''p''" by code_simp
  obtain st' f where sent: "account_submit ''en'' move_sample (Some ?p) ?st = (st', Some (UpdateAccount ''p'' f (num_of_int 1)))"
      "fd_parent f = Some ''c''"
    using chosen name by (simp add: account_submit_def account_form_init_def sample_account_def Let_def)
  then obtain accounts' where saved: "store_update ''p'' f (num_of_int 1) move_sample = Inr accounts'"
    by (auto simp: store_update_def move_sample_def sample_account_def parent_valid_def account_known_def)
  have "up ?par ''c'' ''p''" using par(2) by (intro r_into_rtranclp)
  moreover have "\<not> up ?par ''x'' ''p''" using par(3) by (auto elim: converse_rtranclpE)
  ultimately have "''x'' \<in> charted accounts' \<and> ''c'' \<notin> charted accounts'"
    using chart_after_save [OF ok all sent(1) saved refl] chosen
    by (simp add: account_form_init_def sample_account_def ids)
  with sent(1) saved show ?thesis by blast
qed

text \<open>The stores that the operations of the server lead to as long as no account is moved below itself\<close>

inductive store_run :: "account list \<Rightarrow> bool" where
  run_start: "store_run []"
| run_create: "store_run s \<Longrightarrow> g \<noteq> [] \<Longrightarrow> store_create g f s = Inr s' \<Longrightarrow> store_run s'"
| run_update: "store_run s \<Longrightarrow> store_update g f v s = Inr s'
    \<Longrightarrow> (\<And>p. fd_parent f = Some p \<Longrightarrow> \<not> up (parent_of s) p g) \<Longrightarrow> store_run s'"
| run_delete: "store_run s \<Longrightarrow> store_delete book_root splits g s = Inr s' \<Longrightarrow> store_run s'"

lemma chain_cong: "chain par h xs \<Longrightarrow> (\<And>x. x \<in> set xs \<Longrightarrow> par' x = par x) \<Longrightarrow> chain par' h xs"
proof (induction rule: chain.induct)
  case (chain_root h)
  then show ?case by (intro chain.chain_root) simp
next
  case (chain_up h q xs)
  then show ?case by (intro chain.chain_up [where p = q]) auto
qed

lemma chart_create:
  assumes "store_ok s" "all_in_chart s" "g \<noteq> []" "store_create g f s = Inr s'"
  shows "all_in_chart s'"
proof -
  note new = create_result [OF assms(1,4,3)]
  have old: "\<exists>xs. chain (parent_of s') h xs" if h: "h \<in> guids s" for h
  proof -
    obtain xs where xs: "chain (parent_of s) h xs" using assms(2) h by (auto simp: all_in_chart_def)
    then have "set xs \<subseteq> guids s" using chain_subset [OF xs h] parent_of_mem by blast
    then show ?thesis using chain_cong [OF xs] new(4) by blast
  qed
  have "\<exists>xs. chain (parent_of s') g xs"
  proof (cases "fd_parent f")
    case None
    then show ?thesis using new(5) chain_root [of "parent_of s'" g] by auto
  next
    case (Some p)
    then obtain xs where "chain (parent_of s') p xs" using old new(6) by blast
    moreover have "parent_of s' g = Some p" using Some new(5) by simp
    ultimately show ?thesis using chain_up [of "parent_of s'" g p] by blast
  qed
  with old show ?thesis by (simp add: all_in_chart_def new(2))
qed

lemma chart_delete:
  assumes "store_ok s" "all_in_chart s" "store_delete book_root splits g s = Inr s'"
  shows "all_in_chart s'"
proof -
  note new = delete_result [OF assms(1,3)]
  have "\<exists>xs. chain (parent_of s') h xs" if h: "h \<in> guids s" "h \<noteq> g" for h
  proof -
    obtain xs where xs: "chain (parent_of s) h xs" using assms(2) h by (auto simp: all_in_chart_def)
    have "g \<notin> set xs"
    proof
      assume "g \<in> set xs"
      with xs have "up (parent_of s) h g" by (rule chain_members)
      then show False using new(3) h(2) by cases auto
    qed
    then show ?thesis using chain_cong [OF xs] new(4) by metis
  qed
  then show ?thesis by (simp add: all_in_chart_def new(1))
qed

lemma chart_update:
  assumes "store_ok s" "all_in_chart s" "store_update g f v s = Inr s'"
    and "\<And>p. fd_parent f = Some p \<Longrightarrow> \<not> up (parent_of s) p g"
  shows "all_in_chart s'"
proof (cases "fd_parent f")
  case None
  then show ?thesis using update_result [OF assms(1,3)] assms(2) by (simp add: all_in_chart_def)
next
  case (Some p)
  have "parent_valid s (fd_parent f)" using assms(3) by (auto simp: store_update_def split: if_splits)
  with Some have "p \<in> guids s" by (simp add: parent_valid_def account_known_iff)
  then show ?thesis
    using moved_chain [of "guids s" "parent_of s" p _ g] assms(2) assms(4) [OF Some] Some update_result [OF assms(1,3)]
    by (simp add: all_in_chart_def)
qed

lemma run_ok: "store_run s \<Longrightarrow> store_ok s \<and> all_in_chart s"
proof (induction rule: store_run.induct)
  case run_start
  show ?case by (simp add: store_ok_def all_in_chart_def guids_def)
next
  case (run_create s g f s')
  then show ?case using create_result(3) chart_create by blast
next
  case (run_update s g f v s')
  then show ?case using update_result(3) chart_update by blast
next
  case (run_delete s book_root splits g s')
  then show ?case using delete_result(2) chart_delete by blast
qed

text \<open>
  C11. However accounts are created, edited and deleted, as long as no account is given a parent that
  is the account itself or below it, the chart of accounts shows every account of the book, for
  every order in which the server lists them.
\<close>

theorem chart_always_complete:
  assumes "store_run s" and "mset shown = mset s"
  shows "charted shown = guids s"
  using charted_listing [OF conjunct1 [OF run_ok [OF assms(1)]] assms(2)] run_ok [OF assms(1)]
  by (auto simp: all_in_chart_def)

theorem chart_always_complete_witness:
  "\<exists>s. store_run s \<and> charted s = {''a'', ''b''}"
proof -
  let ?f = "\<lambda>n p. \<lparr>fd_name = n, fd_type = BANK, fd_parent = p, fd_placeholder = False, fd_description = []\<rparr>"
  obtain s where s: "store_create ''a'' (?f ''Bank'' None) [] = Inr s" "guids s = {''a''}"
    by (simp add: store_create_def account_known_def parent_valid_def guids_def)
  then obtain s' where s': "store_create ''b'' (?f ''Cash'' (Some ''a'')) s = Inr s'" "guids s' = {''a'', ''b''}"
    by (auto simp: store_create_def account_known_iff parent_valid_def guids_def)
  have "store_run s" by (rule run_create [OF run_start _ s(1)]) simp
  from run_create [OF this _ s'(1)] have run: "store_run s'" by simp
  from chart_always_complete [OF run refl] s'(2) run show ?thesis by auto
qed

end
