(* ===== verification/TransactionStore.thy ===== *)
theory TransactionStore
  imports TransactionFormLaws JsSum
begin

text \<open>
  The transactions as the server keeps them (\<open>CreateTransaction\<close> and \<open>UpdateTransaction\<close> of
  \<^verbatim>\<open>backend/internal/services/transaction_service.go\<close>), the balance of an account
  as the sum of the quantities of its splits (\<^verbatim>\<open>account_service.go\<close>), and what the
  transaction editor announces about it before saving. The server's sums are exact rationals, as
  its own type of numbers is; of a transaction only the splits are kept. \<open>target\<close> looks an account up:
  unknown, or whether it is a placeholder; \<open>imbalance\<close> is the account the server finds or makes for
  what is missing to zero, and \<open>guid\<close> the identity it gives a new transaction.
\<close>

section \<open>Data\<close>

record book_split =
  bk_account :: string
  bk_memo :: string
  bk_value_num :: int
  bk_value_denom :: int
  bk_quantity_num :: int
  bk_quantity_denom :: int
  bk_state :: string

type_synonym book = "(string \<times> book_split list) list"

datatype tx_error =
    BadNumber
  | InvalidSplit
  | TooFewSplits
  | Unbalanced
  | TxMissing
  | AccountUnknown string
  | PlaceholderUsed

text \<open>
  A number of the request, written as JSON and read into 64 bits: a fraction or too large a number
  is refused, and \<^verbatim>\<open>null\<close>, which is what JSON writes for the others, leaves zero.
\<close>

definition int64_of :: "number \<Rightarrow> int option" where
  "int64_of x =
     (case x of
        Num s m \<Rightarrow>
          (let i = (if s then - \<lfloor>m\<rfloor> else \<lfloor>m\<rfloor>)
           in if m = of_int \<lfloor>m\<rfloor> \<and> - (2 ^ 63) \<le> i \<and> i < 2 ^ 63 then Some i else None)
      | _ \<Rightarrow> Some 0)"

definition decode_split :: "request_split \<Rightarrow> book_split option" where
  "decode_split r =
     (case (int64_of (rs_value_num r), int64_of (rs_value_denom r),
            int64_of (rs_quantity_num r), int64_of (rs_quantity_denom r)) of
        (Some vn, Some vd, Some qn, Some qd) \<Rightarrow>
          Some \<lparr>bk_account = rs_account r, bk_memo = rs_memo r, bk_value_num = vn, bk_value_denom = vd,
                bk_quantity_num = qn, bk_quantity_denom = qd, bk_state = ''n''\<rparr>
      | _ \<Rightarrow> None)"

definition value_of :: "book_split \<Rightarrow> rat" where
  "value_of b = of_int (bk_value_num b) / of_int (bk_value_denom b)"

section \<open>Saving\<close>

text \<open>Splits without a value are dropped; a denominator of zero is refused.\<close>

fun usable_splits :: "book_split list \<Rightarrow> tx_error + book_split list" where
  "usable_splits [] = Inr []"
| "usable_splits (sp # sps) =
     (if bk_value_num sp = 0 then usable_splits sps
      else if bk_value_denom sp = 0 \<or> bk_quantity_denom sp = 0 then Inl InvalidSplit
      else (case usable_splits sps of Inl e \<Rightarrow> Inl e | Inr vs \<Rightarrow> Inr (sp # vs)))"

definition splits_sum :: "book_split list \<Rightarrow> rat" where
  "splits_sum sps = (\<Sum>sp\<leftarrow>sps. value_of sp)"

text \<open>The split that brings a new transaction to zero\<close>

definition balancing_split :: "string \<Rightarrow> rat \<Rightarrow> book_split" where
  "balancing_split imbalance total_value =
     (case quotient_of (- total_value) of (n, d) \<Rightarrow>
        \<lparr>bk_account = imbalance, bk_memo = ''Auto-balancing split'', bk_value_num = n, bk_value_denom = d,
         bk_quantity_num = n, bk_quantity_denom = d, bk_state = ''n''\<rparr>)"

fun check_targets :: "(string \<Rightarrow> bool option) \<Rightarrow> book_split list \<Rightarrow> tx_error option" where
  "check_targets target [] = None"
| "check_targets target (sp # sps) =
     (case target (bk_account sp) of
        None \<Rightarrow> Some (AccountUnknown (bk_account sp))
      | Some placeholder \<Rightarrow> if placeholder then Some PlaceholderUsed else check_targets target sps)"

definition create_transaction ::
  "(string \<Rightarrow> bool option) \<Rightarrow> string \<Rightarrow> string \<Rightarrow> create_request \<Rightarrow> book \<Rightarrow> tx_error + book" where
  "create_transaction target imbalance guid req book =
     (case those (map decode_split (cr_splits req)) of
        None \<Rightarrow> Inl BadNumber
      | Some sps \<Rightarrow>
          (case usable_splits sps of
             Inl e \<Rightarrow> Inl e
           | Inr vs \<Rightarrow>
               (let vs' = (if splits_sum vs = 0 then vs else vs @ [balancing_split imbalance (splits_sum vs)])
                in if length vs' < 2 then Inl TooFewSplits
                   else (case check_targets target vs' of
                           Some e \<Rightarrow> Inl e
                         | None \<Rightarrow> Inr (book @ [(guid, vs')])))))"

text \<open>An update replaces the splits of the transaction, all of them unreconciled again.\<close>

definition update_transaction ::
  "(string \<Rightarrow> bool option) \<Rightarrow> string \<Rightarrow> create_request \<Rightarrow> book \<Rightarrow> tx_error + book" where
  "update_transaction target g req book =
     (case those (map decode_split (cr_splits req)) of
        None \<Rightarrow> Inl BadNumber
      | Some sps \<Rightarrow>
          if \<not> list_ex (\<lambda>(h, _). h = g) book then Inl TxMissing
          else
            (case usable_splits sps of
               Inl e \<Rightarrow> Inl e
             | Inr vs \<Rightarrow>
                 if splits_sum vs \<noteq> 0 then Inl Unbalanced
                 else if length vs < 2 then Inl TooFewSplits
                 else (case check_targets target vs of
                         Some e \<Rightarrow> Inl e
                       | None \<Rightarrow> Inr (map (\<lambda>(h, old). (h, if h = g then vs else old)) book))))"

definition save_call ::
  "(string \<Rightarrow> bool option) \<Rightarrow> string \<Rightarrow> string \<Rightarrow> submit_call \<Rightarrow> book \<Rightarrow> tx_error + book" where
  "save_call target imbalance guid call book =
     (case call of
        UpdateTx g req \<Rightarrow> update_transaction target g req book
      | CreateTx req \<Rightarrow> create_transaction target imbalance guid req book)"

section \<open>Balances\<close>

text \<open>
  The balance of an account is the sum over its splits, of quantities and not of values; a
  quantity over zero is no number and counts nothing.
\<close>

definition quantity_of :: "book_split \<Rightarrow> rat" where
  "quantity_of b = of_int (bk_quantity_num b) / of_int (bk_quantity_denom b)"

definition account_quantity :: "string \<Rightarrow> book_split list \<Rightarrow> rat" where
  "account_quantity h sps = (\<Sum>b\<leftarrow>filter (\<lambda>b. bk_account b = h) sps. quantity_of b)"

definition book_balance :: "book \<Rightarrow> string \<Rightarrow> rat" where
  "book_balance book h = (\<Sum>(g, sps)\<leftarrow>book. account_quantity h sps)"

section \<open>What saving does to a balance\<close>

lemma usable_splits_are:
  "usable_splits sps = Inr vs \<Longrightarrow> vs = filter (\<lambda>b. bk_value_num b \<noteq> 0) sps"
  by (induction sps arbitrary: vs) (auto split: if_splits sum.splits)

lemma account_quantity_append [simp]: "account_quantity h (xs @ ys) = account_quantity h xs + account_quantity h ys"
  by (simp add: account_quantity_def)

lemma dropped_quantity:
  assumes "\<forall>b\<in>set sps. bk_account b = h \<and> bk_value_num b = 0 \<longrightarrow> quantity_of b = 0"
  shows "account_quantity h (filter (\<lambda>b. bk_value_num b \<noteq> 0) sps) = account_quantity h sps"
  using assms by (induction sps) (auto simp: account_quantity_def)

lemma balance_append: "book_balance (book @ [(guid, vs)]) h = book_balance book h + account_quantity h vs"
  by (simp add: book_balance_def)

lemma balance_replace:
  assumes "distinct (map fst book)" and "map_of book g = Some old"
  shows "book_balance (map (\<lambda>(h, ss). (h, if h = g then vs else ss)) book) h
    = book_balance book h - account_quantity h old + account_quantity h vs"
  using assms
proof (induction book)
  case (Cons x book)
  obtain k ss where x: "x = (k, ss)" by fastforce
  show ?case
  proof (cases "k = g")
    case True
    with Cons.prems x have "\<forall>y\<in>set book. fst y \<noteq> g" by force
    then have "map (\<lambda>(h, ss). (h, if h = g then vs else ss)) book = book" by (intro map_idI) auto
    with True Cons.prems x show ?thesis by (simp add: book_balance_def)
  next
    case False
    with Cons x show ?thesis by (simp add: book_balance_def)
  qed
qed simp

text \<open>The transaction that is replaced, if any\<close>

definition replaced :: "submit_call \<Rightarrow> book \<Rightarrow> book_split list" where
  "replaced call book =
     (case call of UpdateTx g _ \<Rightarrow> (case map_of book g of Some ss \<Rightarrow> ss | None \<Rightarrow> []) | CreateTx _ \<Rightarrow> [])"

definition call_splits :: "submit_call \<Rightarrow> request_split list" where
  "call_splits call = cr_splits (case call of UpdateTx _ c \<Rightarrow> c | CreateTx c \<Rightarrow> c)"

lemma saved_balance:
  assumes "save_call target imbalance guid call book = Inr book'" and "distinct (map fst book)"
    and "(\<exists>g c. call = UpdateTx g c) \<or> imbalance \<noteq> h"
  obtains sps where "those (map decode_split (call_splits call)) = Some sps"
    and "(\<forall>b\<in>set sps. bk_account b = h \<and> bk_value_num b = 0 \<longrightarrow> quantity_of b = 0) \<longrightarrow>
      book_balance book' h = book_balance book h - account_quantity h (replaced call book) + account_quantity h sps"
proof (cases call)
  case (UpdateTx g c)
  obtain sps vs where d: "those (map decode_split (cr_splits c)) = Some sps" "usable_splits sps = Inr vs"
    and known: "list_ex (\<lambda>(h, _). h = g) book"
    and new: "book' = map (\<lambda>(h, old). (h, if h = g then vs else old)) book"
    using assms(1) UpdateTx
    by (auto simp: save_call_def update_transaction_def split: option.splits if_splits sum.splits)
  obtain old where old: "map_of book g = Some old"
    using known by (cases "map_of book g") (auto simp: list_ex_iff map_of_eq_None_iff image_iff)
  have "book_balance book' h = book_balance book h - account_quantity h old + account_quantity h vs"
    unfolding new by (rule balance_replace [OF assms(2) old])
  then show thesis
    using that [of sps] d(1) usable_splits_are [OF d(2)] old UpdateTx
    by (simp add: call_splits_def replaced_def dropped_quantity)
next
  case (CreateTx c)
  obtain sps vs where d: "those (map decode_split (cr_splits c)) = Some sps" "usable_splits sps = Inr vs"
    and new: "book' = book @ [(guid, if splits_sum vs = 0 then vs else vs @ [balancing_split imbalance (splits_sum vs)])]"
    using assms(1) CreateTx
    by (auto simp: save_call_def create_transaction_def Let_def split: option.splits if_splits sum.splits)
  have "account_quantity h [balancing_split imbalance (splits_sum vs)] = 0"
    using assms(3) CreateTx by (simp add: account_quantity_def balancing_split_def split: prod.split)
  then have "book_balance book' h = book_balance book h + account_quantity h vs"
    by (simp add: new balance_append)
  then show thesis
    using that [of sps] d(1) usable_splits_are [OF d(2)] CreateTx
    by (simp add: call_splits_def replaced_def dropped_quantity) (simp add: account_quantity_def)
qed

text \<open>Splits as the server sends them to the form\<close>

definition served_split :: "book_split \<Rightarrow> split \<Rightarrow> bool" where
  "served_split b s \<longleftrightarrow> sp_account s = bk_account b
     \<and> sp_value_num s = num_of_int (bk_value_num b) \<and> sp_value_denom s = num_of_int (bk_value_denom b)"

text \<open>A split worth \<open>n\<close> cents, in value and in quantity, with whatever positive denominators\<close>

definition in_cents :: "book_split \<Rightarrow> int \<Rightarrow> bool" where
  "in_cents b n \<longleftrightarrow> value_of b = of_int n / 100 \<and> quantity_of b = of_int n / 100
     \<and> 0 < bk_value_denom b \<and> bk_value_denom b \<le> 2 ^ 53 \<and> \<bar>bk_value_num b\<bar> \<le> 2 ^ 53"

lemma served_amount:
  assumes "served_split b s" and "in_cents b n" and "\<bar>n\<bar> \<le> 2 ^ 50"
  shows "split_amount s = cents n"
proof -
  define vn vd where "vn = bk_value_num b" and "vd = bk_value_denom b"
  have v: "0 < vd" "vd \<le> 2 ^ 53" "\<bar>vn\<bar> \<le> 2 ^ 53" "of_int vn / of_int vd = (of_int n / 100 :: rat)"
    using assms(2) by (simp_all add: in_cents_def value_of_def vn_def vd_def)
  have "of_int vn / of_int vd < (0 :: rat) \<longleftrightarrow> of_int n / 100 < (0 :: rat)" by (simp only: v(4))
  then have sign: "vn < 0 \<longleftrightarrow> n < 0" using v(1) by (simp add: divide_less_0_iff)
  have "\<bar>of_int vn / of_int vd :: rat\<bar> = \<bar>of_int n / 100\<bar>" by (simp only: v(4))
  then have mag: "(of_int \<bar>vn\<bar> / of_int vd :: rat) = of_int \<bar>n\<bar> / 100" using v(1) by (simp add: abs_divide)
  have nums: "num_of_int vn = Num (vn < 0) (of_int \<bar>vn\<bar>)" "num_of_int vd = Num False (of_int vd)"
    "num_of_int n = Num (n < 0) (of_int \<bar>n\<bar>)"
    using v assms(3) by (simp_all add: num_of_int_exact)
  have "split_amount s = num_div (num_of_int vn) (num_or (num_of_int vd) (num_of_int 1))"
    using assms(1) by (simp add: split_amount_def served_split_def vn_def vd_def)
  also have "\<dots> = num_of_mag (vn < 0) (of_int \<bar>vn\<bar> / of_int vd)"
    using v(1) by (simp add: nums num_or_def del: of_int_abs)
  also have "\<dots> = num_of_mag (n < 0) (of_int \<bar>n\<bar> / 100)" by (simp only: mag sign)
  also have "\<dots> = cents n" by (simp add: cents_def nums num_of_int_100 del: of_int_abs)
  finally show ?thesis .
qed

section \<open>Sums of cents\<close>

text \<open>At most a thousand amounts in cents, of together at most two hundred million units\<close>

definition modest :: "('a \<Rightarrow> int) \<Rightarrow> 'a list \<Rightarrow> bool" where
  "modest f xs \<longleftrightarrow> (\<Sum>x\<leftarrow>xs. \<bar>f x\<bar>) \<le> 2 * 10 ^ 10 \<and> length xs \<le> 1000"

lemma modest_facts:
  fixes f :: "'a \<Rightarrow> int"
  assumes "modest f xs"
  shows "(\<Sum>x\<leftarrow>xs. \<bar>of_int (f x) / 100 :: rat\<bar>) \<le> 2 * 10 ^ 8" and "of_nat (length xs) / 2 ^ 23 \<le> (1 / 2 ^ 13 :: rat)"
    and "\<And>x. x \<in> set xs \<Longrightarrow> near (cents (f x)) (of_int (f x) / 100) (1 / 2 ^ 24)"
    and "\<And>x. x \<in> set xs \<Longrightarrow> \<bar>f x\<bar> \<le> 2 ^ 50"
    and "\<bar>of_int (\<Sum>x\<leftarrow>xs. f x) / 100 :: rat\<bar> \<le> 2 * 10 ^ 8"
proof -
  have le: "(\<Sum>x\<leftarrow>xs. \<bar>f x\<bar>) \<le> 2 * 10 ^ 10" and n: "length xs \<le> 1000" using assms by (simp_all add: modest_def)
  then have "(of_int (\<Sum>x\<leftarrow>xs. \<bar>f x\<bar>) :: rat) \<le> of_int (2 * 10 ^ 10)" by (simp only: of_int_le_iff)
  then show sum: "(\<Sum>x\<leftarrow>xs. \<bar>of_int (f x) / 100 :: rat\<bar>) \<le> 2 * 10 ^ 8" by (simp add: sum_list_of_int flip: of_int_abs)
  have "(of_nat (length xs) :: rat) \<le> of_nat 1000" using n by (simp only: of_nat_le_iff)
  then show "of_nat (length xs) / 2 ^ 23 \<le> (1 / 2 ^ 13 :: rat)" by simp
  have one: "\<bar>f x\<bar> \<le> 2 * 10 ^ 10" if "x \<in> set xs" for x
  proof -
    have "\<bar>f x\<bar> \<le> (\<Sum>x\<leftarrow>xs. \<bar>f x\<bar>)" using that by (intro member_le_sum_list) auto
    then show ?thesis using le by simp
  qed
  show "near (cents (f x)) (of_int (f x) / 100) (1 / 2 ^ 24)" if "x \<in> set xs" for x
    using one [OF that] by (intro near_cents) simp
  show "\<bar>f x\<bar> \<le> 2 ^ 50" if "x \<in> set xs" for x using one [OF that] by simp
  have "\<bar>\<Sum>x\<leftarrow>xs. f x\<bar> \<le> 2 * 10 ^ 10" using le sum_list_abs [of "map f xs"] by (simp add: comp_def)
  then have "(of_int \<bar>\<Sum>x\<leftarrow>xs. f x\<bar> :: rat) \<le> of_int (2 * 10 ^ 10)" by (simp only: of_int_le_iff)
  then show "\<bar>of_int (\<Sum>x\<leftarrow>xs. f x) / 100 :: rat\<bar> \<le> 2 * 10 ^ 8" by simp
qed

lemma near_add_or:
  assumes "near x p a" and "near y q b" and "\<bar>p + q\<bar> + a + b < 2 ^ 30"
  shows "near (num_or (num_add x y) zero) (p + q) (a + b + 1 / 2 ^ 24)"
    and "near (num_add x (num_or y zero)) (p + q) (a + b + 1 / 2 ^ 24)"
  using near_or [OF near_add [OF assms]] near_add [OF assms(1) near_or [OF assms(2)] assms(3)] by auto

text \<open>The map of the amounts a transaction had when it was loaded\<close>

definition held :: "(string \<Rightarrow> number option) \<Rightarrow> string \<Rightarrow> number" where
  "held m g = num_or (case m g of Some x \<Rightarrow> x | None \<Rightarrow> zero) zero"

lemma held_fold:
  assumes "g \<noteq> []"
  shows "held (fold add_initial ss m) g
    = foldl (\<lambda>v x. num_or (num_add v x) zero) (held m g) (map split_amount (filter (\<lambda>s. sp_account s = g) ss))"
  using assms by (induction ss arbitrary: m) (auto simp: add_initial_def held_def)

lemma near_held:
  assumes "map split_amount (filter (\<lambda>s. sp_account s = h) ts) = map (\<lambda>b. cents (c b)) bs"
    and "modest c bs" and "h \<noteq> []"
  shows "near (held (fold add_initial ts Map.empty) h) (of_int (\<Sum>b\<leftarrow>bs. c b) / 100) (1 / 2 ^ 13)"
proof -
  note m = modest_facts [OF assms(2)]
  have "near (held (fold add_initial ts Map.empty) h) (0 + (\<Sum>b\<leftarrow>bs. of_int (c b) / 100)) (0 + of_nat (length bs) / 2 ^ 23)"
    unfolding held_fold [OF assms(3)] assms(1)
    using m(1,2) near_zero by (intro near_foldl_by near_add_or(1) m(3)) (auto simp: held_def num_or_def)
  then show ?thesis using m(2) by (simp add: sum_list_of_int near_mono)
qed

lemma near_current:
  assumes "\<forall>s\<in>set ss. read_amount (evaluateMath pow (si_amount s)) = cents (k s)" and "modest k ss"
  shows "near (foldl (\<lambda>sum s. num_add sum (num_or (read_amount (evaluateMath pow (si_amount s))) zero)) zero ss)
    (of_int (\<Sum>s\<leftarrow>ss. k s) / 100) (1 / 2 ^ 13)"
proof -
  note m = modest_facts [OF assms(2)]
  have "foldl (\<lambda>sum s. num_add sum (num_or (read_amount (evaluateMath pow (si_amount s))) zero)) zero ss
      = foldl (\<lambda>x y. num_add x (num_or y zero)) zero (map (\<lambda>s. cents (k s)) ss)"
    unfolding foldl_map using assms(1) by (intro foldl_cong) auto
  moreover have "near (foldl (\<lambda>x y. num_add x (num_or y zero)) zero (map (\<lambda>s. cents (k s)) ss))
      (0 + (\<Sum>s\<leftarrow>ss. of_int (k s) / 100)) (0 + of_nat (length ss) / 2 ^ 23)"
    using m(1,2) near_zero by (intro near_foldl_by near_add_or(2) m(3)) auto
  ultimately show ?thesis using m(2) by (simp add: sum_list_of_int near_mono)
qed

lemma near_change:
  assumes "near b q (1 / 2 ^ 13)" and "near x old (1 / 2 ^ 13)" and "near y new (1 / 2 ^ 13)"
    and "\<bar>q\<bar> \<le> 2 * 10 ^ 8" and "\<bar>old\<bar> \<le> 2 * 10 ^ 8" and "\<bar>new\<bar> \<le> 2 * 10 ^ 8"
  shows "near (num_add (num_sub b x) y) (q - old + new) (1 / 1000)"
proof -
  have s: "near (num_sub b x) (q - old) (1 / 2 ^ 13 + 1 / 2 ^ 13 + 1 / 2 ^ 24)"
    using assms(4,5) by (intro near_sub assms(1,2)) (auto simp: abs_le_iff abs_less_iff)
  have "near (num_add (num_sub b x) y) (q - old + new) (1 / 2 ^ 13 + 1 / 2 ^ 13 + 1 / 2 ^ 24 + 1 / 2 ^ 13 + 1 / 2 ^ 24)"
    using assms(4-6) by (intro near_add s assms(3)) (auto simp: abs_le_iff abs_less_iff)
  then show ?thesis by (rule near_mono) simp
qed

section \<open>What the form sends\<close>

lemma int64_of_int: "\<bar>k\<bar> \<le> 2 ^ 50 \<Longrightarrow> int64_of (num_of_int k) = Some k"
  by (subst num_of_int_exact) (auto simp: int64_of_def Let_def abs_le_iff)

lemma sent_row:
  assumes "read_amount (evaluateMath pow (si_amount s)) = cents k" and "\<bar>k\<bar> \<le> 2 ^ 50"
  shows "decode_split (the (parse_split pow s)) = Some \<lparr>bk_account = si_account s, bk_memo = si_memo s,
    bk_value_num = k, bk_value_denom = 100, bk_quantity_num = k, bk_quantity_denom = 100, bk_state = ''n''\<rparr>"
proof -
  have "parse_split pow s = Some \<lparr>rs_account = si_account s, rs_memo = si_memo s, rs_value_num = num_of_int k,
      rs_value_denom = num_of_int 100, rs_quantity_num = num_of_int k, rs_quantity_denom = num_of_int 100\<rparr>"
    using assms cents_mag(1) [OF assms(2)] round_cents [OF assms(2)] by (simp add: parse_split_def Let_def)
  then show ?thesis using int64_of_int [OF assms(2)] int64_of_int [of 100] by (simp add: decode_split_def)
qed

lemma sent_account:
  assumes "decode_split (the (parse_split pow s)) = Some b" and "parse_split pow s \<noteq> None"
  shows "bk_account b = si_account s"
  using assms(1) parse_split_account [OF assms(2)] by (auto simp: decode_split_def split: option.splits)

lemma sent_quantity:
  assumes "those (map decode_split (map (\<lambda>s. the (parse_split pow s)) ss)) = Some sps"
    and "\<forall>s\<in>set ss. parse_split pow s \<noteq> None"
    and "\<forall>s\<in>set ss. si_account s = h \<longrightarrow> read_amount (evaluateMath pow (si_amount s)) = cents (k s) \<and> \<bar>k s\<bar> \<le> 2 ^ 50"
  shows "account_quantity h sps = of_int (\<Sum>s\<leftarrow>filter (\<lambda>s. si_account s = h) ss. k s) / 100
    \<and> (\<forall>b\<in>set sps. bk_account b = h \<and> bk_value_num b = 0 \<longrightarrow> quantity_of b = 0)"
  using assms
proof (induction ss arbitrary: sps)
  case (Cons s ss)
  obtain b bs where b: "decode_split (the (parse_split pow s)) = Some b" "sps = b # bs"
    and bs: "those (map decode_split (map (\<lambda>s. the (parse_split pow s)) ss)) = Some bs"
    using Cons.prems(1) by (auto split: option.splits)
  have acc: "bk_account b = si_account s" using sent_account [OF b(1)] Cons.prems(2) by simp
  have own: "bk_quantity_num b = k s" "bk_quantity_denom b = 100" "bk_value_num b = k s" if "si_account s = h"
    using sent_row [of pow s "k s"] that b(1) Cons.prems(3) by auto
  have "account_quantity h bs = of_int (\<Sum>s\<leftarrow>filter (\<lambda>s. si_account s = h) ss. k s) / 100
    \<and> (\<forall>b\<in>set bs. bk_account b = h \<and> bk_value_num b = 0 \<longrightarrow> quantity_of b = 0)"
    using Cons.IH [OF bs] Cons.prems by simp
  then show ?case
    using acc own by (cases "si_account s = h") (auto simp: b(2) account_quantity_def quantity_of_def add_divide_distrib)
qed (simp add: account_quantity_def)

lemma call_of_form:
  assumes "handleSubmit pow lang p st = (st', Some call)"
  shows "call_splits call = map (\<lambda>s. the (parse_split pow s)) (validSplits (fm_splits st))"
    and "\<forall>s\<in>set (validSplits (fm_splits st)). parse_split pow s \<noteq> None"
    and "truthy (fp_edit p) \<Longrightarrow> \<exists>c. call = UpdateTx (the (fp_edit p)) c"
    and "\<not> truthy (fp_edit p) \<Longrightarrow> \<exists>c. call = CreateTx c"
proof -
  have ok: "submittable pow st" and dp: "date_parse (fm_post_date st @ ''T11:00:00Z'') \<noteq> None"
    using assms handleSubmit_reject [of pow st lang p] by force+
  from dp obtain ms where "date_parse (fm_post_date st @ ''T11:00:00Z'') = Some ms" by blast
  from handleSubmit_accept [OF ok this, of lang p] assms
  have c: "call = form_call p (form_payload pow st ms)" by simp
  show "call_splits call = map (\<lambda>s. the (parse_split pow s)) (validSplits (fm_splits st))"
    by (simp add: c call_splits_def form_call_def form_payload_def)
  show "\<forall>s\<in>set (validSplits (fm_splits st)). parse_split pow s \<noteq> None" using ok by (simp add: submittable_def)
  show "truthy (fp_edit p) \<Longrightarrow> \<exists>c. call = UpdateTx (the (fp_edit p)) c"
    "\<not> truthy (fp_edit p) \<Longrightarrow> \<exists>c. call = CreateTx c" by (simp_all add: c form_call_def)
qed

section \<open>The balance announced\<close>

lemma form_edit_initial: "fm_initial (form_edit pow ev st) = fm_initial st"
  by (cases ev)
    (simp_all add: updateSplit_def handleAmountBlur_def Let_def addSplit_def removeSplit_def form_accounts_loaded_def)

lemma edits_initial: "fm_initial (fold (form_edit pow) evs st) = fm_initial st"
  by (induction evs arbitrary: st) (simp_all add: form_edit_initial)

lemma served_account:
  assumes "list_all2 served_split old ts" and "\<forall>b\<in>set old. bk_account b = h \<longrightarrow> in_cents b (c b) \<and> \<bar>c b\<bar> \<le> 2 ^ 50"
  shows "map split_amount (filter (\<lambda>s. sp_account s = h) ts) = map (\<lambda>b. cents (c b)) (filter (\<lambda>b. bk_account b = h) old)"
    and "account_quantity h old = of_int (\<Sum>b\<leftarrow>filter (\<lambda>b. bk_account b = h) old. c b) / 100"
  using assms
  by (induction rule: list_all2_induct)
    (auto simp: served_amount account_quantity_def in_cents_def add_divide_distrib served_split_def)

text \<open>
  The form as it is used: it was opened empty, or a transaction of the book was loaded into it to be
  edited or duplicated, whose splits the server sent; and then it was filled in.
\<close>

definition form_opened :: "int \<Rightarrow> form_props \<Rightarrow> book_split list \<Rightarrow> form_state \<Rightarrow> bool" where
  "form_opened now p old st \<longleftrightarrow>
     (\<exists>tx st0. list_all2 served_split old (tx_splits tx) \<and> st = form_tx_settled p (Inr tx) st0)
     \<or> \<not> truthy (fp_edit p) \<and> st = form_init now p"

lemma near_opened:
  assumes "form_opened now p old st" and "old = (if truthy (fp_edit p) then replaced call book else old)"
    and "truthy (fp_edit p) \<or> replaced call book = []"
    and "\<forall>b\<in>set (replaced call book). bk_account b = h \<longrightarrow> in_cents b (c b)"
    and "modest c (filter (\<lambda>b. bk_account b = h) (replaced call book))" and "h \<noteq> []"
  shows "near (held (fm_initial st) h) (account_quantity h (replaced call book)) (1 / 2 ^ 13)
    \<and> \<bar>account_quantity h (replaced call book)\<bar> \<le> 2 * 10 ^ 8"
proof (cases "truthy (fp_edit p)")
  case True
  then obtain tx st0 where tx: "list_all2 served_split (replaced call book) (tx_splits tx)" "st = form_tx_settled p (Inr tx) st0"
    using assms(1,2) by (auto simp: form_opened_def)
  note m = modest_facts [OF assms(5)]
  have "\<forall>b\<in>set (replaced call book). bk_account b = h \<longrightarrow> in_cents b (c b) \<and> \<bar>c b\<bar> \<le> 2 ^ 50"
    using assms(4) m(4) by auto
  note sv = served_account [OF tx(1) this]
  show ?thesis
    using near_held [OF sv(1) assms(5,6)] m(5) True unfolding sv(2) by (simp add: tx(2) form_tx_settled_def)
next
  case False
  with assms(1) have "fm_initial st = Map.empty" by (auto simp: form_opened_def form_tx_settled_def form_init_def)
  with False assms(3) show ?thesis by (auto simp: held_def num_or_def account_quantity_def near_def)
qed

text \<open>
  C2. The balance announced beside a split is the balance its account has in the book after saving,
  within a tenth of a cent and in the sign its type is shown in, for a new transaction, a duplicate
  and an edit: the server's balance sums the quantities of the splits, of which saving removes
  those of the edited transaction and adds those of the request.

  Conditions: the server accepts the request; the balance the page loaded is at most \<open>2\<^sup>-\<^sup>1\<^sup>3\<close>
  off the book's, which is at most two hundred million units; the identities of the
  transactions differ; the rows of this account evaluate to whole cents, as do, in value and quantity
  alike, the splits of this account in the edited transaction, at most a thousand each and two hundred
  million units together; the other rows and splits are arbitrary; and if a new transaction does
  not balance, the account is not the one the server balances it with.
\<close>

theorem announced_balance:
  assumes "form_opened now p (if truthy (fp_edit p) then replaced call book else old) st0"
    and "st = fold (form_edit pow) evs st0"
    and "handleSubmit pow lang p st = (st', Some call)"
    and "save_call target imbalance guid call book = Inr book'" and "distinct (map fst book)"
    and "truthy (fp_edit p) \<or> imbalance \<noteq> h"
    and "\<forall>b\<in>set (replaced call book). bk_account b = h \<longrightarrow> in_cents b (c b)"
    and "modest c (filter (\<lambda>b. bk_account b = h) (replaced call book))"
    and "\<forall>s\<in>set (fm_splits st). si_account s = h \<longrightarrow> read_amount (evaluateMath pow (si_amount s)) = cents (k s)"
    and "modest k (filter (\<lambda>s. si_account s = h) (fm_splits st))"
    and "s \<in> set (fm_splits st)" and "si_account s = h" and "h \<noteq> []"
    and "List.find (\<lambda>a. acc_guid a = h) (fm_accounts st) = Some acc"
    and "near (acc_balance acc) (book_balance book h) (1 / 2 ^ 13)" and "\<bar>book_balance book h\<bar> \<le> 2 * 10 ^ 8"
  shows "\<exists>x. projected_balance pow st s = Some x
    \<and> near x ((if credit_normal (acc_type acc) then - 1 else 1) * book_balance book' h) (1 / 1000)"
proof -
  note sent = call_of_form [OF assms(3)]
  let ?own = "filter (\<lambda>s. si_account s = h) (fm_splits st)"
  define new where "new = (of_int (\<Sum>s\<leftarrow>?own. k s) / 100 :: rat)"
  define x y where "x = held (fm_initial st) h" and "y = foldl (\<lambda>sum s. num_add sum
      (num_or (read_amount (evaluateMath pow (si_amount s))) zero)) zero ?own"
  note m = modest_facts [OF assms(10)]
  have "(\<exists>g c. call = UpdateTx g c) \<or> imbalance \<noteq> h" using assms(6) sent(3) by blast
  then obtain sps where sps: "those (map decode_split (call_splits call)) = Some sps"
    and after: "(\<forall>b\<in>set sps. bk_account b = h \<and> bk_value_num b = 0 \<longrightarrow> quantity_of b = 0) \<longrightarrow>
      book_balance book' h = book_balance book h - account_quantity h (replaced call book) + account_quantity h sps"
    using saved_balance [OF assms(4,5)] by blast
  have own: "filter (\<lambda>s. si_account s = h) (validSplits (fm_splits st)) = ?own"
    unfolding validSplits_def filter_filter using assms(13) by (intro filter_cong) auto
  have "set (validSplits (fm_splits st)) \<subseteq> set (fm_splits st)" by (auto simp: validSplits_def)
  then have "\<forall>s\<in>set (validSplits (fm_splits st)). si_account s = h \<longrightarrow>
      read_amount (evaluateMath pow (si_amount s)) = cents (k s) \<and> \<bar>k s\<bar> \<le> 2 ^ 50"
    using assms(9) m(4) by auto
  from sent_quantity [OF sps [unfolded sent(1)] sent(2) this] after
  have balance: "book_balance book' h = book_balance book h - account_quantity h (replaced call book) + new"
    by (simp add: own new_def)
  have "truthy (fp_edit p) \<or> replaced call book = []" using sent(4) by (cases "truthy (fp_edit p)") (auto simp: replaced_def)
  then have old: "near x (account_quantity h (replaced call book)) (1 / 2 ^ 13)"
    "\<bar>account_quantity h (replaced call book)\<bar> \<le> 2 * 10 ^ 8"
    using near_opened [OF assms(1) _ _ assms(7,8,13)] by (simp_all add: x_def assms(2) edits_initial)
  have "near y new (1 / 2 ^ 13)" unfolding y_def new_def using assms(9) by (intro near_current assms(10)) auto
  moreover have "\<bar>new\<bar> \<le> 2 * 10 ^ 8" using m(5) by (simp add: new_def)
  ultimately have raw: "near (num_add (num_sub (acc_balance acc) x) y) (book_balance book' h) (1 / 1000)"
    unfolding balance by (intro near_change assms(15,16) old)
  have "acc_guid acc = h" using assms(14) by (auto simp: find_Some_iff)
  then have p: "projected_balance pow st s = Some (let raw = num_add (num_sub (acc_balance acc) x) y
      in if credit_normal (acc_type acc) then num_neg raw else raw)"
    by (simp add: projected_balance_def assms(12,14) x_def y_def held_def Let_def)
  show ?thesis
    using p raw near_neg [OF raw] by (auto simp: Let_def)
qed

text \<open>
  The book of the witness: the transaction of 1234.57 that is edited to 50.25, and another one
\<close>

definition sample_split :: "string \<Rightarrow> int \<Rightarrow> book_split" where
  "sample_split g v =
     \<lparr>bk_account = g, bk_memo = ''m'', bk_value_num = v, bk_value_denom = 100, bk_quantity_num = v,
      bk_quantity_denom = 100, bk_state = ''n''\<rparr>"

definition sample_book :: book where
  "sample_book = [(''u'', [sample_split ''a'' (- 623457), sample_split ''b'' 623457]),
     (''t'', [sample_split ''a'' 123457, sample_split ''b'' (- 123457)])]"

definition saved_book :: book where
  "saved_book = [(''u'', [sample_split ''a'' (- 623457), sample_split ''b'' 623457]),
     (''t'', [sample_split ''a'' 5025, sample_split ''b'' (- 5025)])]"

definition sample_card :: account where
  "sample_card =
     \<lparr>acc_guid = ''a'', acc_name = ''Card'', acc_type = CREDIT, acc_parent = None, acc_placeholder = False,
      acc_description = [], acc_metadata = [], acc_version = zero, acc_balance = cents (- 500000), acc_reconciled = zero,
      acc_agg_balance = None, acc_agg_reconciled = None, acc_last_reconciled = None\<rparr>"

definition sample_edits :: "form_event list" where
  "sample_edits = [AccountsLoaded [sample_card], EditSplit 0 FAmount (num_to_string (cents 5025))]"

abbreviation nopow :: "number \<Rightarrow> number \<Rightarrow> number" where
  "nopow \<equiv> \<lambda>x y. NaN"
definition sample_saving :: form_state where
  "sample_saving = fold (form_edit nopow) sample_edits
     (form_tx_settled sample_props (Inr sample_tx) (form_init 0 sample_props))"

lemma cents_neg: "\<bar>n\<bar> \<le> 2 ^ 50 \<Longrightarrow> n \<noteq> 0 \<Longrightarrow> num_neg (cents n) = cents (- n)"
  using cents_mag(1) [of n] cents_mag(1) [of "- n"] by auto

lemma cents_number: "\<bar>n\<bar> \<le> 2 ^ 50 \<Longrightarrow> \<not> is_nan (cents n)"
  using cents_mag(1) [of n] by simp

lemma sample_rows:
  "fm_splits sample_saving = [\<lparr>si_account = ''a'', si_amount = num_to_string (cents 5025), si_memo = ''m''\<rparr>,
     \<lparr>si_account = ''b'', si_amount = num_to_string (cents (- 5025)), si_memo = ''m''\<rparr>]"
proof -
  have loaded: "split_amount (tx_splits sample_tx ! 0) = cents 123457" "split_amount (tx_splits sample_tx ! 1) = cents (- 123457)"
    by (simp_all add: sample_tx_def Let_def split_amount_def cents_def num_or_def num_of_int_100)
  have f: "follows (num_to_string (cents 123457)) (num_to_string (cents (- 123457)))"
  proof -
    have "num_eq (num_add (cents 123457) (cents (- 123457))) zero"
      using cents_mag(1) [of 123457] cents_mag(1) [of "- 123457"] by simp
    then show ?thesis by (simp add: follows_def read_amount_cents cents_number del: num_to_string.simps)
  qed
  show ?thesis
    using loaded f
    by (simp add: sample_saving_def sample_edits_def form_tx_settled_def form_accounts_loaded_def updateSplit_def Let_def sample_tx_def
        split_to_input_def read_amount_cents cents_neg cents_number del: num_to_string.simps)
qed

lemma sample_sends:
  "\<exists>st' req. handleSubmit nopow ''en'' sample_props sample_saving = (st', Some (UpdateTx ''t'' req))"
proof -
  have "four_digit_day 19779" by (simp add: four_digit_day_def)
  note n = this
  have p: "fm_post_date sample_saving = date_text 19779"
    using no_T_in_date_text [OF n, of "''11:00:00Z''"]
    by (simp add: sample_saving_def sample_edits_def form_tx_settled_def form_accounts_loaded_def updateSplit_def Let_def sample_tx_facts(3) del: num_to_string.simps)
  have "parse_split nopow \<lparr>si_account = g, si_amount = num_to_string (cents k), si_memo = m\<rparr> \<noteq> None" if "\<bar>k\<bar> \<le> 2 ^ 50" for g k m
    using cents_number [OF that] by (simp add: parse_split_def evaluateMath_cents [OF that] read_amount_cents [OF that] Let_def del: num_to_string.simps)
  then have "submittable nopow sample_saving"
    by (simp add: submittable_def validSplits_def sample_rows del: num_to_string.simps not_None_eq)
  from handleSubmit_accept [OF this, unfolded p, OF parse_eleven [OF n], of "''en''" sample_props]
  show ?thesis by (simp add: form_call_def sample_props_def)
qed
lemma sample_saved:
  assumes "handleSubmit nopow ''en'' sample_props sample_saving = (st', Some call)"
  shows "save_call (\<lambda>_. Some False) ''z'' ''n'' call sample_book
  = Inr saved_book"
proof -
  have "decode_split (the (parse_split nopow \<lparr>si_account = g, si_amount = num_to_string (cents k), si_memo = ''m''\<rparr>)) = Some (sample_split g k)"
     if "\<bar>k\<bar> \<le> 2 ^ 50" for g k
    using sent_row [of nopow "\<lparr>si_account = g, si_amount = num_to_string (cents k), si_memo = ''m''\<rparr>" k] that
    by (simp add: evaluateMath_cents read_amount_cents sample_split_def del: num_to_string.simps)
  then have "map decode_split (call_splits call) = [Some (sample_split ''a'' 5025), Some (sample_split ''b'' (- 5025))]"
    unfolding call_of_form(1) [OF assms] validSplits_def sample_rows by (simp del: num_to_string.simps)
  then have d: "those (map decode_split (call_splits call)) = Some [sample_split ''a'' 5025, sample_split ''b'' (- 5025)]"
    by (simp del: map_map)
  obtain c where c: "call = UpdateTx ''t'' c" using call_of_form(3) [OF assms] by (auto simp: sample_props_def)
  show ?thesis
    using d by (simp add: c saved_book_def save_call_def update_transaction_def call_splits_def sample_book_def splits_sum_def value_of_def sample_split_def)
qed
theorem announced_balance_witness:
  "\<exists>x. projected_balance nopow sample_saving (fm_splits sample_saving ! 0) = Some x \<and> near x (618432 / 100) (1 / 1000)
    \<and> book_balance saved_book ''a'' = - 618432 / 100"
proof -
  obtain st' req where sent: "handleSubmit nopow ''en'' sample_props sample_saving = (st', Some (UpdateTx ''t'' req))"
    using sample_sends by blast
  note saved = sample_saved [OF sent]
  let ?old = "[sample_split ''a'' 123457, sample_split ''b'' (- 123457)]"
  let ?row = "\<lparr>si_account = ''a'', si_amount = num_to_string (cents 5025), si_memo = ''m''\<rparr>"
  have old: "replaced (UpdateTx ''t'' req) sample_book = ?old" by (simp add: replaced_def sample_book_def)
  have "list_all2 served_split ?old (tx_splits sample_tx)" by (simp add: served_split_def sample_split_def sample_tx_def Let_def)
  then have opened: "form_opened 0 sample_props (if truthy (fp_edit sample_props) then replaced (UpdateTx ''t'' req) sample_book else [])
      (form_tx_settled sample_props (Inr sample_tx) (form_init 0 sample_props))"
    unfolding form_opened_def old by (auto simp: sample_props_def)
  have bal: "book_balance sample_book ''a'' = - 500000 / 100"
    by (simp add: book_balance_def sample_book_def account_quantity_def quantity_of_def sample_split_def)
  have near: "near (acc_balance sample_card) (book_balance sample_book ''a'') (1 / 2 ^ 13)"
    using near_mono [OF near_cents [of "- 500000"]] by (simp add: bal sample_card_def)
  have "\<exists>x. projected_balance nopow sample_saving ?row = Some x
      \<and> near x ((if credit_normal (acc_type sample_card) then - 1 else 1) * book_balance saved_book ''a'') (1 / 1000)"
  proof (rule announced_balance [OF opened sample_saving_def sent saved, where c = bk_value_num and k = "\<lambda>_. 5025" and h = "''a''"])
    show "distinct (map fst sample_book)" by (simp add: sample_book_def)
    show "\<forall>b\<in>set (replaced (UpdateTx ''t'' req) sample_book). bk_account b = ''a'' \<longrightarrow> in_cents b (bk_value_num b)"
      by (simp add: old in_cents_def value_of_def quantity_of_def sample_split_def)
    show "modest bk_value_num (filter (\<lambda>b. bk_account b = ''a'') (replaced (UpdateTx ''t'' req) sample_book))"
      by (simp add: old modest_def sample_split_def)
    show "modest (\<lambda>_. 5025) (filter (\<lambda>s. si_account s = ''a'') (fm_splits sample_saving))"
      by (simp add: sample_rows modest_def del: num_to_string.simps)
    show "List.find (\<lambda>a. acc_guid a = ''a'') (fm_accounts sample_saving) = Some sample_card"
      by (simp add: sample_saving_def sample_edits_def form_accounts_loaded_def updateSplit_def Let_def sample_card_def del: num_to_string.simps)
    show "near (acc_balance sample_card) (book_balance sample_book ''a'') (1 / 2 ^ 13)" by (rule near)
  qed (simp_all add: sample_rows bal evaluateMath_cents read_amount_cents sample_props_def del: num_to_string.simps)
  moreover have "book_balance saved_book ''a'' = - 618432 / 100"
    by (simp add: saved_book_def book_balance_def account_quantity_def quantity_of_def sample_split_def)
  ultimately show ?thesis by (simp add: sample_rows sample_card_def credit_normal_def del: num_to_string.simps)
qed

end
