(* ===== verification/Spec2Isabelle.thy ===== *)
theory Spec2Isabelle
  imports TransactionFormLaws RegisterUtils DateOrder AccountFormLaws AccountBreadcrumbs AccountPicker ReconcileLaws RegisterPaging RegisterPageLaws SessionLaws DataLaws
    ConvertCsvLaws SnapshotsLaws DashboardLaws AccountsPage TransactionsPage
    TransactionFormView RegisterView WizardView ConvertCsvIds AccountTreeView AccountFormView DashboardView
    DataView SnapshotsView AppView TransactionsView MatcherView AccountStore TransactionStore
begin

text \<open>
  A verification library for the web frontend of antimoney, a double-entry bookkeeping program,
  and for its converter of GnuCash exports.

  \<^bold>\<open>The program.\<close> The frontend (\<^verbatim>\<open>src/frontend/src\<close>) is a React application in
  TypeScript: pages (\<^verbatim>\<open>pages/\<close>) load data through the client (\<^verbatim>\<open>api/client.ts\<close>),
  keep it in their state and hand it to components (\<^verbatim>\<open>components/\<close>); a session
  (\<^verbatim>\<open>auth/\<close>), a registry of keyboard shortcuts (\<^verbatim>\<open>hooks/\<close>), the translations
  (\<^verbatim>\<open>i18n.ts\<close>) and a few helpers (\<^verbatim>\<open>utils/\<close>) are shared. The converter
  (\<^verbatim>\<open>src/scripts/convert_csv.js\<close>) turns two CSV files into the JSON the server imports.

  \<^bold>\<open>How it is modelled.\<close> The state of a component is a record with one field per \<^verbatim>\<open>useState\<close>
  or \<^verbatim>\<open>useRef\<close>; its handlers and effects are functions on that record. A handler that
  calls the server is split in two: the part before the call gives the new state and the request,
  if any; the part after it (named \<open>..._settled\<close>) takes the outcome, a sum of an exception and an
  answer, and the state at that time, whatever happened in between. Where the order of such
  events matters they are the steps of a relation or a list of events, so that theorems hold for
  every interleaving. What a component shows is a record or datatype computed from its state;
  styling is left out. JavaScript's \<^verbatim>\<open>null\<close> and \<^verbatim>\<open>undefined\<close> are \<open>None\<close>.

  \<^bold>\<open>The language.\<close> \<open>JsNumber\<close> defines the numbers of JavaScript (binary64, computed on exact
  rationals and rounded); \<open>JsRounding\<close> and \<open>JsSum\<close> bound the errors of rounding and of sums. \<open>JsString\<close>
  has the operations on strings and the conversion of numbers to text and back, \<open>JsNumText\<close> and
  \<open>AmountText\<close> prove these round trips, the latter for amounts in cents. \<open>JsExpr\<close> evaluates the
  expressions that amount fields accept, \<open>JsDate\<close> is the calendar and the text of dates, \<open>JsJson\<close> reads
  and writes JSON. \<open>Prelude\<close> has what all share: the exceptions, the stable sort, the collections
  of lemmas, and the locales \<open>persisted\<close> (a value stored and read back), \<open>async_handler\<close> (a busy flag
  that is set exactly while a call is out) and \<open>comparator\<close> (what a sort by a consistent comparator
  gives). They are interpreted where a component provides them: by the cached user, the chosen
  language and the opened rows of the chart of accounts; by the submissions of the editors, the sign-in page, the wizard, the imports, the
  snapshots and the synchronisation; by the orders of entries, transactions, accounts and shares.

  \<^bold>\<open>The components\<close>, each with its operations first and its laws after them or in a theory \<open>...Laws\<close>:
  \<^item> \<open>Types\<close> (\<^verbatim>\<open>types/index.ts\<close>), \<open>I18n\<close> (\<^verbatim>\<open>i18n.ts\<close>): data, messages, languages.
    Every English message has a text in every language.
  \<^item> \<open>TransactionForm\<close>, \<open>TransactionFormLaws\<close>, \<open>TransactionFormView\<close>
    (\<^verbatim>\<open>components/TransactionForm.tsx\<close>): saving an unchanged transaction sends back what was
    loaded; the second of two splits balances the first; only validated input is sent, and once.
  \<^item> \<open>TransactionStore\<close> (\<^verbatim>\<open>backend/internal/services/transaction_service.go\<close> and the sums of
    \<^verbatim>\<open>account_service.go\<close>): creating and updating transactions on the server, and that the balance
    the editor announces is the one the account has in the book after saving.
  \<^item> \<open>AccountTree\<close>, \<open>ParentChain\<close>, \<open>AccountTreeLaws\<close>, \<open>AccountTreeView\<close>
    (\<^verbatim>\<open>components/AccountTree.tsx\<close>), \<open>AccountForm\<close>, \<open>AccountFormLaws\<close>, \<open>AccountFormView\<close>
    (\<^verbatim>\<open>components/AccountForm.tsx\<close>), \<open>AccountBreadcrumbs\<close>
    (\<^verbatim>\<open>components/AccountBreadcrumbs.tsx\<close>), \<open>AccountsPage\<close> (\<^verbatim>\<open>pages/Accounts.tsx\<close>): which
    accounts the tree contains, in which shape and with which aggregates, which of them are visible
    when some are closed, that both editors build the same tree, when the loop over parents ends,
    what is reconciled with an account.
  \<^item> \<open>AccountStore\<close> (\<^verbatim>\<open>backend/internal/services/account_service.go\<close>): the server's changes of
    accounts as steps of a relation; the chart shows every account as long as none is moved below
    itself, and what vanishes when the editor does so.
  \<^item> \<open>AccountPicker\<close> (\<^verbatim>\<open>components/AccountPicker.tsx\<close>), \<open>Shortcuts\<close>
    (\<^verbatim>\<open>hooks/useShortcuts.ts\<close>), \<open>DateShortcut\<close> (\<^verbatim>\<open>utils/date.ts\<close>): keys, and which
    handler they reach.
  \<^item> \<open>RegisterUtils\<close>, \<open>DateOrder\<close> (\<^verbatim>\<open>utils/registerSort.ts\<close>, \<^verbatim>\<open>utils/registerSearch.ts\<close>,
    \<^verbatim>\<open>utils/plaidSync.ts\<close>), \<open>Register\<close>, \<open>RegisterView\<close> (\<^verbatim>\<open>components/Register.tsx\<close>),
    \<open>RegisterPage\<close>, \<open>RegisterPageLaws\<close> (\<^verbatim>\<open>pages/AccountRegister.tsx\<close>), \<open>RegisterPaging\<close> (with the
    paging of the server, \<^verbatim>\<open>backend/internal/services/transaction_service.go\<close>): the order of
    entries is the order of their days; page and server implement a window of the register, for
    any order of the server's, and show it in the page's order; in every reachable state what is
    shown is in order and without duplicates.
  \<^item> \<open>ReconcileWizard\<close>, \<open>ReconcileLaws\<close>, \<open>WizardView\<close> (\<^verbatim>\<open>components/ReconcileWizard.tsx\<close>): what a
    reconciliation sends, and that its test for balance is exact to the cent.
  \<^item> \<open>ApiClient\<close> (\<^verbatim>\<open>api/client.ts\<close>), \<open>Session\<close>, \<open>SessionLaws\<close> (\<^verbatim>\<open>auth/AuthContext.tsx\<close>,
    \<^verbatim>\<open>pages/LoginPage.tsx\<close>, \<^verbatim>\<open>App.tsx\<close>, \<^verbatim>\<open>components/Sidebar.tsx\<close>): requests,
    answers, and a session whose cached copy agrees with the user shown. \<open>AppView\<close>: layout, menu
    and the sign-in page as shown.
  \<^item> \<open>DataManagement\<close>, \<open>DataLaws\<close>, \<open>DataView\<close> (\<^verbatim>\<open>pages/DataManagement.tsx\<close>), \<open>ImportMatcher\<close>,
    \<open>MatcherView\<close> (\<^verbatim>\<open>components/ImportMatcher.tsx\<close>): imports and their failures, connecting a bank as a
    step relation with its invariant and what can still be reached, what an import sends.
  \<^item> \<open>Dashboard\<close>, \<open>DashboardLaws\<close>, \<open>DashboardView\<close> (\<^verbatim>\<open>pages/Dashboard.tsx\<close>), \<open>TransactionsPage\<close>,
    \<open>TransactionsView\<close> (\<^verbatim>\<open>pages/Transactions.tsx\<close>), \<open>Snapshots\<close>, \<open>SnapshotsLaws\<close>, \<open>SnapshotsView\<close>
    (\<^verbatim>\<open>pages/Snapshots.tsx\<close>): figures, ranges of dates, charts, lists, schedules, messages.
  \<^item> \<open>ConvertCsv\<close>, \<open>ConvertCsvLaws\<close>, \<open>ConvertCsvIds\<close> (\<^verbatim>\<open>scripts/convert_csv.js\<close>): columns, order of
    accounts, runs of rows as transactions, amounts, identifiers.

  The theories named \<open>...View\<close> give what a page or dialog shows as a value: its texts in the chosen
  language, its fields and buttons with their labels and whether they are enabled, its rows, and
  what a click on each of them does.

  \<^bold>\<open>Bounds and fuel.\<close> The recursions over the account tree have the number of accounts as
  fuel; \<open>tree_terminates\<close> shows that this is enough for every list of accounts with distinct guids. The loop of
  the breadcrumbs may run forever and is a \<^theory_text>\<open>partial_function (option)\<close>. The shortest text of a number
  has at most 17 digits, which \<open>JsNumText\<close> shows to be enough. Amounts are exact up to \<open>2\<^sup>5\<^sup>0\<close> cents;
  bounds on sums assume up to a thousand accounts or splits, or four thousand entries, and name the
  sizes of the amounts and the rounding errors of the server they allow. Fields for hours hold up
  to 300 characters, far from the largest double.

  \<^bold>\<open>Parameters.\<close> What belongs to the browser or its environment is an argument: the collation
  (\<open>coll\<close>), the time and the offset of the time zone (\<open>now\<close>, \<open>today\<close>, \<open>offset\<close>, \<open>to_utc\<close>), the formatters of
  amounts and dates (\<open>number_format\<close>, \<open>money\<close>, \<open>weekday\<close>, \<open>day_format\<close>), the power operator (\<open>pow\<close>), the
  router's matching of paths (\<open>pick\<close>), the digest (\<open>md5hex\<close>), the answers of the server and of the bank's
  dialog, and the user's answers to confirmation dialogs. Where the server is modelled, the
  identities it makes, the accounts it looks up, the book's root and the order and the counts of
  the database are arguments.

  \<^bold>\<open>Not modelled.\<close> Styling, hover effects and moving the keyboard focus; the code that starts the
  application; the server but for its paging and its
  changes of accounts and transactions (Go code around SQL statements), the database, the
  deployment, and the tests. Texts have code units below 256, messages are their UTF-8 bytes.
\<close>

end
